(* ===== verification/Rexec_Prelude.thy ===== *)
theory Rexec_Prelude
  imports Main "HOL-Library.Sublist"
begin

text \<open>
  Shared vocabulary of the development: Go strings and byte slices, instants and durations,
  results of fallible calls, \<^verbatim>\<open>errors.Join\<close>, the linear scan over a slice, and the
  generic lemmas on lists and maps that the component theories use.

  A Go string and a Go byte slice are both sequences of bytes, so both are HOL strings
  (a HOL character is one byte). An instant is a number of nanoseconds on the wall clock, a
  \<^verbatim>\<open>time.Duration\<close> is a signed number of nanoseconds. A fallible call returns a sum:
  \<open>Inl\<close> the error, \<open>Inr\<close> the value.
\<close>

section \<open>Types\<close>

type_synonym bytes = string
type_synonym instant = int
type_synonym duration = int

text \<open>
  Facts a proof about one operation wants unfolded together: the definitions of the small Go
  library models, and the splits of the sums and options they return.
\<close>

named_theorems go_defs
named_theorems store_laws

section \<open>Durations\<close>

definition time_Second :: duration where
  "time_Second = 1000000000"

definition time_Minute :: duration where
  "time_Minute = 60 * time_Second"

definition time_Hour :: duration where
  "time_Hour = 60 * time_Minute"

text \<open>\<^verbatim>\<open>t.Add(d)\<close> and \<^verbatim>\<open>t.After(u)\<close> of package time.\<close>

definition time_Add :: "instant \<Rightarrow> duration \<Rightarrow> instant" where
  "time_Add t d = t + d"

definition time_After :: "instant \<Rightarrow> instant \<Rightarrow> bool" where
  "time_After t u \<longleftrightarrow> u < t"

lemmas time_units [go_defs] = time_Second_def time_Minute_def time_Hour_def
lemmas time_ops [go_defs, simp] = time_Add_def time_After_def

section \<open>Fallible steps\<close>

text \<open>
  The Go idiom \<^verbatim>\<open>x, err := f(); if err != nil { return err }\<close>: \<open>and_then\<close> for a pure
  call, \<open>and_then_st\<close> for a call that also threads a state.
\<close>

fun and_then :: "'e + 'a \<Rightarrow> ('a \<Rightarrow> 'e + 'b) \<Rightarrow> 'e + 'b" where
  "and_then (Inl e) k = Inl e"
| "and_then (Inr x) k = k x"

fun and_then_st :: "'s \<times> ('e + 'a) \<Rightarrow> ('a \<Rightarrow> 's \<Rightarrow> 's \<times> ('e + 'b)) \<Rightarrow> 's \<times> ('e + 'b)" where
  "and_then_st (s, Inl e) k = (s, Inl e)"
| "and_then_st (s, Inr x) k = k x s"

fun wrap_error :: "('e \<Rightarrow> 'f) \<Rightarrow> 'e + 'a \<Rightarrow> 'f + 'a" where
  "wrap_error w (Inl e) = Inl (w e)"
| "wrap_error w (Inr x) = Inr x"

fun check_error :: "'e option \<Rightarrow> 'e + unit" where
  "check_error None = Inr ()"
| "check_error (Some e) = Inl e"

lemma and_then_Inr [simp]:
  "and_then r k = Inr y \<longleftrightarrow> (\<exists>x. r = Inr x \<and> k x = Inr y)"
  by (cases r) auto

lemma and_then_Inl [simp]:
  "and_then r k = Inl e \<longleftrightarrow> r = Inl e \<or> (\<exists>x. r = Inr x \<and> k x = Inl e)"
  by (cases r) auto

lemma wrap_error_Inr [simp]: "wrap_error w r = Inr x \<longleftrightarrow> r = Inr x"
  by (cases r) auto

lemma wrap_error_Inl [simp]: "wrap_error w r = Inl f \<longleftrightarrow> (\<exists>e. r = Inl e \<and> f = w e)"
  by (cases r) auto

lemma and_then_st_Inr [simp]:
  "and_then_st r k = (s', Inr y) \<longleftrightarrow> (\<exists>s x. r = (s, Inr x) \<and> k x s = (s', Inr y))"
  by (cases "(r, k)" rule: and_then_st.cases) auto

lemma and_then_st_Inl:
  "and_then_st r k = (s', Inl e) \<longleftrightarrow>
     r = (s', Inl e) \<or> (\<exists>s x. r = (s, Inr x) \<and> k x s = (s', Inl e))"
  by (cases "(r, k)" rule: and_then_st.cases) auto

text \<open>
  A relation between the states before and after that every step keeps is kept by the sequence
  of two steps, whichever of them fails.
\<close>

lemma and_then_st_rel:
  assumes "and_then_st r k = (s', y)"
    and "P (fst r)"
    and "\<And>s x. r = (s, Inr x) \<Longrightarrow> P s \<Longrightarrow> P (fst (k x s))"
  shows "P s'"
  using assms by (cases "(r, k)" rule: and_then_st.cases) auto

lemma check_error_Inr [simp]: "check_error e = Inr u \<longleftrightarrow> e = None"
  by (cases e) auto

lemma check_error_Inl [simp]: "check_error e = Inl x \<longleftrightarrow> e = Some x"
  by (cases e) auto

section \<open>errors.Join\<close>

text \<open>
  \<^verbatim>\<open>errors.Join\<close> drops the nil errors and is nil when nothing is left.
\<close>

fun non_nil :: "'e option list \<Rightarrow> 'e list" where
  "non_nil [] = []"
| "non_nil (None # es) = non_nil es"
| "non_nil (Some e # es) = e # non_nil es"

definition errors_Join :: "('e list \<Rightarrow> 'e) \<Rightarrow> 'e option list \<Rightarrow> 'e option" where
  "errors_Join joined es = (case non_nil es of [] \<Rightarrow> None | xs \<Rightarrow> Some (joined xs))"

lemma non_nil_eq_Nil [simp]: "non_nil es = [] \<longleftrightarrow> set es \<subseteq> {None}"
  by (induction es rule: non_nil.induct) auto

lemma set_non_nil: "set (non_nil es) = {e. Some e \<in> set es}"
  by (induction es rule: non_nil.induct) auto

lemma errors_Join_None [simp]: "errors_Join j es = None \<longleftrightarrow> set es \<subseteq> {None}"
  by (auto simp: errors_Join_def split: list.splits)
     (metis list.distinct(1) non_nil_eq_Nil subset_iff singletonD)

section \<open>Maps\<close>

text \<open>
  A Go map is a partial function; a missing key reads as the zero value of the value type.
\<close>

definition map_read :: "'v \<Rightarrow> ('k \<rightharpoonup> 'v) \<Rightarrow> 'k \<Rightarrow> 'v" where
  "map_read z m k = (case m k of None \<Rightarrow> z | Some v \<Rightarrow> v)"

lemma map_read_simps [simp]:
  "m k = None \<Longrightarrow> map_read z m k = z"
  "m k = Some v \<Longrightarrow> map_read z m k = v"
  by (simp_all add: map_read_def)

section \<open>ASCII and UTF-8\<close>

definition is_ascii :: "string \<Rightarrow> bool" where
  "is_ascii s \<longleftrightarrow> list_all (\<lambda>c. (of_char c :: nat) < 128) s"

text \<open>A continuation byte of a UTF-8 sequence, with the range its position allows.\<close>

definition byte_in :: "nat \<Rightarrow> nat \<Rightarrow> char \<Rightarrow> bool" where
  "byte_in lo hi c \<longleftrightarrow> lo \<le> (of_char c :: nat) \<and> (of_char c :: nat) \<le> hi"

text \<open>
  \<^verbatim>\<open>utf8.ValidString\<close>: sequences of one to four bytes, shortest form only, no surrogate,
  nothing above U+10FFFF.
\<close>

fun utf8_valid :: "string \<Rightarrow> bool" where
  "utf8_valid [] = True"
| "utf8_valid (a # s) =
     (if byte_in 0 127 a then utf8_valid s
      else (case s of
         b # s1 \<Rightarrow>
           if byte_in 194 223 a then byte_in 128 191 b \<and> utf8_valid s1
           else (case s1 of
             c # s2 \<Rightarrow>
               if byte_in 224 239 a then
                 byte_in (if of_char a = (224::nat) then 160 else 128)
                         (if of_char a = (237::nat) then 159 else 191) b \<and>
                 byte_in 128 191 c \<and> utf8_valid s2
               else (case s2 of
                 d # s3 \<Rightarrow>
                   byte_in 240 244 a \<and>
                   byte_in (if of_char a = (240::nat) then 144 else 128)
                           (if of_char a = (244::nat) then 143 else 191) b \<and>
                   byte_in 128 191 c \<and> byte_in 128 191 d \<and> utf8_valid s3
               | [] \<Rightarrow> False)
           | [] \<Rightarrow> False)
       | [] \<Rightarrow> False))"

declare utf8_valid.simps(2) [simp del]

lemma is_ascii_utf8 [intro]: "is_ascii s \<Longrightarrow> utf8_valid s"
  by (induction s) (auto simp: is_ascii_def utf8_valid.simps(2) byte_in_def)

lemma is_ascii_append [simp]: "is_ascii (s @ t) \<longleftrightarrow> is_ascii s \<and> is_ascii t"
  by (simp add: is_ascii_def)

end
