(* ===== verification/One_Time.thy ===== *)
theory One_Time
  imports Rexec_Prelude
begin

text \<open>
  The interface the join tokens and the approval grants share: a store of one-time secrets.
  A secret is issued with a payload (the role it grants, the command it approves) and a
  deadline; redeeming it reports the payload and removes it. The locale names the operations a
  client relies on and the laws the providers promise; its lemmas are about every sequence of
  operations, and are proved once. Theories \<^verbatim>\<open>Policy_Grants\<close> and \<^verbatim>\<open>Token_Store\<close> interpret it on
  the models of \<^verbatim>\<open>policy.Grants\<close> and \<^verbatim>\<open>token.FileStore\<close>.
\<close>

section \<open>Runs and counts\<close>

fun run_ops :: "('op \<Rightarrow> 's \<Rightarrow> 's) \<Rightarrow> 'op list \<Rightarrow> 's \<Rightarrow> 's" where
  "run_ops step [] s = s"
| "run_ops step (a # as) s = run_ops step as (step a s)"

text \<open>How often an observation \<open>obs\<close> (an issue, a redemption) names the key \<open>k\<close> along a run.\<close>

fun count_obs ::
  "('op \<Rightarrow> 's \<Rightarrow> 's) \<Rightarrow> ('op \<Rightarrow> 's \<Rightarrow> ('k \<times> 'x) option) \<Rightarrow> 'k \<Rightarrow> 'op list \<Rightarrow> 's \<Rightarrow> nat" where
  "count_obs step obs k [] s = 0"
| "count_obs step obs k (a # as) s =
     (case obs a s of Some (k', x) \<Rightarrow> if k' = k then 1 else 0 | None \<Rightarrow> 0) +
     count_obs step obs k as (step a s)"

lemma run_ops_append: "run_ops step (as @ bs) s = run_ops step bs (run_ops step as s)"
  by (induction as arbitrary: s) auto

section \<open>One-time stores\<close>

locale one_time_store =
  fixes inv :: "'s \<Rightarrow> bool"
    and legal :: "'op \<Rightarrow> bool"
    and step :: "'op \<Rightarrow> 's \<Rightarrow> 's"
    and entry :: "'s \<Rightarrow> 'k \<Rightarrow> ('v \<times> instant) option"
    and issued :: "'op \<Rightarrow> 's \<Rightarrow> ('k \<times> 'v \<times> instant) option"
    and redeemed :: "'op \<Rightarrow> 's \<Rightarrow> ('k \<times> 'v) option"
  assumes inv_step: "inv s \<Longrightarrow> legal a \<Longrightarrow> inv (step a s)"
    and redeem_entry:
      "inv s \<Longrightarrow> legal a \<Longrightarrow> redeemed a s = Some (k, v) \<Longrightarrow> \<exists>e. entry s k = Some (v, e)"
    and redeem_spends:
      "inv s \<Longrightarrow> legal a \<Longrightarrow> redeemed a s = Some (k, v) \<Longrightarrow> entry (step a s) k = None"
    and entry_step:
      "inv s \<Longrightarrow> legal a \<Longrightarrow> entry (step a s) k = Some x \<Longrightarrow>
         entry s k = Some x \<or> issued a s = Some (k, x)"
begin

lemmas laws = inv_step redeem_entry redeem_spends entry_step

lemma inv_run: "inv s \<Longrightarrow> list_all legal as \<Longrightarrow> inv (run_ops step as s)"
  by (induction as arbitrary: s) (auto intro: inv_step)

text \<open>A secret is redeemed at most as often as it was issued, plus once if it was outstanding.\<close>

lemma redeemed_le_issued:
  "inv s \<Longrightarrow> list_all legal as \<Longrightarrow>
     count_obs step redeemed k as s \<le>
     count_obs step issued k as s + (if entry s k = None then 0 else 1)"
proof (induction as arbitrary: s)
  case (Cons a as)
  let ?s = "step a s"
  have IH: "count_obs step redeemed k as ?s \<le>
      count_obs step issued k as ?s + (if entry ?s k = None then 0 else 1)"
    using Cons inv_step by auto
  have spent: "entry s k \<noteq> None \<and> entry ?s k = None" if "redeemed a s = Some (k, v)" for v
    using that Cons.prems redeem_entry redeem_spends by fastforce
  have fresh: "issued a s = Some (k, x)" if "entry s k = None" "entry ?s k = Some x" for x
    using that Cons.prems entry_step [of s a k x] by auto
  show ?case
  proof (cases "\<exists>v. redeemed a s = Some (k, v)")
    case True
    then show ?thesis using IH spent by (auto split: option.splits prod.splits)
  next
    case False
    then have "(case redeemed a s of Some (k', x) \<Rightarrow> if k' = k then 1 else 0 | None \<Rightarrow> 0) = (0::nat)"
      by (auto split: option.splits)
    then show ?thesis using IH fresh by (auto split: option.splits if_splits)
  qed
qed simp

text \<open>Issued at most once and not outstanding before: redeemed at most once.\<close>

lemma redeemed_at_most_once:
  "inv s \<Longrightarrow> list_all legal as \<Longrightarrow> entry s k = None \<Longrightarrow> count_obs step issued k as s \<le> 1 \<Longrightarrow>
     count_obs step redeemed k as s \<le> 1"
  using redeemed_le_issued [of s as k] by simp

lemma never_issued_never_redeemed:
  "inv s \<Longrightarrow> list_all legal as \<Longrightarrow> entry s k = None \<Longrightarrow> count_obs step issued k as s = 0 \<Longrightarrow>
     count_obs step redeemed k as s = 0"
  using redeemed_le_issued [of s as k] by simp

text \<open>Every entry after a run was there before it, or was issued by one of its operations.\<close>

lemma entry_origin:
  "inv s \<Longrightarrow> list_all legal as \<Longrightarrow> entry (run_ops step as s) k = Some x \<Longrightarrow>
     entry s k = Some x \<or>
     (\<exists>before a after. as = before @ a # after \<and>
        issued a (run_ops step before s) = Some (k, x))"
proof (induction as arbitrary: s)
  case (Cons a as)
  then have "entry (step a s) k = Some x \<or>
      (\<exists>before b after. as = before @ b # after \<and>
         issued b (run_ops step before (step a s)) = Some (k, x))"
    using inv_step by auto
  then show ?case
  proof (elim disjE exE conjE)
    assume "entry (step a s) k = Some x"
    then have "entry s k = Some x \<or> issued a s = Some (k, x)"
      using Cons.prems entry_step by auto
    then show ?thesis
      by (metis append_Nil run_ops.simps(1))
  next
    fix before b after
    assume "as = before @ b # after" "issued b (run_ops step before (step a s)) = Some (k, x)"
    then show ?thesis
      by (metis append_Cons run_ops.simps(2))
  qed
qed simp

end

section \<open>Deadlines\<close>

text \<open>The clock of an operation; a redemption after the deadline is refused.\<close>

locale expiring_store = one_time_store inv legal step entry issued redeemed
  for inv :: "'s \<Rightarrow> bool" and legal :: "'op \<Rightarrow> bool" and step :: "'op \<Rightarrow> 's \<Rightarrow> 's"
    and entry :: "'s \<Rightarrow> 'k \<Rightarrow> ('v \<times> instant) option"
    and issued :: "'op \<Rightarrow> 's \<Rightarrow> ('k \<times> 'v \<times> instant) option"
    and redeemed :: "'op \<Rightarrow> 's \<Rightarrow> ('k \<times> 'v) option" +
  fixes clock :: "'op \<Rightarrow> instant"
  assumes redeem_in_time:
    "inv s \<Longrightarrow> legal a \<Longrightarrow> redeemed a s = Some (k, v) \<Longrightarrow> entry s k = Some (v, e) \<Longrightarrow> clock a \<le> e"
begin

text \<open>
  A redemption after a run from a store without that secret was prepared by an issue in the run
  that bound the same payload, with a deadline not yet passed.
\<close>

lemma redeemed_was_issued:
  assumes "inv s" "list_all legal as" "legal a" "entry s k = None"
    and "redeemed a (run_ops step as s) = Some (k, v)"
  shows "\<exists>before b after e. as = before @ b # after \<and>
    issued b (run_ops step before s) = Some (k, v, e) \<and> clock a \<le> e"
proof -
  let ?s = "run_ops step as s"
  have inv: "inv ?s" using assms inv_run by blast
  from redeem_entry [OF inv assms(3,5)] obtain e where e: "entry ?s k = Some (v, e)" ..
  moreover have "clock a \<le> e" using redeem_in_time [OF inv assms(3,5) e] .
  ultimately show ?thesis using entry_origin [OF assms(1,2) e] assms(4) by auto
qed

end

end
