(* ===== verification/Go_Strings.thy ===== *)
theory Go_Strings
  imports Rexec_Prelude
begin

text \<open>
  The functions of the Go packages \<^verbatim>\<open>strings\<close> and \<^verbatim>\<open>path/filepath\<close> the program calls, as
  executable definitions on byte strings: \<^verbatim>\<open>strings.Join\<close>, \<^verbatim>\<open>strings.Cut\<close> (with a one-byte
  separator), \<^verbatim>\<open>strings.TrimSpace\<close> (with Unicode white space in its UTF-8 form),
  \<^verbatim>\<open>filepath.Clean\<close>, \<^verbatim>\<open>filepath.Join\<close> and \<^verbatim>\<open>filepath.Dir\<close> (Unix rules: separator
  \<^verbatim>\<open>/\<close>, no volume names).
\<close>

section \<open>strings.Join and strings.Cut\<close>

fun strings_Join :: "string list \<Rightarrow> string \<Rightarrow> string" where
  "strings_Join [] sep = []"
| "strings_Join [x] sep = x"
| "strings_Join (x # y # zs) sep = x @ sep @ strings_Join (y # zs) sep"

definition strings_Cut :: "string \<Rightarrow> char \<Rightarrow> string \<times> string \<times> bool" where
  "strings_Cut s c =
     (if c \<in> set s then (takeWhile (\<lambda>x. x \<noteq> c) s, tl (dropWhile (\<lambda>x. x \<noteq> c) s), True)
      else (s, [], False))"

lemma strings_Join_Cons: "xs \<noteq> [] \<Longrightarrow> strings_Join (x # xs) sep = x @ sep @ strings_Join xs sep"
  by (cases xs) auto

lemma strings_Join_snoc: "xs \<noteq> [] \<Longrightarrow> strings_Join (xs @ [y]) sep = strings_Join xs sep @ sep @ y"
  by (induction xs sep rule: strings_Join.induct) auto

text \<open>\<open>Cut\<close> undoes the concatenation around the first separator.\<close>

lemma strings_Cut_append [simp]:
  "c \<notin> set k \<Longrightarrow> strings_Cut (k @ c # v) c = (k, v, True)"
  by (induction k) (auto simp: strings_Cut_def)

lemma strings_Cut_True:
  assumes "strings_Cut s c = (k, v, True)"
  shows "s = k @ c # v" and "c \<notin> set k"
proof -
  from assms have c: "c \<in> set s" and k: "k = takeWhile (\<lambda>x. x \<noteq> c) s"
    and v: "v = tl (dropWhile (\<lambda>x. x \<noteq> c) s)"
    by (auto simp: strings_Cut_def split: if_splits)
  from c have "dropWhile (\<lambda>x. x \<noteq> c) s \<noteq> []" by auto
  moreover from this have "hd (dropWhile (\<lambda>x. x \<noteq> c) s) = c"
    using hd_dropWhile by blast
  ultimately have "dropWhile (\<lambda>x. x \<noteq> c) s = c # v"
    using v by (metis list.collapse)
  then show "s = k @ c # v" using k by (metis takeWhile_dropWhile_id)
  show "c \<notin> set k" using k by (auto dest: set_takeWhileD)
qed

lemma strings_Cut_False: "strings_Cut s c = (k, v, False) \<longleftrightarrow> c \<notin> set s \<and> k = s \<and> v = []"
  by (auto simp: strings_Cut_def)

section \<open>strings.TrimSpace\<close>

text \<open>The UTF-8 encodings of the code points for which \<^verbatim>\<open>unicode.IsSpace\<close> holds.\<close>

definition space_runes :: "string list" where
  "space_runes =
     [[CHR 0x09], [CHR 0x0A], [CHR 0x0B], [CHR 0x0C], [CHR 0x0D], [CHR 0x20],
      [CHR 0xC2, CHR 0x85], [CHR 0xC2, CHR 0xA0], [CHR 0xE1, CHR 0x9A, CHR 0x80],
      [CHR 0xE2, CHR 0x80, CHR 0x80], [CHR 0xE2, CHR 0x80, CHR 0x81],
      [CHR 0xE2, CHR 0x80, CHR 0x82], [CHR 0xE2, CHR 0x80, CHR 0x83],
      [CHR 0xE2, CHR 0x80, CHR 0x84], [CHR 0xE2, CHR 0x80, CHR 0x85],
      [CHR 0xE2, CHR 0x80, CHR 0x86], [CHR 0xE2, CHR 0x80, CHR 0x87],
      [CHR 0xE2, CHR 0x80, CHR 0x88], [CHR 0xE2, CHR 0x80, CHR 0x89],
      [CHR 0xE2, CHR 0x80, CHR 0x8A], [CHR 0xE2, CHR 0x80, CHR 0xA8],
      [CHR 0xE2, CHR 0x80, CHR 0xA9], [CHR 0xE2, CHR 0x80, CHR 0xAF],
      [CHR 0xE2, CHR 0x81, CHR 0x9F], [CHR 0xE3, CHR 0x80, CHR 0x80]]"

lemma space_runes_nonempty: "w \<in> set space_runes \<Longrightarrow> w \<noteq> []"
  by (auto simp: space_runes_def)

function trim_left :: "string \<Rightarrow> string" where
  "trim_left s = (case find (\<lambda>w. prefix w s) space_runes of
      None \<Rightarrow> s
    | Some w \<Rightarrow> trim_left (drop (length w) s))"
  by pat_completeness auto
termination
proof (relation "measure length")
  fix s w assume "find (\<lambda>w. prefix w s) space_runes = Some w"
  then have "w \<in> set space_runes" "prefix w s"
    by (auto simp: find_Some_iff)
  then have "w \<noteq> []" "s \<noteq> []" using space_runes_nonempty by auto
  then show "(drop (length w) s, s) \<in> measure length" by simp
qed simp

function trim_right :: "string \<Rightarrow> string" where
  "trim_right s = (case find (\<lambda>w. suffix w s) space_runes of
      None \<Rightarrow> s
    | Some w \<Rightarrow> trim_right (take (length s - length w) s))"
  by pat_completeness auto
termination
proof (relation "measure length")
  fix s w assume "find (\<lambda>w. suffix w s) space_runes = Some w"
  then have "w \<in> set space_runes" "suffix w s"
    by (auto simp: find_Some_iff)
  then have "w \<noteq> []" "s \<noteq> []" using space_runes_nonempty by auto
  then show "(take (length s - length w) s, s) \<in> measure length" by simp
qed simp

declare trim_left.simps [simp del] trim_right.simps [simp del]

definition strings_TrimSpace :: "string \<Rightarrow> string" where
  "strings_TrimSpace s = trim_right (trim_left s)"

text \<open>A string that starts and ends with a printing ASCII character: nothing is trimmed.\<close>

definition printing :: "char \<Rightarrow> bool" where
  "printing c \<longleftrightarrow> byte_in 33 126 c"

definition solid :: "string \<Rightarrow> bool" where
  "solid s \<longleftrightarrow> s \<noteq> [] \<and> printing (hd s) \<and> printing (last s)"

lemma space_runes_ends:
  "w \<in> set space_runes \<Longrightarrow> \<not> printing (hd w) \<and> \<not> printing (last w)"
  by (auto simp: space_runes_def printing_def byte_in_def)

lemma trim_left_solid: "s \<noteq> [] \<Longrightarrow> printing (hd s) \<Longrightarrow> trim_left s = s"
proof -
  assume s: "s \<noteq> []" "printing (hd s)"
  have "find (\<lambda>w. prefix w s) space_runes = None"
    unfolding find_None_iff
    using s space_runes_ends space_runes_nonempty by (auto simp: prefix_def)
  then show ?thesis by (subst trim_left.simps) simp
qed

lemma trim_right_solid: "s \<noteq> [] \<Longrightarrow> printing (last s) \<Longrightarrow> trim_right s = s"
proof -
  assume s: "s \<noteq> []" "printing (last s)"
  have "find (\<lambda>w. suffix w s) space_runes = None"
    unfolding find_None_iff
    using s space_runes_ends space_runes_nonempty by (auto simp: suffix_def)
  then show ?thesis by (subst trim_right.simps) simp
qed

lemma trim_right_newline: "solid s \<Longrightarrow> trim_right (s @ [CHR 0x0A]) = s"
proof -
  assume s: "solid s"
  have "find (\<lambda>w. suffix w (s @ [CHR 0x0A])) space_runes = Some [CHR 0x0A]"
    by (simp add: space_runes_def suffix_def)
  then have "trim_right (s @ [CHR 0x0A]) = trim_right s"
    by (subst trim_right.simps) simp
  then show ?thesis using s by (simp add: trim_right_solid solid_def)
qed

lemma strings_TrimSpace_solid: "solid s \<Longrightarrow> strings_TrimSpace s = s"
  by (simp add: strings_TrimSpace_def solid_def trim_left_solid trim_right_solid)

lemma strings_TrimSpace_newline: "solid s \<Longrightarrow> strings_TrimSpace (s @ [CHR 0x0A]) = s"
  by (simp add: strings_TrimSpace_def trim_left_solid trim_right_newline)
     (simp add: solid_def trim_left_solid trim_right_newline)

section \<open>path/filepath\<close>

abbreviation sep :: char where
  "sep \<equiv> CHR ''/''"

fun split_slash :: "string \<Rightarrow> string list" where
  "split_slash [] = [[]]"
| "split_slash (c # s) =
     (if c = sep then [] # split_slash s
      else (c # hd (split_slash s)) # tl (split_slash s))"

text \<open>One path element of \<^verbatim>\<open>Clean\<close>: the accumulator is the cleaned prefix, innermost first.\<close>

fun clean_step :: "bool \<Rightarrow> string \<Rightarrow> string list \<Rightarrow> string list" where
  "clean_step rooted e acc =
     (if e = [] \<or> e = ''.'' then acc
      else if e = ''..'' then
        (case acc of
           [] \<Rightarrow> if rooted then [] else [''..'']
         | a # rest \<Rightarrow> if a = ''..'' then ''..'' # acc else rest)
      else e # acc)"

definition clean_elems :: "bool \<Rightarrow> string list \<Rightarrow> string list" where
  "clean_elems rooted es = rev (fold (clean_step rooted) es [])"

definition render_path :: "bool \<Rightarrow> string list \<Rightarrow> string" where
  "render_path rooted es =
     (if rooted then sep # strings_Join es ''/''
      else if es = [] then ''.'' else strings_Join es ''/'')"

definition rooted_path :: "string \<Rightarrow> bool" where
  "rooted_path p \<longleftrightarrow> p \<noteq> [] \<and> hd p = sep"

definition filepath_Clean :: "string \<Rightarrow> string" where
  "filepath_Clean p =
     (if p = [] then ''.''
      else render_path (rooted_path p) (clean_elems (rooted_path p) (split_slash p)))"

definition filepath_Join :: "string list \<Rightarrow> string" where
  "filepath_Join elems =
     (case dropWhile (\<lambda>e. e = []) elems of
        [] \<Rightarrow> []
      | e # rest \<Rightarrow> filepath_Clean (strings_Join (e # rest) ''/''))"

definition filepath_Dir :: "string \<Rightarrow> string" where
  "filepath_Dir p = filepath_Clean (rev (dropWhile (\<lambda>c. c \<noteq> sep) (rev p)))"

text \<open>A file name as the program writes them: one path element, neither dot nor dot-dot.\<close>

definition plain_name :: "string \<Rightarrow> bool" where
  "plain_name x \<longleftrightarrow> x \<noteq> [] \<and> x \<noteq> ''.'' \<and> x \<noteq> ''..'' \<and> sep \<notin> set x"

text \<open>
  Cleaned element lists: no empty or dot element, dot-dot only at the front of a relative path.
  The accumulator of the cleaning loop holds such a list reversed.
\<close>

definition clean_list :: "bool \<Rightarrow> string list \<Rightarrow> bool" where
  "clean_list rooted es \<longleftrightarrow>
     (\<exists>n names. es = replicate n ''..'' @ names \<and> (rooted \<longrightarrow> n = 0) \<and> list_all plain_name names)"

lemma split_slash_ne [simp]: "split_slash s \<noteq> []"
  by (cases s) auto

lemma split_slash_no_sep: "e \<in> set (split_slash s) \<Longrightarrow> sep \<notin> set e"
proof (induction s arbitrary: e)
  case Nil
  then show ?case by simp
next
  case (Cons c s)
  show ?case
  proof (cases "c = sep")
    case True
    with Cons show ?thesis by auto
  next
    case False
    then have "e = c # hd (split_slash s) \<or> e \<in> set (tl (split_slash s))"
      using Cons.prems by auto
    then show ?thesis
      using Cons.IH False hd_in_set [OF split_slash_ne] list.set_sel(2) [OF split_slash_ne]
      by auto
  qed
qed

lemma split_slash_single: "sep \<notin> set x \<Longrightarrow> split_slash x = [x]"
  by (induction x) auto

lemma split_slash_append: "sep \<notin> set x \<Longrightarrow> split_slash (x @ sep # s) = x # split_slash s"
  by (induction x) auto

lemma split_slash_app_sep: "split_slash (s @ sep # t) = split_slash s @ split_slash t"
  by (induction s) auto

lemma split_slash_Join:
  "es \<noteq> [] \<Longrightarrow> (\<And>e. e \<in> set es \<Longrightarrow> sep \<notin> set e) \<Longrightarrow> split_slash (strings_Join es ''/'') = es"
proof (induction es)
  case (Cons e es)
  then show ?case
    by (cases es) (auto simp: split_slash_single split_slash_append)
qed simp

subsection \<open>Cleaning\<close>

lemma clean_listI:
  "es = replicate n ''..'' @ names \<Longrightarrow> (r \<Longrightarrow> n = 0) \<Longrightarrow> list_all plain_name names \<Longrightarrow>
     clean_list r es"
  unfolding clean_list_def by blast

lemma clean_listE:
  assumes "clean_list r es"
  obtains n names where "es = replicate n ''..'' @ names" "r \<longrightarrow> n = 0" "list_all plain_name names"
  using assms unfolding clean_list_def by blast

lemma clean_list_Nil [simp]: "clean_list r []"
  by (rule clean_listI [of _ 0 "[]"]) auto

lemma clean_list_snoc_plain:
  assumes "clean_list r es" "plain_name x"
  shows "clean_list r (es @ [x])"
proof -
  from assms(1) obtain n names where "es = replicate n ''..'' @ names" "r \<longrightarrow> n = 0"
    "list_all plain_name names"
    by (rule clean_listE)
  with assms(2) show ?thesis by (intro clean_listI [of _ n "names @ [x]"]) auto
qed

lemma clean_list_snoc_dots:
  assumes "clean_list False es" and dots: "es = [] \<or> last es = ''..''"
  shows "clean_list False (es @ [''..''])"
proof -
  from assms(1) obtain n names where es: "es = replicate n ''..'' @ names"
    and names: "list_all plain_name names"
    by (rule clean_listE)
  with dots have "names = []"
    by (cases names rule: rev_cases) (auto simp: plain_name_def)
  with es show ?thesis
    by (intro clean_listI [of _ "Suc n" "[]"]) (auto simp: replicate_append_same)
qed

lemma clean_list_butlast:
  assumes "clean_list r (es @ [x])"
  shows "clean_list r es"
proof -
  from assms obtain n names where eq: "es @ [x] = replicate n ''..'' @ names"
    and r: "r \<longrightarrow> n = 0" and names: "list_all plain_name names"
    by (rule clean_listE)
  show ?thesis
  proof (cases names rule: rev_cases)
    case Nil
    with eq have "es = replicate (n - 1) ''..'' @ []"
      by (cases n) (auto simp: replicate_append_same [symmetric])
    with r show ?thesis by (intro clean_listI [of _ "n - 1" "[]"]) auto
  next
    case (snoc ns y)
    with eq names r show ?thesis by (intro clean_listI [of _ n ns]) auto
  qed
qed

lemma clean_list_rooted_last: "clean_list True (es @ [x]) \<Longrightarrow> x \<noteq> ''..''"
  by (auto simp: clean_list_def plain_name_def append_eq_append_conv2 Cons_eq_append_conv)

lemma clean_step_clean:
  assumes "clean_list r (rev acc)" "sep \<notin> set e"
  shows "clean_list r (rev (clean_step r e acc))"
proof (cases acc)
  case Nil
  with assms show ?thesis
    using clean_list_snoc_plain [of r "[]" e] clean_list_snoc_dots [of "[]"]
    by (auto simp: plain_name_def)
next
  case (Cons a rest)
  have "clean_list r (rev rest)"
    using assms(1) Cons clean_list_butlast [of r "rev rest" a] by simp
  moreover have "a = ''..'' \<Longrightarrow> \<not> r"
    using assms(1) Cons clean_list_rooted_last [of "rev rest" a] by auto
  moreover have "a = ''..'' \<Longrightarrow> \<not> r \<Longrightarrow> clean_list r (rev acc @ [''..''])"
    using assms(1) Cons clean_list_snoc_dots [of "rev acc"] by auto
  ultimately show ?thesis
    using assms Cons clean_list_snoc_plain [of r "rev acc" e] by (auto simp: plain_name_def)
qed

lemma clean_elems_clean:
  assumes "\<And>e. e \<in> set es \<Longrightarrow> sep \<notin> set e"
  shows "clean_list r (clean_elems r es)"
proof -
  have "clean_list r (rev acc) \<Longrightarrow> (\<And>e. e \<in> set es \<Longrightarrow> sep \<notin> set e) \<Longrightarrow>
      clean_list r (rev (fold (clean_step r) es acc))" for acc
    by (induction es arbitrary: acc) (auto simp del: clean_step.simps intro: clean_step_clean)
  with assms show ?thesis by (simp add: clean_elems_def)
qed

lemma fold_clean_plain:
  "list_all plain_name names \<Longrightarrow> fold (clean_step r) names acc = rev names @ acc"
  by (induction names arbitrary: acc) (auto simp: plain_name_def)

lemma fold_clean_dots:
  "fold (clean_step False) (replicate n ''..'') (replicate m ''..'') = replicate (n + m) ''..''"
proof (induction n arbitrary: m)
  case (Suc n)
  have "clean_step False ''..'' (replicate m ''..'') = replicate (Suc m) ''..''"
    by (cases m) auto
  then show ?case using Suc [of "Suc m"] by (simp del: clean_step.simps)
qed simp

lemma clean_elems_id: "clean_list r es \<Longrightarrow> clean_elems r es = es"
proof -
  assume "clean_list r es"
  then obtain n names where es: "es = replicate n ''..'' @ names" and r: "r \<longrightarrow> n = 0"
    and names: "list_all plain_name names"
    by (auto simp: clean_list_def)
  have "fold (clean_step r) (replicate n ''..'') [] = replicate n ''..''"
    using r fold_clean_dots [of n 0] by (cases r) auto
  with names show ?thesis
    by (simp add: es clean_elems_def fold_clean_plain del: clean_step.simps)
qed

lemma clean_elems_Nil [simp]: "clean_elems r [] = []"
  by (simp add: clean_elems_def)

lemma clean_elems_empty [simp]:
  "clean_elems r ([] # es) = clean_elems r es" "clean_elems r (es @ [[]]) = clean_elems r es"
  by (simp_all add: clean_elems_def)

lemma clean_elems_snoc_plain:
  "plain_name x \<Longrightarrow> clean_elems r (es @ [x]) = clean_elems r es @ [x]"
  by (simp add: clean_elems_def plain_name_def)

subsection \<open>Rendering and reading back\<close>

lemma clean_list_elem: "clean_list r es \<Longrightarrow> e \<in> set es \<Longrightarrow> e \<noteq> [] \<and> sep \<notin> set e"
proof (elim clean_listE)
  fix n names
  assume "e \<in> set es" "es = replicate n ''..'' @ names" "list_all plain_name names"
  then have "e = ''..'' \<or> plain_name e" by (auto simp: list_all_iff dest: in_set_replicate [THEN iffD1])
  then show "e \<noteq> [] \<and> sep \<notin> set e" by (auto simp: plain_name_def)
qed

lemma hd_strings_Join: "e \<noteq> [] \<Longrightarrow> hd (strings_Join (e # es) s) = hd e"
  by (cases es) auto

lemma strings_Join_ne: "e \<noteq> [] \<Longrightarrow> strings_Join (e # es) s \<noteq> []"
  by (cases es) auto

lemma rooted_render: "clean_list r es \<Longrightarrow> rooted_path (render_path r es @ t) = r \<or> es = []"
proof (cases es)
  case (Cons e es')
  assume "clean_list r es"
  then have "e \<noteq> []" "hd e \<noteq> sep"
    using clean_list_elem [of r es e] Cons by (auto dest: hd_in_set)
  with Cons show ?thesis
    by (auto simp: rooted_path_def render_path_def hd_append strings_Join_ne hd_strings_Join)
qed simp

lemma clean_rooted_prefix:
  assumes "clean_list True es"
  shows "filepath_Clean (sep # strings_Join es ''/'') = render_path True es"
    and "es \<noteq> [] \<Longrightarrow> filepath_Clean (sep # strings_Join es ''/'' @ ''/'') = render_path True es"
proof -
  have no_sep: "\<And>e. e \<in> set es \<Longrightarrow> sep \<notin> set e" using assms clean_list_elem by blast
  show "filepath_Clean (sep # strings_Join es ''/'') = render_path True es"
    by (cases "es = []")
       (auto simp: filepath_Clean_def rooted_path_def split_slash_Join [OF _ no_sep] clean_elems_id
          assms clean_elems_def [of _ "[[]]"])
  show "filepath_Clean (sep # strings_Join es ''/'' @ ''/'') = render_path True es" if "es \<noteq> []"
    using that split_slash_app_sep [of "strings_Join es ''/''" "[]"]
    by (auto simp: filepath_Clean_def rooted_path_def split_slash_Join [OF _ no_sep] clean_elems_id assms)
qed

lemma clean_relative_prefix:
  assumes "clean_list False es" "es \<noteq> []"
  shows "filepath_Clean (strings_Join es ''/'') = render_path False es"
    and "filepath_Clean (strings_Join es ''/'' @ ''/'') = render_path False es"
proof -
  have no_sep: "\<And>e. e \<in> set es \<Longrightarrow> sep \<notin> set e" using assms clean_list_elem by blast
  obtain e es' where es: "es = e # es'" using assms(2) by (cases es) auto
  then have e: "e \<noteq> []" "hd e \<noteq> sep"
    using clean_list_elem [OF assms(1), of e] by (auto dest: hd_in_set)
  have ne: "strings_Join es ''/'' \<noteq> []" using e es by (simp add: strings_Join_ne)
  have unrooted: "\<not> rooted_path (strings_Join es ''/'' @ t)" for t
    using e es by (simp add: rooted_path_def hd_append strings_Join_ne hd_strings_Join)
  show "filepath_Clean (strings_Join es ''/'') = render_path False es"
    using ne unrooted [of "[]"] assms
    by (simp add: filepath_Clean_def split_slash_Join [OF _ no_sep] clean_elems_id)
  show "filepath_Clean (strings_Join es ''/'' @ ''/'') = render_path False es"
    using ne unrooted assms split_slash_app_sep [of "strings_Join es ''/''" "[]"]
    by (simp add: filepath_Clean_def split_slash_Join [OF _ no_sep] clean_elems_id)
qed

lemma filepath_Clean_render: "clean_list r es \<Longrightarrow> filepath_Clean (render_path r es) = render_path r es"
proof (cases r)
  case False
  assume "clean_list r es"
  with False show ?thesis
    using clean_relative_prefix(1) [of es]
    by (cases "es = []") (auto simp: render_path_def, simp add: filepath_Clean_def rooted_path_def
        render_path_def clean_elems_def)
qed (auto simp: render_path_def [of True] clean_rooted_prefix)

text \<open>\<^verbatim>\<open>Clean\<close> is idempotent, as its documentation promises.\<close>

lemma filepath_Clean_clean: "\<exists>r es. clean_list r es \<and> filepath_Clean p = render_path r es"
proof (cases "p = []")
  case True
  then have "filepath_Clean p = render_path False []"
    by (simp add: filepath_Clean_def render_path_def)
  then show ?thesis using clean_list_Nil by blast
next
  case False
  then show ?thesis
    using clean_elems_clean [of "split_slash p" "rooted_path p"] split_slash_no_sep
    by (auto simp: filepath_Clean_def)
qed

lemma filepath_Clean_idem [simp]: "filepath_Clean (filepath_Clean p) = filepath_Clean p"
  using filepath_Clean_clean [of p] by (auto simp: filepath_Clean_render)

subsection \<open>A file in a directory\<close>

definition dir_elems :: "string \<Rightarrow> string list" where
  "dir_elems d = clean_elems (rooted_path d) (split_slash d)"

lemma dir_elems_clean: "clean_list (rooted_path d) (dir_elems d)"
  unfolding dir_elems_def using clean_elems_clean split_slash_no_sep by blast

lemma filepath_Clean_dir: "filepath_Clean d = render_path (rooted_path d) (dir_elems d)"
  by (auto simp: filepath_Clean_def dir_elems_def rooted_path_def render_path_def
      clean_elems_empty(1) [of _ "[]"])

lemma filepath_Join_file:
  assumes "plain_name x"
  shows "filepath_Join [d, x] = render_path (rooted_path d) (dir_elems d @ [x])"
proof (cases "d = []")
  case True
  with assms show ?thesis
    by (simp add: filepath_Join_def plain_name_def filepath_Clean_def rooted_path_def dir_elems_def
        render_path_def split_slash_single clean_elems_def)
       (metis hd_in_set list.set_sel(1))
next
  case False
  have x: "x \<noteq> []" using assms by (simp add: plain_name_def)
  have "split_slash (d @ sep # x) = split_slash d @ [x]"
    using assms by (simp add: split_slash_app_sep split_slash_single plain_name_def)
  with False x assms show ?thesis
    by (simp add: filepath_Join_def filepath_Clean_def rooted_path_def dir_elems_def
        clean_elems_snoc_plain)
qed

lemma render_path_inject:
  assumes "clean_list r (es @ [x])" "clean_list r (es @ [y])"
    and "render_path r (es @ [x]) = render_path r (es @ [y])"
  shows "x = y"
proof -
  have "strings_Join (es @ [x]) ''/'' = strings_Join (es @ [y]) ''/''"
    using assms(3) by (simp add: render_path_def split: if_splits)
  then have "split_slash (strings_Join (es @ [x]) ''/'') = split_slash (strings_Join (es @ [y]) ''/'')"
    by simp
  moreover have "split_slash (strings_Join (es @ [x]) ''/'') = es @ [x]"
    by (rule split_slash_Join) (use assms(1) clean_list_elem in blast)+
  moreover have "split_slash (strings_Join (es @ [y]) ''/'') = es @ [y]"
    by (rule split_slash_Join) (use assms(2) clean_list_elem in blast)+
  ultimately show ?thesis by simp
qed

lemma filepath_Join_inject:
  "plain_name x \<Longrightarrow> plain_name y \<Longrightarrow> filepath_Join [d, x] = filepath_Join [d, y] \<longleftrightarrow> x = y"
  using render_path_inject [of "rooted_path d" "dir_elems d" x y]
    clean_list_snoc_plain [OF dir_elems_clean]
  by (auto simp: filepath_Join_file)

lemma upto_last_sep:
  "sep \<notin> set x \<Longrightarrow> p = [] \<or> last p = sep \<Longrightarrow> rev (dropWhile (\<lambda>c. c \<noteq> sep) (rev (p @ x))) = p"
  by (cases p rule: rev_cases) (auto simp: dropWhile_append)

lemma filepath_Dir_append: "sep \<notin> set x \<Longrightarrow> filepath_Dir (p @ x) = filepath_Dir p"
  by (auto simp: filepath_Dir_def dropWhile_append)

lemma filepath_Dir_file: "plain_name x \<Longrightarrow> filepath_Dir (filepath_Join [d, x]) = filepath_Clean d"
proof -
  assume x: "plain_name x"
  let ?r = "rooted_path d" and ?es = "dir_elems d"
  have "filepath_Dir (render_path ?r (?es @ [x])) = render_path ?r ?es"
  proof (cases "?es = []")
    case True
    with x show ?thesis
      using upto_last_sep [of x "[]"] upto_last_sep [of x "[sep]"]
      by (auto simp: filepath_Dir_def render_path_def plain_name_def filepath_Clean_def
          rooted_path_def clean_elems_def)
  next
    case False
    define P where "P = (if ?r then [sep] else []) @ strings_Join ?es ''/'' @ ''/''"
    have "render_path ?r (?es @ [x]) = P @ x"
      using False by (simp add: P_def render_path_def strings_Join_snoc)
    moreover have "filepath_Clean P = render_path ?r ?es"
      using False dir_elems_clean [of d] clean_rooted_prefix(2) [of ?es] clean_relative_prefix(2) [of ?es]
      by (auto simp: P_def)
    ultimately show ?thesis
      using upto_last_sep [of x P] x by (simp add: filepath_Dir_def P_def plain_name_def)
  qed
  with x show ?thesis by (simp add: filepath_Join_file filepath_Clean_dir)
qed

end
