(* ===== verification/Go_OS.thy ===== *)
theory Go_OS
  imports Go_Strings
begin

text \<open>
  The file system as package \<^verbatim>\<open>os\<close> shows it to the program: regular files with their
  contents and permission bits, the set of existing directories, and the calls
  \<^verbatim>\<open>os.ReadFile\<close>, \<^verbatim>\<open>os.WriteFile\<close>, \<^verbatim>\<open>os.Rename\<close>, \<^verbatim>\<open>os.MkdirAll\<close>, \<^verbatim>\<open>os.Stat\<close>.
  Every call can fail: a fault plan, a parameter of each operation, says which calls fail and
  how much of a write or read had happened by then. Theorems quantify over all fault plans, so
  they cover every failure point, and a crash is a failure after which nothing more runs.
\<close>

section \<open>State and faults\<close>

record file_entry =
  f_data :: bytes
  f_mode :: nat

record os =
  os_files :: "string \<rightharpoonup> file_entry"
  os_dirs :: "string set"

text \<open>
  \<open>fp_open\<close>, \<open>fp_read\<close>: opening the file for reading fails, reading fails after some bytes.
  \<open>fp_write p = Some (None, e)\<close>: opening for writing fails; \<open>Some (Some n, e)\<close>: the file was
  truncated and \<open>n\<close> bytes were written before the error. \<open>fp_stat\<close> is an error other than
  "does not exist".
\<close>

record faults =
  fp_mkdir :: "string \<Rightarrow> string option"
  fp_open :: "string \<Rightarrow> string option"
  fp_read :: "string \<Rightarrow> (nat \<times> string) option"
  fp_write :: "string \<Rightarrow> (nat option \<times> string) option"
  fp_rename :: "string \<Rightarrow> string option"
  fp_stat :: "string \<Rightarrow> string option"
  fp_lock :: "string \<Rightarrow> string option"

definition no_faults :: faults where
  "no_faults = \<lparr>fp_mkdir = (\<lambda>_. None), fp_open = (\<lambda>_. None), fp_read = (\<lambda>_. None),
     fp_write = (\<lambda>_. None), fp_rename = (\<lambda>_. None), fp_stat = (\<lambda>_. None), fp_lock = (\<lambda>_. None)\<rparr>"

text \<open>\<^verbatim>\<open>errors.Is(err, os.ErrNotExist)\<close> tells \<open>NotExist\<close> from the other errors.\<close>

datatype os_error = NotExist | OsError string

definition is_ErrNotExist :: "os_error option \<Rightarrow> bool" where
  "is_ErrNotExist e \<longleftrightarrow> e = Some NotExist"

text \<open>Permission bits 0600 and 0700.\<close>

definition perm_0600 :: nat where
  "perm_0600 = 384"

definition perm_0700 :: nat where
  "perm_0700 = 448"

section \<open>Calls\<close>

definition dir_exists :: "os \<Rightarrow> string \<Rightarrow> bool" where
  "dir_exists s p \<longleftrightarrow> filepath_Dir p = ''.'' \<or> filepath_Dir p = ''/'' \<or> filepath_Dir p \<in> os_dirs s"

text \<open>
  \<^verbatim>\<open>ReadFile\<close> returns the bytes read so far together with an error: none when the open
  fails, a prefix of the file when a read fails.
\<close>

definition os_ReadFile :: "faults \<Rightarrow> string \<Rightarrow> os \<Rightarrow> bytes \<times> os_error option" where
  "os_ReadFile F p s =
     (case os_files s p of
        None \<Rightarrow> ([], Some (case fp_open F p of None \<Rightarrow> NotExist | Some e \<Rightarrow> OsError e))
      | Some f \<Rightarrow>
          (case fp_open F p of
             Some e \<Rightarrow> ([], Some (OsError e))
           | None \<Rightarrow>
               (case fp_read F p of
                  None \<Rightarrow> (f_data f, None)
                | Some (n, e) \<Rightarrow> (take n (f_data f), Some (OsError e)))))"

text \<open>An existing file keeps its permission bits; a new one gets the requested ones.\<close>

definition put_file :: "string \<Rightarrow> bytes \<Rightarrow> nat \<Rightarrow> os \<Rightarrow> os" where
  "put_file p d mode s =
     s\<lparr>os_files := (os_files s)(p \<mapsto>
        \<lparr>f_data = d, f_mode = (case os_files s p of None \<Rightarrow> mode | Some f \<Rightarrow> f_mode f)\<rparr>)\<rparr>"

definition os_WriteFile :: "faults \<Rightarrow> string \<Rightarrow> bytes \<Rightarrow> nat \<Rightarrow> os \<Rightarrow> os \<times> os_error option" where
  "os_WriteFile F p d mode s =
     (if \<not> dir_exists s p then (s, Some NotExist)
      else case fp_write F p of
        None \<Rightarrow> (put_file p d mode s, None)
      | Some (None, e) \<Rightarrow> (s, Some (OsError e))
      | Some (Some n, e) \<Rightarrow> (put_file p (take n d) mode s, Some (OsError e)))"

definition os_Rename :: "faults \<Rightarrow> string \<Rightarrow> string \<Rightarrow> os \<Rightarrow> os \<times> os_error option" where
  "os_Rename F old new s =
     (case os_files s old of
        None \<Rightarrow> (s, Some NotExist)
      | Some f \<Rightarrow>
          (case fp_rename F old of
             Some e \<Rightarrow> (s, Some (OsError e))
           | None \<Rightarrow> (s\<lparr>os_files := (os_files s)(old := None, new \<mapsto> f)\<rparr>, None)))"

text \<open>\<^verbatim>\<open>MkdirAll\<close> makes the directory and its missing parents.\<close>

definition path_parents :: "string \<Rightarrow> string set" where
  "path_parents c = set [take n c. n \<leftarrow> [0..<length c], c ! n = CHR ''/'']"

definition os_MkdirAll :: "faults \<Rightarrow> string \<Rightarrow> os \<Rightarrow> os \<times> os_error option" where
  "os_MkdirAll F d s =
     (case fp_mkdir F d of
        Some e \<Rightarrow> (s, Some (OsError e))
      | None \<Rightarrow> (s\<lparr>os_dirs := insert (filepath_Clean d) (path_parents (filepath_Clean d) \<union> os_dirs s)\<rparr>, None))"

definition os_Stat :: "faults \<Rightarrow> string \<Rightarrow> os \<Rightarrow> os_error option" where
  "os_Stat F p s =
     (case fp_stat F p of
        Some e \<Rightarrow> Some (OsError e)
      | None \<Rightarrow> (case os_files s p of None \<Rightarrow> Some NotExist | Some _ \<Rightarrow> None))"

definition file_data :: "os \<Rightarrow> string \<Rightarrow> bytes option" where
  "file_data s p = map_option f_data (os_files s p)"

section \<open>Laws\<close>

lemma no_faults_simps [simp]:
  "fp_mkdir no_faults p = None" "fp_open no_faults p = None" "fp_read no_faults p = None"
  "fp_write no_faults p = None" "fp_rename no_faults p = None" "fp_stat no_faults p = None"
  "fp_lock no_faults p = None"
  by (simp_all add: no_faults_def)

lemma file_data_put [simp]:
  "file_data (put_file p d m s) q = (if q = p then Some d else file_data s q)"
  by (simp add: file_data_def put_file_def)

lemma os_dirs_put [simp]: "os_dirs (put_file p d m s) = os_dirs s"
  by (simp add: put_file_def)

lemma dir_exists_put [simp]: "dir_exists (put_file p d m s) q = dir_exists s q"
  by (simp add: dir_exists_def)

lemma os_files_put_other [simp]: "q \<noteq> p \<Longrightarrow> os_files (put_file p d m s) q = os_files s q"
  by (simp add: put_file_def)

lemma os_ReadFile_ok:
  "os_ReadFile F p s = (d, None) \<longleftrightarrow>
     file_data s p = Some d \<and> fp_open F p = None \<and> fp_read F p = None"
  by (auto simp: os_ReadFile_def file_data_def split: option.splits prod.splits)

lemma os_ReadFile_prefix: "os_ReadFile F p s = (d, e) \<Longrightarrow> d \<noteq> [] \<Longrightarrow>
    \<exists>d'. file_data s p = Some d' \<and> prefix d d' \<and> (e = None \<longrightarrow> d = d')"
  by (auto simp: os_ReadFile_def file_data_def take_is_prefix split: option.splits prod.splits)

lemma os_ReadFile_no_faults [simp]:
  "os_ReadFile no_faults p s =
     (case file_data s p of None \<Rightarrow> ([], Some NotExist) | Some d \<Rightarrow> (d, None))"
  by (auto simp: os_ReadFile_def file_data_def split: option.splits)

text \<open>A write touches one file; if it fails, that file keeps its content or holds a prefix.\<close>

lemma os_WriteFile_other:
  "os_WriteFile F p d m s = (s', e) \<Longrightarrow> q \<noteq> p \<Longrightarrow> os_files s' q = os_files s q"
  by (auto simp: os_WriteFile_def split: if_splits option.splits prod.splits)

lemma os_WriteFile_dirs: "os_WriteFile F p d m s = (s', e) \<Longrightarrow> os_dirs s' = os_dirs s"
  by (auto simp: os_WriteFile_def split: if_splits option.splits prod.splits)

lemma os_WriteFile_ok:
  "os_WriteFile F p d m s = (s', None) \<longleftrightarrow>
     dir_exists s p \<and> fp_write F p = None \<and> s' = put_file p d m s"
  by (auto simp: os_WriteFile_def split: if_splits option.splits prod.splits)

lemma os_WriteFile_fail:
  "os_WriteFile F p d m s = (s', Some e) \<Longrightarrow>
     s' = s \<or> (\<exists>n. s' = put_file p (take n d) m s)"
  by (auto simp: os_WriteFile_def split: if_splits option.splits prod.splits)

lemma os_Rename_fail: "os_Rename F p q s = (s', Some e) \<Longrightarrow> s' = s"
  by (auto simp: os_Rename_def split: option.splits)

lemma os_Rename_ok:
  "os_Rename F p q s = (s', None) \<Longrightarrow> p \<noteq> q \<Longrightarrow>
     os_files s p \<noteq> None \<and> os_files s' q = os_files s p \<and> os_files s' p = None \<and>
     (\<forall>r. r \<noteq> p \<longrightarrow> r \<noteq> q \<longrightarrow> os_files s' r = os_files s r) \<and> os_dirs s' = os_dirs s"
  by (auto simp: os_Rename_def split: option.splits)

lemma os_MkdirAll_files: "os_MkdirAll F d s = (s', e) \<Longrightarrow> os_files s' = os_files s"
  by (auto simp: os_MkdirAll_def split: option.splits)

lemma os_MkdirAll_dirs: "os_MkdirAll F d s = (s', e) \<Longrightarrow> os_dirs s \<subseteq> os_dirs s'"
  by (auto simp: os_MkdirAll_def split: option.splits)

lemma os_MkdirAll_ok:
  "os_MkdirAll F (filepath_Dir p) s = (s', None) \<Longrightarrow> dir_exists s' p"
  by (auto simp: os_MkdirAll_def dir_exists_def filepath_Dir_def split: option.splits)

lemma os_Stat_None: "os_Stat F p s = None \<Longrightarrow> file_data s p \<noteq> None"
  by (auto simp: os_Stat_def file_data_def split: option.splits)

lemmas os_frame = os_WriteFile_other os_WriteFile_dirs os_MkdirAll_files os_MkdirAll_dirs

end
