(* ===== verification/Go_Encoding.thy ===== *)
theory Go_Encoding
  imports Rexec_Prelude
begin

text \<open>
  The encoders of the Go standard library the program uses: \<^verbatim>\<open>base64.RawURLEncoding\<close> (join
  tokens and approval ids), \<^verbatim>\<open>hex.EncodeToString\<close> (certificate fingerprints), and the entropy
  source \<^verbatim>\<open>crypto/rand\<close>, whose answer is a parameter of the call. The decoders exist for the
  round-trip laws: both encodings are injective, so distinct random values give distinct tokens
  and distinct digests give distinct fingerprints.
\<close>

section \<open>Characters as numbers\<close>

abbreviation ord :: "char \<Rightarrow> nat" where
  "ord c \<equiv> of_char c"

lemma ord_less [simp]: "ord c < 256"
  by simp

lemma length_takeWhile_nth:
  "distinct xs \<Longrightarrow> i < length xs \<Longrightarrow> length (takeWhile (\<lambda>x. x \<noteq> xs ! i) xs) = i"
proof (induction xs arbitrary: i)
  case (Cons x xs)
  then show ?case by (cases i) auto
qed simp

section \<open>base64.RawURLEncoding\<close>

definition b64_alphabet :: string where
  "b64_alphabet = ''ABCDEFGHIJKLMNOPQRSTUVWXYZabcdefghijklmnopqrstuvwxyz0123456789-_''"

definition b64_char :: "nat \<Rightarrow> char" where
  "b64_char i = b64_alphabet ! (i mod 64)"

fun base64_RawURL_EncodeToString :: "bytes \<Rightarrow> string" where
  "base64_RawURL_EncodeToString [] = []"
| "base64_RawURL_EncodeToString [a] =
     [b64_char (ord a div 4), b64_char (ord a * 16)]"
| "base64_RawURL_EncodeToString [a, b] =
     [b64_char (ord a div 4), b64_char (ord a * 16 + ord b div 16), b64_char (ord b * 4)]"
| "base64_RawURL_EncodeToString (a # b # c # rest) =
     b64_char (ord a div 4) # b64_char (ord a * 16 + ord b div 16) #
     b64_char (ord b * 4 + ord c div 64) # b64_char (ord c) #
     base64_RawURL_EncodeToString rest"

definition b64_value :: "char \<Rightarrow> nat" where
  "b64_value c = length (takeWhile (\<lambda>x. x \<noteq> c) b64_alphabet)"

fun base64_decode :: "string \<Rightarrow> bytes" where
  "base64_decode (p # q # r # s # rest) =
     char_of (b64_value p * 4 + b64_value q div 16) #
     char_of (b64_value q mod 16 * 16 + b64_value r div 4) #
     char_of (b64_value r mod 4 * 64 + b64_value s) # base64_decode rest"
| "base64_decode [p, q, r] =
     [char_of (b64_value p * 4 + b64_value q div 16),
      char_of (b64_value q mod 16 * 16 + b64_value r div 4)]"
| "base64_decode [p, q] = [char_of (b64_value p * 4 + b64_value q div 16)]"
| "base64_decode _ = []"

lemma b64_value_char [simp]: "b64_value (b64_char i) = i mod 64"
  unfolding b64_value_def b64_char_def
  by (rule length_takeWhile_nth) (simp_all add: b64_alphabet_def)

lemma b64_char_in: "b64_char i \<in> set b64_alphabet"
  unfolding b64_char_def by (rule nth_mem) (simp add: b64_alphabet_def)

text \<open>The two middle characters of a group carry bits of two bytes each.\<close>

lemma split_bits:
  "d < k \<Longrightarrow> (n * k + d) mod (k * j) = n mod j * k + d" for n k j d :: nat
  by (simp add: mod_mult2_eq)

lemma b64_sextets:
  "ord b div 16 < 16" "ord c div 64 < 4"
  "ord a div 4 mod 64 = ord a div 4"
  "(ord a * 16 + ord b div 16) mod 64 = ord a mod 4 * 16 + ord b div 16"
  "(ord b * 4 + ord c div 64) mod 64 = ord b mod 16 * 4 + ord c div 64"
  "ord a * 16 mod 64 = ord a mod 4 * 16"
  "ord b * 4 mod 64 = ord b mod 16 * 4"
proof -
  show b: "ord b div 16 < 16" and c: "ord c div 64 < 4" and "ord a div 4 mod 64 = ord a div 4"
    using ord_less [of a] ord_less [of b] ord_less [of c] by (auto simp: less_mult_imp_div_less)
  show "(ord a * 16 + ord b div 16) mod 64 = ord a mod 4 * 16 + ord b div 16"
    using split_bits [OF b, of "ord a" 4] by simp
  show "(ord b * 4 + ord c div 64) mod 64 = ord b mod 16 * 4 + ord c div 64"
    using split_bits [OF c, of "ord b" 16] by simp
  show "ord a * 16 mod 64 = ord a mod 4 * 16"
    using split_bits [of 0 16 "ord a" 4] by simp
  show "ord b * 4 mod 64 = ord b mod 16 * 4"
    using split_bits [of 0 4 "ord b" 16] by simp
qed

lemma base64_roundtrip: "base64_decode (base64_RawURL_EncodeToString bs) = bs"
proof (induction bs rule: base64_RawURL_EncodeToString.induct)
  case (4 a b c rest)
  then show ?case
    by (simp add: b64_sextets)
qed (simp_all add: b64_sextets)

lemma base64_inject:
  "base64_RawURL_EncodeToString x = base64_RawURL_EncodeToString y \<longleftrightarrow> x = y"
  by (metis base64_roundtrip)

lemma base64_alphabet: "set (base64_RawURL_EncodeToString bs) \<subseteq> set b64_alphabet"
  by (induction bs rule: base64_RawURL_EncodeToString.induct) (auto simp: b64_char_in)

lemma b64_alphabet_ascii: "c \<in> set b64_alphabet \<Longrightarrow> ord c < 128"
  by (auto simp: b64_alphabet_def)

lemma base64_ascii: "is_ascii (base64_RawURL_EncodeToString bs)"
  using base64_alphabet [of bs] b64_alphabet_ascii by (auto simp: is_ascii_def list_all_iff)

lemma length_base64: "length (base64_RawURL_EncodeToString bs) = (4 * length bs + 2) div 3"
  by (induction bs rule: base64_RawURL_EncodeToString.induct) auto

section \<open>hex.EncodeToString\<close>

definition hex_digits :: string where
  "hex_digits = ''0123456789abcdef''"

fun hex_EncodeToString :: "bytes \<Rightarrow> string" where
  "hex_EncodeToString [] = []"
| "hex_EncodeToString (c # cs) =
     hex_digits ! (ord c div 16) # hex_digits ! (ord c mod 16) # hex_EncodeToString cs"

lemma hex_digit_inject: "i < 16 \<Longrightarrow> j < 16 \<Longrightarrow> hex_digits ! i = hex_digits ! j \<longleftrightarrow> i = j"
  by (rule nth_eq_iff_index_eq) (simp_all add: hex_digits_def)

lemma hex_digit_in: "i < 16 \<Longrightarrow> hex_digits ! i \<in> set hex_digits"
  by (rule nth_mem) (simp add: hex_digits_def)

lemma length_hex [simp]: "length (hex_EncodeToString bs) = 2 * length bs"
  by (induction bs) auto

lemma set_hex: "set (hex_EncodeToString bs) \<subseteq> set hex_digits"
proof (induction bs)
  case (Cons c cs)
  have "ord c div 16 < 16" using ord_less [of c] by linarith
  with Cons show ?case by (auto intro: hex_digit_in)
qed simp

lemma hex_inject: "hex_EncodeToString x = hex_EncodeToString y \<longleftrightarrow> x = y"
proof (induction x arbitrary: y)
  case Nil
  then show ?case by (cases y) auto
next
  case (Cons c cs)
  show ?case
  proof (cases y)
    case (Cons d ds)
    have b: "ord c div 16 < 16" "ord d div 16 < 16"
      using ord_less [of c] ord_less [of d] by linarith+
    have "ord c div 16 = ord d div 16 \<and> ord c mod 16 = ord d mod 16 \<longleftrightarrow> ord c = ord d"
      by (metis div_mult_mod_eq)
    with Cons Cons.IH b show ?thesis by (auto simp: hex_digit_inject)
  qed simp
qed

section \<open>crypto/rand\<close>

text \<open>
  \<^verbatim>\<open>rand.Read(b)\<close> fills the whole buffer or fails. The entropy source is a parameter: an
  error, or a supply of bytes of which the call takes as many as the buffer holds.
\<close>

type_synonym entropy = "string + (nat \<Rightarrow> char)"

definition rand_Read :: "nat \<Rightarrow> entropy \<Rightarrow> string + bytes" where
  "rand_Read n rnd = (case rnd of Inl e \<Rightarrow> Inl e | Inr f \<Rightarrow> Inr (map f [0..<n]))"

lemma length_rand_Read: "rand_Read n rnd = Inr bs \<Longrightarrow> length bs = n"
  by (auto simp: rand_Read_def split: sum.splits)

end
