(* ===== verification/Coders.thy ===== *)
theory Coders
  imports Go_Encoding
begin

text \<open>
  Self-delimiting encodings of numbers, strings, pairs and lists as byte strings, with a decoder
  each that returns the value and the rest of the input. The concrete instances of the
  development's parameters (a codec for the token file, a set of certificate algorithms) are
  built from them, to show that the laws assumed of those parameters can hold together.
\<close>

type_synonym 'a coder = "('a \<Rightarrow> string) \<times> (string \<Rightarrow> ('a \<times> string) option)"

definition good_coder :: "'a coder \<Rightarrow> bool" where
  "good_coder c \<longleftrightarrow> (\<forall>x r. snd c (fst c x @ r) = Some (x, r))"

lemma good_coderD: "good_coder c \<Longrightarrow> snd c (fst c x @ r) = Some (x, r)"
  by (simp add: good_coder_def)

lemma good_coder_whole: "good_coder c \<Longrightarrow> snd c (fst c x) = Some (x, [])"
  using good_coderD [of c x "[]"] by simp

section \<open>Numbers in binary, closed by a semicolon\<close>

fun put_nat :: "nat \<Rightarrow> string" where
  "put_nat n = (if n = 0 then '';''
     else (if n mod 2 = 1 then CHR ''1'' else CHR ''0'') # put_nat (n div 2))"

fun get_nat :: "string \<Rightarrow> (nat \<times> string) option" where
  "get_nat [] = None"
| "get_nat (c # s) =
     (if c = CHR '';'' then Some (0, s)
      else case get_nat s of None \<Rightarrow> None
        | Some (n, r) \<Rightarrow> Some (2 * n + (if c = CHR ''1'' then 1 else 0), r))"

declare put_nat.simps [simp del]

definition nat_coder :: "nat coder" where
  "nat_coder = (put_nat, get_nat)"

lemma good_nat_coder [simp]: "good_coder nat_coder"
proof -
  have "get_nat (put_nat n @ r) = Some (n, r)" for n r
  proof (induction n rule: less_induct)
    case (less n)
    show ?case
    proof (cases "n = 0")
      case False
      then have "get_nat (put_nat (n div 2) @ r) = Some (n div 2, r)" using less by simp
      moreover have "2 * (n div 2) + (if n mod 2 = 1 then 1 else 0) = n" by (auto; presburger)
      ultimately show ?thesis using False by (subst put_nat.simps) auto
    qed (simp add: put_nat.simps)
  qed
  then show ?thesis by (simp add: nat_coder_def good_coder_def)
qed

section \<open>Combinators\<close>

text \<open>A coder for another type, through a pair of conversions.\<close>

definition via :: "('b \<Rightarrow> 'a) \<Rightarrow> ('a \<Rightarrow> 'b) \<Rightarrow> 'a coder \<Rightarrow> 'b coder" where
  "via f g c = (\<lambda>y. fst c (f y), \<lambda>s. case snd c s of None \<Rightarrow> None | Some (x, r) \<Rightarrow> Some (g x, r))"

lemma good_via: "good_coder c \<Longrightarrow> (\<And>y. g (f y) = y) \<Longrightarrow> good_coder (via f g c)"
  by (simp add: good_coder_def via_def)

definition pair_coder :: "'a coder \<Rightarrow> 'b coder \<Rightarrow> ('a \<times> 'b) coder" where
  "pair_coder a b =
     (\<lambda>(x, y). fst a x @ fst b y,
      \<lambda>s. case snd a s of None \<Rightarrow> None
        | Some (x, r) \<Rightarrow> (case snd b r of None \<Rightarrow> None | Some (y, r') \<Rightarrow> Some ((x, y), r')))"

lemma good_pair_coder [simp]: "good_coder a \<Longrightarrow> good_coder b \<Longrightarrow> good_coder (pair_coder a b)"
  by (simp add: good_coder_def pair_coder_def)

definition string_coder :: "string coder" where
  "string_coder =
     (\<lambda>s. put_nat (length s) @ s,
      \<lambda>s. case get_nat s of None \<Rightarrow> None
        | Some (n, r) \<Rightarrow> if n \<le> length r then Some (take n r, drop n r) else None)"

lemma good_string_coder [simp]: "good_coder string_coder"
  using good_coderD [OF good_nat_coder]
  by (simp add: good_coder_def string_coder_def nat_coder_def)

fun get_many :: "'a coder \<Rightarrow> nat \<Rightarrow> string \<Rightarrow> ('a list \<times> string) option" where
  "get_many c 0 s = Some ([], s)"
| "get_many c (Suc n) s = (case snd c s of None \<Rightarrow> None
     | Some (x, r) \<Rightarrow> (case get_many c n r of None \<Rightarrow> None | Some (xs, r') \<Rightarrow> Some (x # xs, r')))"

definition list_coder :: "'a coder \<Rightarrow> 'a list coder" where
  "list_coder c =
     (\<lambda>xs. put_nat (length xs) @ concat (map (fst c) xs),
      \<lambda>s. case get_nat s of None \<Rightarrow> None | Some (n, r) \<Rightarrow> get_many c n r)"

lemma get_many_concat:
  "good_coder c \<Longrightarrow> get_many c (length xs) (concat (map (fst c) xs) @ r) = Some (xs, r)"
  by (induction xs) (simp_all add: good_coder_def)

lemma good_list_coder [simp]: "good_coder c \<Longrightarrow> good_coder (list_coder c)"
proof -
  assume c: "good_coder c"
  then show ?thesis
    using good_coderD [OF good_nat_coder] get_many_concat [OF c]
    unfolding good_coder_def by (simp add: list_coder_def nat_coder_def)
qed

definition int_coder :: "int coder" where
  "int_coder = via (\<lambda>i. (if i < 0 then 1 else 0, nat (abs i)))
     (\<lambda>(s, n). if s = (0::nat) then int n else - int n) (pair_coder nat_coder nat_coder)"

lemma good_int_coder [simp]: "good_coder int_coder"
  unfolding int_coder_def by (rule good_via) auto

definition bool_coder :: "bool coder" where
  "bool_coder = via (\<lambda>b. if b then 1 else 0) (\<lambda>n. n \<noteq> (0::nat)) nat_coder"

lemma good_bool_coder [simp]: "good_coder bool_coder"
  unfolding bool_coder_def by (rule good_via) auto

text \<open>Every coder that starts with a number writes something.\<close>

lemma put_nat_ne [simp]: "put_nat n \<noteq> []"
  by (subst put_nat.simps) simp

lemma list_coder_ne [simp]: "fst (list_coder c) xs \<noteq> []"
  by (simp add: list_coder_def)

lemma string_coder_ne [simp]: "fst string_coder s \<noteq> []"
  by (simp add: string_coder_def)

end
