(* ===== verification/Json_Codec.thy ===== *)
theory Json_Codec
  imports Coders "HOL-Library.List_Lexorder" "HOL-Library.Char_ord"
begin

text \<open>
  The content of the token file: the type \<^verbatim>\<open>map[string]record\<close> of \<^verbatim>\<open>internal/token/token.go\<close>
  and its encoding by \<^verbatim>\<open>encoding/json\<close>, a parameter whose documented behaviour \<open>json_laws\<close>
  states; the theory ends with a concrete codec that has these laws.
\<close>

section \<open>The token map\<close>

record token_record =
  Role :: string
  Expiry :: instant

type_synonym token_map = "string \<rightharpoonup> token_record"

section \<open>The codec\<close>

record json_codec =
  json_Marshal :: "token_map \<Rightarrow> string + bytes"
  json_Unmarshal :: "bytes \<Rightarrow> string + token_map"

text \<open>The strings JSON carries unchanged, and the instants it can carry (years 1 to 9999).\<close>

definition json_text :: "token_map \<Rightarrow> bool" where
  "json_text m \<longleftrightarrow> (\<forall>k r. m k = Some r \<longrightarrow> utf8_valid k \<and> utf8_valid (Role r))"

definition json_instant :: "instant \<Rightarrow> bool" where
  "json_instant t \<longleftrightarrow> - 62135596800 * time_Second \<le> t \<and> t < 253402214400 * time_Second"

definition json_times :: "token_map \<Rightarrow> bool" where
  "json_times m \<longleftrightarrow> (\<forall>k r. m k = Some r \<longrightarrow> json_instant (Expiry r))"

text \<open>
  A map of valid strings that was encoded decodes to itself, from a non-empty text; a decoded
  map is finite and holds valid strings; encoding succeeds on the instants JSON can carry.
\<close>

definition json_laws :: "json_codec \<Rightarrow> bool" where
  "json_laws J \<longleftrightarrow>
     (\<forall>m d. finite (dom m) \<and> json_text m \<and> json_Marshal J m = Inr d \<longrightarrow>
        d \<noteq> [] \<and> json_Unmarshal J d = Inr m) \<and>
     (\<forall>m d. json_Unmarshal J d = Inr m \<longrightarrow> finite (dom m) \<and> json_text m) \<and>
     (\<forall>m. finite (dom m) \<and> json_text m \<and> json_times m \<longrightarrow> (\<exists>d. json_Marshal J m = Inr d))"

lemma json_lawsD:
  assumes "json_laws J"
  shows "finite (dom m) \<Longrightarrow> json_text m \<Longrightarrow> json_Marshal J m = Inr d \<Longrightarrow>
      d \<noteq> [] \<and> json_Unmarshal J d = Inr m"
    and "json_Unmarshal J d = Inr m \<Longrightarrow> finite (dom m) \<and> json_text m"
    and "finite (dom m) \<Longrightarrow> json_text m \<Longrightarrow> json_times m \<Longrightarrow> \<exists>d. json_Marshal J m = Inr d"
  using assms unfolding json_laws_def by blast+

section \<open>A codec with these laws\<close>

definition map_triples :: "token_map \<Rightarrow> (string \<times> string \<times> int) list" where
  "map_triples m = map (\<lambda>k. (k, Role (the (m k)), Expiry (the (m k)))) (sorted_list_of_set (dom m))"

definition triples_map :: "(string \<times> string \<times> int) list \<Rightarrow> token_map" where
  "triples_map xs = map_of (map (\<lambda>(k, r, e). (k, \<lparr>Role = r, Expiry = e\<rparr>)) xs)"

abbreviation triples_coder :: "(string \<times> string \<times> int) list coder" where
  "triples_coder \<equiv> list_coder (pair_coder string_coder (pair_coder string_coder int_coder))"

definition valid_triples :: "(string \<times> string \<times> int) list \<Rightarrow> bool" where
  "valid_triples = list_all (\<lambda>(k, role, e). utf8_valid k \<and> utf8_valid role)"

definition plain_json :: json_codec where
  "plain_json = \<lparr>
     json_Marshal = (\<lambda>m. if json_times m then Inr (fst triples_coder (map_triples m))
       else Inl ''Time.MarshalJSON: year outside of range [0,9999]''),
     json_Unmarshal = (\<lambda>d. case snd triples_coder d of
         None \<Rightarrow> Inl ''unexpected end of JSON input''
       | Some (xs, r) \<Rightarrow>
           if valid_triples xs then Inr (triples_map xs)
           else Inl ''invalid character'')\<rparr>"

lemma record_again: "\<lparr>Role = Role r, Expiry = Expiry r\<rparr> = (r :: token_record)"
  by simp

lemma triples_roundtrip: "finite (dom m) \<Longrightarrow> triples_map (map_triples m) = m"
proof -
  assume "finite (dom m)"
  then have "map_of (map (\<lambda>k. (k, the (m k))) (sorted_list_of_set (dom m))) = m"
    by (intro map_of_map_keys) simp
  then show ?thesis by (simp add: triples_map_def map_triples_def comp_def record_again)
qed

lemma triples_text: "valid_triples xs \<Longrightarrow> json_text (triples_map xs)"
  by (fastforce simp: json_text_def triples_map_def valid_triples_def list_all_iff dest!: map_of_SomeD)

lemma map_triples_text: "finite (dom m) \<Longrightarrow> json_text m \<Longrightarrow>
    valid_triples (map_triples m)"
  by (force simp: json_text_def map_triples_def valid_triples_def list_all_iff)

lemma plain_json_laws: "json_laws plain_json"
  unfolding json_laws_def
proof (intro conjI allI impI)
  fix m d assume m: "finite (dom m) \<and> json_text m \<and> json_Marshal plain_json m = Inr d"
  then have d: "d = fst triples_coder (map_triples m)"
    by (simp add: plain_json_def split: if_splits)
  then show "d \<noteq> []" by simp
  show "json_Unmarshal plain_json d = Inr m"
    using m good_coder_whole [of triples_coder "map_triples m"]
    by (simp add: plain_json_def d map_triples_text triples_roundtrip)
next
  fix m d assume "json_Unmarshal plain_json d = Inr m"
  then obtain xs where "m = triples_map xs"
    "valid_triples xs"
    by (auto simp: plain_json_def split: option.splits if_splits)
  then show "finite (dom m)" "json_text m"
    by (auto simp: triples_text) (simp add: triples_map_def finite_dom_map_of)
qed (simp add: plain_json_def)

end
