(* ===== verification/Token_Store.thy ===== *)
theory Token_Store
  imports One_Time Go_OS Json_Codec
begin

text \<open>
  \<^verbatim>\<open>internal/token/token.go\<close>: the join tokens, kept in a JSON file that the daemon and the
  \<^verbatim>\<open>token new\<close> command share. The JSON codec for the token map is a parameter; \<open>json_laws\<close>
  states the documented behaviour of \<^verbatim>\<open>encoding/json\<close> the store relies on. An operation runs
  here on its own, from taking to releasing the lock file; theory \<^verbatim>\<open>Token_Lock\<close> models the
  interleavings.
\<close>

section \<open>Errors\<close>

datatype token_error =
    ErrUnknownToken | ErrExpired
  | TokenMkdir os_error | TokenLock string | TokenRead os_error | TokenDecode string
  | TokenEncode string | TokenWriteTmp os_error | TokenRename os_error | TokenRand string
  | TokenJoined "token_error list"

section \<open>The file store\<close>

record FileStore =
  fs_path :: string

definition NewFileStore :: "string \<Rightarrow> FileStore" where
  "NewFileStore path = \<lparr>fs_path = path\<rparr>"

definition fs_lock_path :: "FileStore \<Rightarrow> string" where
  "fs_lock_path st = fs_path st @ ''.lock''"

definition fs_tmp_path :: "FileStore \<Rightarrow> string" where
  "fs_tmp_path st = fs_path st @ ''.tmp''"

definition token_randToken :: "entropy \<Rightarrow> token_error + string" where
  "token_randToken rnd = (case rand_Read 24 rnd of
      Inl e \<Rightarrow> Inl (TokenRand e)
    | Inr b \<Rightarrow> Inr (base64_RawURL_EncodeToString b))"

definition FileStore_read :: "faults \<Rightarrow> json_codec \<Rightarrow> FileStore \<Rightarrow> os \<Rightarrow> token_error + token_map" where
  "FileStore_read F J st s =
     (case os_ReadFile F (fs_path st) s of (data, err) \<Rightarrow>
        if is_ErrNotExist err \<or> length data = 0 then Inr Map.empty
        else case err of
          Some e \<Rightarrow> Inl (TokenRead e)
        | None \<Rightarrow> (case json_Unmarshal J data of Inl e \<Rightarrow> Inl (TokenDecode e) | Inr m \<Rightarrow> Inr m))"

definition FileStore_write ::
  "faults \<Rightarrow> json_codec \<Rightarrow> FileStore \<Rightarrow> token_map \<Rightarrow> os \<Rightarrow> os \<times> token_error option" where
  "FileStore_write F J st m s =
     (case json_Marshal J m of
        Inl e \<Rightarrow> (s, Some (TokenEncode e))
      | Inr data \<Rightarrow>
          (case os_WriteFile F (fs_tmp_path st) data perm_0600 s of
             (s1, Some e) \<Rightarrow> (s1, Some (TokenWriteTmp e))
           | (s1, None) \<Rightarrow>
               (case os_Rename F (fs_tmp_path st) (fs_path st) s1 of
                  (s2, Some e) \<Rightarrow> (s2, Some (TokenRename e))
                | (s2, None) \<Rightarrow> (s2, None))))"

fun fn_error :: "token_error + 'r \<Rightarrow> token_error option" where
  "fn_error (Inl e) = Some e"
| "fn_error (Inr r) = None"

text \<open>
  \<^verbatim>\<open>mutate\<close> with its callback: the callback updates the map in place and returns an error, and
  may set a variable of the caller; here it returns the new map and the error or that value.
\<close>

definition FileStore_mutate ::
  "faults \<Rightarrow> json_codec \<Rightarrow> FileStore \<Rightarrow> (token_map \<Rightarrow> token_map \<times> (token_error + 'r)) \<Rightarrow>
   os \<Rightarrow> os \<times> (token_error + 'r)" where
  "FileStore_mutate F J st fn s =
     (case os_MkdirAll F (filepath_Dir (fs_path st)) s of
        (s1, Some e) \<Rightarrow> (s1, Inl (TokenMkdir e))
      | (s1, None) \<Rightarrow>
          (case fp_lock F (fs_lock_path st) of
             Some e \<Rightarrow> (s1, Inl (TokenLock e))
           | None \<Rightarrow>
               (case FileStore_read F J st s1 of
                  Inl e \<Rightarrow> (s1, Inl e)
                | Inr m \<Rightarrow>
                    (case fn m of (m', r) \<Rightarrow>
                       (case FileStore_write F J st m' s1 of
                          (s2, None) \<Rightarrow> (s2, r)
                        | (s2, Some writeErr) \<Rightarrow>
                            (s2, case errors_Join TokenJoined [fn_error r, Some writeErr] of
                                   Some e \<Rightarrow> Inl e
                                 | None \<Rightarrow> r))))))"

definition issue_fn ::
  "string \<Rightarrow> string \<Rightarrow> duration \<Rightarrow> instant \<Rightarrow> token_map \<Rightarrow> token_map \<times> (token_error + unit)" where
  "issue_fn value role ttl now m =
     (m(value \<mapsto> \<lparr>Role = role, Expiry = time_Add now ttl\<rparr>), Inr ())"

definition consume_fn :: "string \<Rightarrow> instant \<Rightarrow> token_map \<Rightarrow> token_map \<times> (token_error + string)" where
  "consume_fn value now m =
     (case m value of
        None \<Rightarrow> (m, Inl ErrUnknownToken)
      | Some rec \<Rightarrow>
          (m(value := None),
           if time_After now (Expiry rec) then Inl ErrExpired else Inr (Role rec)))"

definition FileStore_Issue ::
  "faults \<Rightarrow> json_codec \<Rightarrow> FileStore \<Rightarrow> entropy \<Rightarrow> string \<Rightarrow> duration \<Rightarrow> instant \<Rightarrow>
   os \<Rightarrow> os \<times> (token_error + string)" where
  "FileStore_Issue F J st rnd role ttl now s =
     (case token_randToken rnd of
        Inl e \<Rightarrow> (s, Inl e)
      | Inr value \<Rightarrow>
          (case FileStore_mutate F J st (issue_fn value role ttl now) s of
             (s', Inl e) \<Rightarrow> (s', Inl e)
           | (s', Inr _) \<Rightarrow> (s', Inr value)))"

definition FileStore_Consume ::
  "faults \<Rightarrow> json_codec \<Rightarrow> FileStore \<Rightarrow> string \<Rightarrow> instant \<Rightarrow> os \<Rightarrow> os \<times> (token_error + string)" where
  "FileStore_Consume F J st value now s = FileStore_mutate F J st (consume_fn value now) s"

section \<open>What a call does to the file\<close>

text \<open>The map the file holds: empty for an absent or empty file, none for an undecodable one.\<close>

definition stored :: "json_codec \<Rightarrow> FileStore \<Rightarrow> os \<Rightarrow> token_map option" where
  "stored J st s =
     (case file_data s (fs_path st) of
        None \<Rightarrow> Some Map.empty
      | Some d \<Rightarrow>
          (if d = [] then Some Map.empty
           else case json_Unmarshal J d of Inl e \<Rightarrow> None | Inr m \<Rightarrow> Some m))"

lemma tmp_path_ne [simp]: "fs_tmp_path st \<noteq> fs_path st" "fs_path st \<noteq> fs_tmp_path st"
  by (simp_all add: fs_tmp_path_def)

lemma FileStore_read_Inr:
  assumes "FileStore_read F J st s = Inr m"
  shows "m = Map.empty \<or> stored J st s = Some m"
  using assms os_ReadFile_prefix [of F "fs_path st" s]
  by (cases "os_ReadFile F (fs_path st) s")
     (auto simp: FileStore_read_def stored_def os_ReadFile_ok split: if_splits option.splits sum.splits)

lemma FileStore_read_no_faults:
  "FileStore_read no_faults J st s =
     (case file_data s (fs_path st) of
        None \<Rightarrow> Inr Map.empty
      | Some d \<Rightarrow>
          (if d = [] then Inr Map.empty
           else case json_Unmarshal J d of Inl e \<Rightarrow> Inl (TokenDecode e) | Inr m \<Rightarrow> Inr m))"
  by (auto simp: FileStore_read_def is_ErrNotExist_def split: option.splits)

text \<open>A write replaces the file by the whole encoding, or leaves it alone.\<close>

lemma FileStore_write_cases:
  assumes "FileStore_write F J st m s = (s', e)"
  shows "(e = None \<and> (\<exists>d. json_Marshal J m = Inr d \<and> file_data s' (fs_path st) = Some d)) \<or>
    (e \<noteq> None \<and> os_files s' (fs_path st) = os_files s (fs_path st))"
proof (cases "json_Marshal J m")
  case (Inl x)
  with assms show ?thesis by (auto simp: FileStore_write_def)
next
  case (Inr d)
  obtain s1 e1 where w: "os_WriteFile F (fs_tmp_path st) d perm_0600 s = (s1, e1)" by fastforce
  have f1: "os_files s1 (fs_path st) = os_files s (fs_path st)"
    using w by (rule os_WriteFile_other) simp
  show ?thesis
  proof (cases e1)
    case (Some x)
    with assms Inr w f1 show ?thesis by (auto simp: FileStore_write_def)
  next
    case None
    obtain s2 e2 where r: "os_Rename F (fs_tmp_path st) (fs_path st) s1 = (s2, e2)" by fastforce
    have d: "file_data s1 (fs_tmp_path st) = Some d"
      using w None by (auto simp: os_WriteFile_ok)
    show ?thesis
    proof (cases e2)
      case (Some x)
      with assms Inr w r None f1 show ?thesis
        by (auto simp: FileStore_write_def dest: os_Rename_fail)
    next
      case None2: None
      with r have "file_data s2 (fs_path st) = file_data s1 (fs_tmp_path st)"
        by (auto dest: os_Rename_ok simp: file_data_def)
      with assms Inr w r None None2 d show ?thesis by (auto simp: FileStore_write_def)
    qed
  qed
qed

text \<open>
  One call of \<^verbatim>\<open>mutate\<close>, under any fault plan: either the file is untouched and the call
  reports an error, or the callback ran on the map that was read, its result was stored as a
  whole, and its verdict is what the caller gets.
\<close>

lemma FileStore_mutate_cases:
  assumes "FileStore_mutate F J st fn s = (s', r)"
  obtains
    (untouched) "os_files s' (fs_path st) = os_files s (fs_path st)" "\<exists>e. r = Inl e"
  | (replaced) m m' d where "FileStore_read F J st s = Inr m" "fn m = (m', r)"
      "json_Marshal J m' = Inr d" "file_data s' (fs_path st) = Some d"
proof -
  obtain s1 e1 where k: "os_MkdirAll F (filepath_Dir (fs_path st)) s = (s1, e1)" by fastforce
  have f1: "os_files s1 = os_files s" using k by (rule os_MkdirAll_files)
  have st1: "FileStore_read F J st s1 = FileStore_read F J st s"
    using f1 by (simp add: FileStore_read_def os_ReadFile_def)
  consider (mk) x where "e1 = Some x" | (lk) x where "e1 = None" "fp_lock F (fs_lock_path st) = Some x"
    | (rd) x where "e1 = None" "fp_lock F (fs_lock_path st) = None" "FileStore_read F J st s1 = Inl x"
    | (go) m where "e1 = None" "fp_lock F (fs_lock_path st) = None" "FileStore_read F J st s1 = Inr m"
    by (metis not_None_eq sum.exhaust)
  then show thesis
  proof cases
    case (go m)
    obtain m' r' where fn: "fn m = (m', r')" by fastforce
    obtain s2 we where w: "FileStore_write F J st m' s1 = (s2, we)" by fastforce
    have m: "FileStore_read F J st s = Inr m"
      using go(3) st1 by simp
    from FileStore_write_cases [OF w] show thesis
    proof (elim disjE conjE exE)
      fix d assume "we = None" "json_Marshal J m' = Inr d" "file_data s2 (fs_path st) = Some d"
      with assms k go fn w have "s' = s2" "r = r'" by (auto simp: FileStore_mutate_def)
      then show thesis
        using replaced [of m m' d] m fn \<open>json_Marshal J m' = Inr d\<close> \<open>file_data s2 _ = Some d\<close> by auto
    next
      assume "we \<noteq> None" "os_files s2 (fs_path st) = os_files s1 (fs_path st)"
      with assms k go fn w f1 show thesis
        by (intro untouched) (auto simp: FileStore_mutate_def split: option.splits)
    qed
  qed (use assms k f1 untouched in \<open>auto simp: FileStore_mutate_def\<close>)
qed

section \<open>The one-time store\<close>

datatype token_op =
    TIssue faults entropy string duration instant
  | TConsume faults string instant

fun token_step :: "json_codec \<Rightarrow> FileStore \<Rightarrow> token_op \<Rightarrow> os \<Rightarrow> os" where
  "token_step J st (TIssue F rnd role ttl now) s = fst (FileStore_Issue F J st rnd role ttl now s)"
| "token_step J st (TConsume F value now) s = fst (FileStore_Consume F J st value now s)"

fun token_issued ::
  "json_codec \<Rightarrow> FileStore \<Rightarrow> token_op \<Rightarrow> os \<Rightarrow> (string \<times> string \<times> instant) option" where
  "token_issued J st (TIssue F rnd role ttl now) s =
     (case snd (FileStore_Issue F J st rnd role ttl now s) of
        Inl e \<Rightarrow> None | Inr value \<Rightarrow> Some (value, role, time_Add now ttl))"
| "token_issued J st (TConsume F value now) s = None"

fun token_redeemed :: "json_codec \<Rightarrow> FileStore \<Rightarrow> token_op \<Rightarrow> os \<Rightarrow> (string \<times> string) option" where
  "token_redeemed J st (TIssue F rnd role ttl now) s = None"
| "token_redeemed J st (TConsume F value now) s =
     (case snd (FileStore_Consume F J st value now s) of
        Inl e \<Rightarrow> None | Inr role \<Rightarrow> Some (value, role))"

fun token_clock :: "token_op \<Rightarrow> instant" where
  "token_clock (TIssue F rnd role ttl now) = now"
| "token_clock (TConsume F value now) = now"

text \<open>Roles come from the command line of \<^verbatim>\<open>token new\<close>; JSON carries them if they are valid UTF-8.\<close>

fun token_legal :: "token_op \<Rightarrow> bool" where
  "token_legal (TIssue F rnd role ttl now) = utf8_valid role"
| "token_legal (TConsume F value now) = True"

definition token_entry :: "json_codec \<Rightarrow> FileStore \<Rightarrow> os \<Rightarrow> string \<Rightarrow> (string \<times> instant) option" where
  "token_entry J st s k =
     (case stored J st s of
        None \<Rightarrow> None
      | Some m \<Rightarrow> map_option (\<lambda>r. (Role r, Expiry r)) (m k))"

lemma stored_text:
  "json_laws J \<Longrightarrow> stored J st s = Some m \<Longrightarrow> finite (dom m) \<and> json_text m"
  by (auto simp: stored_def json_text_def dest: json_lawsD(2)
      split: option.splits if_splits sum.splits)

lemma stored_put:
  assumes "json_laws J" "finite (dom m)" "json_text m" "json_Marshal J m = Inr d"
    and "file_data s (fs_path st) = Some d"
  shows "stored J st s = Some m"
  using json_lawsD(1) [OF assms(1-4)] assms(5) by (simp add: stored_def)

lemma stored_cong: "os_files s' (fs_path st) = os_files s (fs_path st) \<Longrightarrow> stored J st s' = stored J st s"
  by (simp add: stored_def file_data_def)

lemma json_text_upd: "json_text m \<Longrightarrow> utf8_valid k \<Longrightarrow> utf8_valid (Role r) \<Longrightarrow> json_text (m(k \<mapsto> r))"
  by (auto simp: json_text_def)

lemma json_text_del: "json_text m \<Longrightarrow> json_text (m(k := None))"
  by (auto simp: json_text_def)

lemma token_randToken_utf8: "token_randToken rnd = Inr v \<Longrightarrow> utf8_valid v"
  by (auto simp: token_randToken_def base64_ascii split: sum.splits)

text \<open>The outcome of the two calls on the stored map.\<close>

lemma FileStore_Issue_cases:
  assumes "json_laws J" "FileStore_Issue F J st rnd role ttl now s = (s', r)" "utf8_valid role"
  obtains
    (untouched) "stored J st s' = stored J st s" "\<exists>e. r = Inl e"
  | (issued) m v where "m = Map.empty \<or> stored J st s = Some m" "token_randToken rnd = Inr v"
      "r = Inr v" "stored J st s' = Some (m(v \<mapsto> \<lparr>Role = role, Expiry = now + ttl\<rparr>))"
proof (cases "token_randToken rnd")
  case (Inl e)
  with assms have "s' = s" "r = Inl e" by (auto simp: FileStore_Issue_def)
  then show thesis by (intro untouched) auto
next
  case (Inr v)
  obtain s1 u where mut: "FileStore_mutate F J st (issue_fn v role ttl now) s = (s1, u)" by fastforce
  with assms Inr have r: "s' = s1" "r = (case u of Inl e \<Rightarrow> Inl e | Inr _ \<Rightarrow> Inr v)"
    by (auto simp: FileStore_Issue_def split: sum.splits)
  from mut show thesis
  proof (cases rule: FileStore_mutate_cases)
    case untouched
    then obtain e where "os_files s1 (fs_path st) = os_files s (fs_path st)" "u = Inl e" by blast
    with r show thesis using that(1) stored_cong [of s' st s] by simp
  next
    case (replaced m m' d)
    then have m': "m' = m(v \<mapsto> \<lparr>Role = role, Expiry = now + ttl\<rparr>)" "u = Inr ()"
      by (auto simp: issue_fn_def)
    have m: "m = Map.empty \<or> stored J st s = Some m"
      using replaced(1) by (rule FileStore_read_Inr)
    then have "finite (dom m) \<and> json_text m"
      using stored_text [OF assms(1)] by (auto simp: json_text_def)
    then have "finite (dom m') \<and> json_text m'"
      using m' token_randToken_utf8 [OF Inr] assms(3) by (simp add: json_text_upd)
    then have "stored J st s1 = Some m'"
      using stored_put [OF assms(1)] replaced by blast
    with m' r show thesis by (intro issued [OF m Inr]) simp_all
  qed
qed

lemma FileStore_Consume_cases:
  assumes "json_laws J" "FileStore_Consume F J st v now s = (s', r)"
  obtains
    (untouched) "stored J st s' = stored J st s" "\<exists>e. r = Inl e"
  | (taken) m where "m = Map.empty \<or> stored J st s = Some m"
      "consume_fn v now m = (m(v := None), r)" "stored J st s' = Some (m(v := None))"
proof -
  from assms(2) have mut: "FileStore_mutate F J st (consume_fn v now) s = (s', r)"
    by (simp add: FileStore_Consume_def)
  then show thesis
  proof (cases rule: FileStore_mutate_cases)
    case untouched
    with that(1) show thesis using stored_cong by blast
  next
    case (replaced m m' d)
    then have m': "m' = m(v := None)"
      by (auto simp: consume_fn_def split: option.splits)
    have m: "m = Map.empty \<or> stored J st s = Some m"
      using replaced(1) by (rule FileStore_read_Inr)
    then have "finite (dom m) \<and> json_text m"
      using stored_text [OF assms(1)] by (auto simp: json_text_def)
    then have "finite (dom m') \<and> json_text m'"
      using m' by (simp add: json_text_del)
    then have "stored J st s' = Some m'"
      using stored_put [OF assms(1)] replaced by blast
    with m' replaced(2) show thesis by (intro taken [OF m]) simp_all
  qed
qed

lemma consume_fn_Inr:
  "consume_fn v now m = (m', Inr role) \<longleftrightarrow>
     (\<exists>r. m v = Some r \<and> now \<le> Expiry r \<and> role = Role r \<and> m' = m(v := None))"
  by (auto simp: consume_fn_def split: option.splits if_splits)

lemma token_redeemed_stored:
  assumes "json_laws J" "token_redeemed J st a s = Some (v, role)"
  shows "\<exists>m r. stored J st s = Some m \<and> m v = Some r \<and> role = Role r \<and> token_clock a \<le> Expiry r \<and>
    stored J st (token_step J st a s) = Some (m(v := None))"
proof -
  from assms(2) obtain F now where a: "a = TConsume F v now"
      "snd (FileStore_Consume F J st v now s) = Inr role"
    by (cases a) (auto split: sum.splits)
  then have "FileStore_Consume F J st v now s = (token_step J st a s, Inr role)"
    by (metis prod.collapse token_step.simps(2))
  from assms(1) this show ?thesis
    by (cases rule: FileStore_Consume_cases) (use a in \<open>auto simp: consume_fn_Inr\<close>)
qed

lemma token_entry_step:
  assumes "json_laws J" "token_legal a" "token_entry J st (token_step J st a s) k = Some x"
  shows "token_entry J st s k = Some x \<or> token_issued J st a s = Some (k, x)"
proof (cases a)
  case (TIssue F rnd role ttl now)
  obtain s' r where call: "FileStore_Issue F J st rnd role ttl now s = (s', r)" by fastforce
  have "utf8_valid role" using assms(2) TIssue by simp
  from assms(1) call this show ?thesis
    by (cases rule: FileStore_Issue_cases)
       (use assms(3) TIssue call in \<open>auto simp: token_entry_def split: if_splits\<close>)
next
  case (TConsume F v now)
  obtain s' r where call: "FileStore_Consume F J st v now s = (s', r)" by fastforce
  from assms(1) call show ?thesis
    by (cases rule: FileStore_Consume_cases)
       (use assms(3) TConsume call in \<open>auto simp: token_entry_def split: if_splits\<close>)
qed

interpretation tok: expiring_store
  "\<lambda>s. json_laws J" token_legal "token_step J st" "token_entry J st"
  "token_issued J st" "token_redeemed J st" token_clock
  for J st
proof
  fix s a k and v e
  assume J: "json_laws J" and red: "token_redeemed J st a s = Some (k, v)"
  note spent = token_redeemed_stored [OF J red]
  show "\<exists>e. token_entry J st s k = Some (v, e)"
    using spent by (auto simp: token_entry_def)
  show "token_entry J st (token_step J st a s) k = None"
    using spent by (auto simp: token_entry_def)
  show "token_clock a \<le> e" if "token_entry J st s k = Some (v, e)"
    using spent that by (auto simp: token_entry_def)
qed (use token_entry_step in auto)

section \<open>Properties\<close>

text \<open>
  C4: a join token is single-use: over every sequence of \<^verbatim>\<open>Issue\<close> and \<^verbatim>\<open>Consume\<close> calls by
  the daemon and the command line, each under its own arbitrary fault plan, a token that is not
  in the file to begin with is accepted at most as often as it was issued.
\<close>

theorem token_single_use:
  assumes "json_laws J" "list_all token_legal as" "token_entry J st s v = None"
  shows "count_obs (token_step J st) (token_redeemed J st) v as s
    \<le> count_obs (token_step J st) (token_issued J st) v as s"
  using tok.redeemed_le_issued [where J = J and st = st and s = s and as = as and k = v] assms by simp

text \<open>
  Fact: an accepted token was issued earlier by a \<^verbatim>\<open>token new\<close>, with exactly the role it is
  accepted for, and its time to live has not run out.
\<close>

theorem token_accept_implies_issued:
  assumes "json_laws J" "list_all token_legal as" "token_entry J st s v = None"
    and "snd (FileStore_Consume F J st v now (run_ops (token_step J st) as s)) = Inr role"
  shows "\<exists>before G rnd ttl t after. as = before @ TIssue G rnd role ttl t # after \<and>
    token_randToken rnd = Inr v \<and> now \<le> t + ttl"
proof -
  let ?s = "run_ops (token_step J st) as s"
  have "token_redeemed J st (TConsume F v now) ?s = Some (v, role)"
    using assms(4) by simp
  from tok.redeemed_was_issued [OF assms(1,2) _ assms(3) this]
  obtain before b after e where b: "as = before @ b # after"
      "token_issued J st b (run_ops (token_step J st) before s) = Some (v, role, e)" "now \<le> e"
    by auto
  then obtain G rnd ttl t where "b = TIssue G rnd role ttl t" "token_randToken rnd = Inr v" "e = t + ttl"
    by (cases b) (auto simp: FileStore_Issue_def split: sum.splits prod.splits)
  with b show ?thesis by blast
qed

lemma FileStore_write_no_faults:
  assumes "json_Marshal J m = Inr d" "dir_exists s (fs_path st)"
  shows "\<exists>s'. FileStore_write no_faults J st m s = (s', None)"
proof -
  have "dir_exists s (fs_tmp_path st)"
    using assms(2) by (simp add: dir_exists_def fs_tmp_path_def filepath_Dir_append)
  with assms(1) show ?thesis
    by (simp add: FileStore_write_def os_WriteFile_def os_Rename_def put_file_def)
qed

lemma FileStore_mutate_no_faults:
  assumes "json_laws J" "stored J st s = Some m" "fn m = (m', r)"
    and "finite (dom m')" "json_text m'" "json_times m'"
  shows "\<exists>s'. FileStore_mutate no_faults J st fn s = (s', r) \<and> stored J st s' = Some m'"
proof -
  obtain s1 where k: "os_MkdirAll no_faults (filepath_Dir (fs_path st)) s = (s1, None)"
    by (simp add: os_MkdirAll_def)
  have "os_files s1 = os_files s" using k by (rule os_MkdirAll_files)
  then have "stored J st s1 = Some m"
    using assms(2) stored_cong [of s1 st s] by simp
  then have rd: "FileStore_read no_faults J st s1 = Inr m"
    by (auto simp: FileStore_read_no_faults stored_def split: option.splits if_splits sum.splits)
  obtain d where d: "json_Marshal J m' = Inr d"
    using json_lawsD(3) [OF assms(1,4,5,6)] ..
  obtain s2 where w: "FileStore_write no_faults J st m' s1 = (s2, None)"
    using FileStore_write_no_faults [OF d os_MkdirAll_ok [OF k]] by blast
  have "file_data s2 (fs_path st) = Some d"
    using FileStore_write_cases [OF w] d by auto
  then have "stored J st s2 = Some m'"
    using stored_put [OF assms(1,4,5) d] by blast
  then show ?thesis
    using k rd w assms(3) by (simp add: FileStore_mutate_def)
qed

text \<open>
  Fact: \<^verbatim>\<open>Consume\<close> on a readable store when nothing fails refines the abstract map operation: the
  stored map loses exactly that token, whatever the verdict, and the verdict is unknown token,
  expired, or the role.
\<close>

theorem consume_refines_map:
  assumes "json_laws J" "stored J st s = Some m" "json_times m"
  shows "\<exists>s'. FileStore_Consume no_faults J st v now s =
      (s', case m v of
             None \<Rightarrow> Inl ErrUnknownToken
           | Some r \<Rightarrow> if Expiry r < now then Inl ErrExpired else Inr (Role r)) \<and>
    stored J st s' = Some (m(v := None))"
proof -
  have ok: "finite (dom (m(v := None)))" "json_text (m(v := None))" "json_times (m(v := None))"
    using stored_text [OF assms(1,2)] assms(3) by (auto simp: json_text_def json_times_def)
  have fn: "consume_fn v now m = (m(v := None),
      case m v of None \<Rightarrow> Inl ErrUnknownToken
      | Some r \<Rightarrow> if Expiry r < now then Inl ErrExpired else Inr (Role r))"
    by (auto simp: consume_fn_def split: option.splits)
  show ?thesis
    unfolding FileStore_Consume_def
    by (rule FileStore_mutate_no_faults [where fn = "consume_fn v now", OF assms(1,2) fn ok])
qed

text \<open>The failures that keep \<^verbatim>\<open>mutate\<close> from storing, each with what is then reported.\<close>

definition mutate_failure ::
  "faults \<Rightarrow> json_codec \<Rightarrow> FileStore \<Rightarrow> (token_map \<Rightarrow> token_map \<times> (token_error + 'r)) \<Rightarrow> os \<Rightarrow> token_error \<Rightarrow> bool" where
  "mutate_failure F J st fn s e \<longleftrightarrow>
     (case os_MkdirAll F (filepath_Dir (fs_path st)) s of (s1, mk) \<Rightarrow>
        (\<exists>x. mk = Some x \<and> e = TokenMkdir x) \<or>
        (\<exists>x. fp_lock F (fs_lock_path st) = Some x \<and> e = TokenLock x) \<or>
        FileStore_read F J st s = Inl e \<or>
        (\<exists>m m' v w. FileStore_read F J st s = Inr m \<and> fn m = (m', v) \<and>
           snd (FileStore_write F J st m' s1) = Some w \<and>
           e = TokenJoined (case v of Inl fe \<Rightarrow> [fe, w] | Inr x \<Rightarrow> [w])))"

lemma mutate_atomic_core:
  assumes "FileStore_mutate F J st fn s = (s', r)"
  shows "os_files s' (fs_path st) = os_files s (fs_path st) \<and> (\<exists>e. r = Inl e \<and> mutate_failure F J st fn s e) \<or>
     (\<exists>m m' d. FileStore_read F J st s = Inr m \<and> fn m = (m', r) \<and>
        json_Marshal J m' = Inr d \<and> file_data s' (fs_path st) = Some d)"
proof -
  obtain s1 mk where k: "os_MkdirAll F (filepath_Dir (fs_path st)) s = (s1, mk)" by fastforce
  have f1: "os_files s1 = os_files s" using k by (rule os_MkdirAll_files)
  have read: "FileStore_read F J st s1 = FileStore_read F J st s"
    using f1 by (simp add: FileStore_read_def os_ReadFile_def)
  note fail = mutate_failure_def [of F J st fn s, unfolded k prod.case] and mut = assms [unfolded FileStore_mutate_def k prod.case]
  show ?thesis
  proof (cases "mk = None \<and> fp_lock F (fs_lock_path st) = None")
    case False
    then consider (mkdir) x where "mk = Some x" | (lock) x where "mk = None" "fp_lock F (fs_lock_path st) = Some x" by auto
    then show ?thesis by cases (use mut f1 in \<open>auto simp: fail\<close>)
  next
    case ok: True
    show ?thesis
    proof (cases "FileStore_read F J st s")
      case (Inl e)
      with ok mut f1 read show ?thesis by (auto simp: fail)
    next
      case (Inr m)
      obtain m' v where fn: "fn m = (m', v)" by fastforce
      obtain s2 w where w: "FileStore_write F J st m' s1 = (s2, w)" by fastforce
      from FileStore_write_cases [OF w] show ?thesis
        using ok mut f1 read Inr fn w
        by (cases w; cases v) (auto simp: fail errors_Join_def)
    qed
  qed
qed

text \<open>
  C23: the file is replaced atomically, and it is replaced whatever the callback says. Whatever
  fails, and wherever: either one call of \<^verbatim>\<open>mutate\<close> leaves the complete encoding of the map the
  callback produced and returns the callback's own verdict; or it leaves the token file exactly as
  it was, and then the directory, the lock, the read or the write of that very map has failed,
  and that failure is what it reports, after the callback's error when the write was the one to
  fail. The callback's own error alone never keeps the file from being written: a token refused
  as expired, like one accepted, is durably gone when no such failure is reported, and a
  half-written file is never visible.
\<close>

theorem mutate_atomic:
  "case FileStore_mutate F J st fn s of (s', r) \<Rightarrow>
     os_files s' (fs_path st) = os_files s (fs_path st) \<and> (\<exists>e. r = Inl e \<and> mutate_failure F J st fn s e) \<or>
     (\<exists>m m' d. FileStore_read F J st s = Inr m \<and> fn m = (m', r) \<and>
        json_Marshal J m' = Inr d \<and> file_data s' (fs_path st) = Some d)"
  using mutate_atomic_core [of F J st fn s] by (simp split: prod.split)

text \<open>
  Fact: a token is 32 characters of the URL-safe base64 alphabet, and two draws of the entropy
  source give the same token only if all 24 random bytes agree.
\<close>

theorem token_shape:
  "\<exists>v. token_randToken (Inr f) = Inr v \<and> length v = 32 \<and> set v \<subseteq> set b64_alphabet \<and>
     (token_randToken (Inr g) = Inr v \<longleftrightarrow> map g [0..<24] = map f [0..<24])"
  using base64_alphabet [of "map f [0..<24]"]
  by (auto simp: token_randToken_def rand_Read_def length_base64 base64_inject simp del: upt_rec_numeral)

definition unreadable :: "string \<Rightarrow> faults" where
  "unreadable e = no_faults\<lparr>fp_open := \<lambda>_. Some e\<rparr>"

lemma FileStore_write_unreadable:
  "FileStore_write (unreadable e) J st m s = FileStore_write no_faults J st m s"
proof -
  have eqs: "os_WriteFile (unreadable e) = os_WriteFile no_faults" "os_Rename (unreadable e) = os_Rename no_faults"
    by (simp_all add: fun_eq_iff os_WriteFile_def os_Rename_def unreadable_def split: option.splits)
  show ?thesis unfolding FileStore_write_def eqs by (rule refl)
qed

lemma FileStore_read_unreadable: "FileStore_read (unreadable e) J st s = Inr Map.empty"
  by (auto simp: FileStore_read_def os_ReadFile_def unreadable_def split: option.splits)

text \<open>
  C34: the reading step takes a store it cannot open for an empty one. When the open fails for
  another reason than absence (no permission, too many open files), no data was read, so
  \<^verbatim>\<open>len(data) == 0\<close> holds and the error is dropped; \<^verbatim>\<open>Issue\<close> then replaces the file, and every
  token that was outstanding is lost, whatever the file held.
\<close>

theorem unreadable_store_is_wiped:
  assumes "json_laws J" "token_randToken rnd = Inr v" "utf8_valid role" "json_instant (now + ttl)"
  shows "\<exists>s'. FileStore_Issue (unreadable e) J st rnd role ttl now s = (s', Inr v) \<and>
    stored J st s' = Some [v \<mapsto> \<lparr>Role = role, Expiry = now + ttl\<rparr>]"
proof -
  let ?m = "[v \<mapsto> \<lparr>Role = role, Expiry = now + ttl\<rparr>]"
  obtain s1 where k: "os_MkdirAll (unreadable e) (filepath_Dir (fs_path st)) s = (s1, None)"
    by (simp add: os_MkdirAll_def unreadable_def)
  have ok: "finite (dom ?m)" "json_text ?m" "json_times ?m"
    using assms(3,4) token_randToken_utf8 [OF assms(2)] by (auto simp: json_text_def json_times_def)
  obtain d where d: "json_Marshal J ?m = Inr d"
    using json_lawsD(3) [OF assms(1) ok] ..
  obtain s2 where w: "FileStore_write no_faults J st ?m s1 = (s2, None)"
    using FileStore_write_no_faults [OF d os_MkdirAll_ok [OF k]] by blast
  have "file_data s2 (fs_path st) = Some d"
    using FileStore_write_cases [OF w] d by auto
  then have "stored J st s2 = Some ?m"
    using stored_put [OF assms(1) ok(1,2) d] by blast
  moreover have "fp_lock (unreadable e) p = None" for p
    by (simp add: unreadable_def)
  ultimately show ?thesis
    using k w assms(2)
    by (simp add: FileStore_Issue_def FileStore_mutate_def FileStore_read_unreadable issue_fn_def
        FileStore_write_unreadable)
qed

section \<open>The properties at concrete inputs\<close>

text \<open>An empty machine, a store, and one token issued in it.\<close>

definition empty_os :: os where
  "empty_os = \<lparr>os_files = Map.empty, os_dirs = {}\<rparr>"

abbreviation demo_store :: FileStore where
  "demo_store \<equiv> NewFileStore ''/var/lib/rexec/tokens.json''"

abbreviation demo_rnd :: entropy where
  "demo_rnd \<equiv> Inr (\<lambda>_. CHR ''x'')"

definition demo_token :: string where
  "demo_token = ''eHh4eHh4eHh4eHh4eHh4eHh4eHh4eHh4''"

lemma demo_randToken: "token_randToken demo_rnd = Inr demo_token"
  unfolding demo_token_def by code_simp

lemma stored_empty_os: "stored J st empty_os = Some Map.empty"
  by (simp add: stored_def empty_os_def file_data_def)

lemma json_instant_small: "0 \<le> t \<Longrightarrow> t \<le> 1000000 \<Longrightarrow> json_instant t"
  by (simp add: json_instant_def time_Second_def)

lemma demo_issued:
  "\<exists>s. FileStore_Issue no_faults plain_json demo_store demo_rnd ''rex:admin'' 600 100 empty_os = (s, Inr demo_token) \<and>
     stored plain_json demo_store s = Some [demo_token \<mapsto> \<lparr>Role = ''rex:admin'', Expiry = 700\<rparr>]"
proof -
  let ?m = "[demo_token \<mapsto> \<lparr>Role = ''rex:admin'', Expiry = 700\<rparr>]"
  have "utf8_valid demo_token" using token_randToken_utf8 [OF demo_randToken] .
  moreover have "is_ascii ''rex:admin''" by (simp add: is_ascii_def)
  ultimately have ok: "finite (dom ?m)" "json_text ?m" "json_times ?m"
    by (auto simp: json_text_def json_times_def json_instant_small)
  have fn: "issue_fn demo_token ''rex:admin'' 600 100 Map.empty = (?m, Inr ())"
    by (simp add: issue_fn_def)
  from FileStore_mutate_no_faults [where fn = "issue_fn demo_token ''rex:admin'' 600 100",
      OF plain_json_laws stored_empty_os fn ok, of demo_store]
  show ?thesis by (auto simp: FileStore_Issue_def demo_randToken)
qed

lemma demo_consumed:
  assumes "stored plain_json demo_store s = Some [demo_token \<mapsto> \<lparr>Role = ''rex:admin'', Expiry = 700\<rparr>]"
  shows "snd (FileStore_Consume no_faults plain_json demo_store demo_token 650 s) = Inr ''rex:admin''"
proof -
  have fn: "consume_fn demo_token 650 [demo_token \<mapsto> \<lparr>Role = ''rex:admin'', Expiry = 700\<rparr>] =
      (Map.empty, Inr ''rex:admin'')"
    by (simp add: consume_fn_def fun_upd_idem)
  have ok: "finite (dom Map.empty)" "json_text Map.empty" "json_times Map.empty"
    by (simp_all add: json_text_def json_times_def)
  from FileStore_mutate_no_faults [where fn = "consume_fn demo_token 650", OF plain_json_laws assms fn ok]
  show ?thesis by (auto simp: FileStore_Consume_def)
qed

abbreviation demo_issue :: token_op where
  "demo_issue \<equiv> TIssue no_faults demo_rnd ''rex:admin'' 600 100"

lemma demo_after_issue:
  "stored plain_json demo_store (token_step plain_json demo_store demo_issue empty_os) =
     Some [demo_token \<mapsto> \<lparr>Role = ''rex:admin'', Expiry = 700\<rparr>]"
  using demo_issued by auto

lemma demo_legal: "token_legal demo_issue" "token_entry J st empty_os v = None"
  using is_ascii_utf8 [of "''rex:admin''"]
  by (auto simp: is_ascii_def token_entry_def stored_empty_os)

theorem token_single_use_witness:
  "count_obs (token_step plain_json demo_store) (token_redeemed plain_json demo_store) demo_token
     [demo_issue, TConsume no_faults demo_token 650, TConsume no_faults demo_token 650] empty_os \<le> 1"
proof -
  have "count_obs (token_step plain_json demo_store) (token_redeemed plain_json demo_store) demo_token
      [demo_issue, TConsume no_faults demo_token 650, TConsume no_faults demo_token 650] empty_os
    \<le> count_obs (token_step plain_json demo_store) (token_issued plain_json demo_store) demo_token
      [demo_issue, TConsume no_faults demo_token 650, TConsume no_faults demo_token 650] empty_os"
    by (rule token_single_use [OF plain_json_laws]) (simp_all add: demo_legal del: token_legal.simps(1))
  also have "\<dots> \<le> 1" by (auto split: option.splits)
  finally show ?thesis .
qed

theorem token_accept_implies_issued_witness:
  "\<exists>before G rnd ttl t after. [demo_issue] = before @ TIssue G rnd ''rex:admin'' ttl t # after \<and>
     token_randToken rnd = Inr demo_token \<and> 650 \<le> t + ttl"
proof (rule token_accept_implies_issued [OF plain_json_laws])
  show "snd (FileStore_Consume no_faults plain_json demo_store demo_token 650
      (run_ops (token_step plain_json demo_store) [demo_issue] empty_os)) = Inr ''rex:admin''"
    using demo_consumed [OF demo_after_issue] by simp
qed (simp_all add: demo_legal del: token_legal.simps(1))

theorem consume_refines_map_witness:
  "\<exists>s s'. FileStore_Consume no_faults plain_json demo_store demo_token 800 s = (s', Inl ErrExpired) \<and>
     stored plain_json demo_store s' = Some Map.empty"
proof -
  have "json_times [demo_token \<mapsto> \<lparr>Role = ''rex:admin'', Expiry = 700\<rparr>]"
    by (simp add: json_times_def json_instant_small)
  from consume_refines_map [OF plain_json_laws demo_after_issue this, of demo_token 800]
  show ?thesis by (auto simp: fun_upd_idem)
qed

theorem unreadable_store_is_wiped_witness:
  "\<exists>s'. FileStore_Issue (unreadable ''too many open files'') plain_json demo_store demo_rnd ''r'' 5 100
        (token_step plain_json demo_store demo_issue empty_os) = (s', Inr demo_token) \<and>
     stored plain_json demo_store s' = Some [demo_token \<mapsto> \<lparr>Role = ''r'', Expiry = 105\<rparr>]"
proof -
  have "is_ascii ''r''" by (simp add: is_ascii_def)
  with unreadable_store_is_wiped [OF plain_json_laws demo_randToken, of "''r''" 100 5]
  show ?thesis by (simp add: json_instant_small is_ascii_utf8)
qed

end
