(* ===== verification/Token_Lock.thy ===== *)
theory Token_Lock
  imports Token_Store
begin

text \<open>
  The interleavings of \<^verbatim>\<open>FileStore.mutate\<close>. Callers are goroutines and processes; each runs one
  \<^verbatim>\<open>Issue\<close> or \<^verbatim>\<open>Consume\<close> call: take the lock, read the file, run the callback, write the temporary
  file, rename it over the file, release the lock. The lock comes from the package
  \<^verbatim>\<open>gofrs/flock\<close>, which is not part of the repository. Two facts of its documentation matter and
  are the parameters of the step relation: a caller locks through a handle (one \<^verbatim>\<open>flock.Flock\<close> value per \<^verbatim>\<open>FileStore\<close>), and
  \<open>shortcut\<close>, whether \<^verbatim>\<open>Lock\<close> on a handle that is already locked returns at once ("if we are
  already exclusive-locked, this function short-circuits and returns immediately").
\<close>

section \<open>Calls\<close>

datatype store_call = CallIssue string string duration instant | CallConsume string instant

fun run_call :: "store_call \<Rightarrow> token_map \<Rightarrow> token_map \<times> (token_error + string)" where
  "run_call (CallIssue v role ttl now) m =
     (case issue_fn v role ttl now m of (m', Inl e) \<Rightarrow> (m', Inl e) | (m', Inr _) \<Rightarrow> (m', Inr v))"
| "run_call (CallConsume v now) m = consume_fn v now m"

text \<open>
  Where a caller stands: before the lock; holding it; with the map read (\<open>lost\<close> when the open
  failed and \<^verbatim>\<open>read\<close> took the store for empty); with the temporary file open for the new map and
  the verdict known; with that file written; with the file renamed (or given up); back with its
  caller.
\<close>

datatype caller =
    Waiting
  | Entered
  | Loaded bool token_map
  | Writing bool token_map "token_error + string"
  | Written bool token_map "token_error + string"
  | Stored "token_error + string"
  | Returned "token_error + string"

fun in_section :: "caller \<Rightarrow> bool" where
  "in_section Waiting = False"
| "in_section Entered = True"
| "in_section (Loaded lost m) = True"
| "in_section (Writing lost m r) = True"
| "in_section (Written lost m r) = True"
| "in_section (Stored r) = True"
| "in_section (Returned r) = False"

text \<open>
  What a file holds: nothing, as there is none; the whole encoding of a map; or what a caller's
  unfinished or disturbed write has left. An absent store reads as the empty map, so that
  \<open>Whole Map.empty\<close> stands for it, too.
\<close>

datatype token_file = Absent | Partial nat | Whole token_map

section \<open>Steps\<close>

text \<open>
  \<open>ls_file\<close> is the token file and \<open>ls_tmp\<close> the temporary one beside it, which all callers share.
  \<open>ls_locked h\<close> is the flag inside the handle \<open>h\<close>, \<open>ls_owner\<close> the handle that holds the lock
  of the operating system. Two fields are auxiliary histories: \<open>ls_log\<close> has the callers that
  renamed their map over the file, the latest first, each with whether its read had lost the store;
  and \<open>ls_together\<close> says that a caller has entered while its handle was locked already.
\<close>

record lock_sys =
  ls_file :: token_file
  ls_tmp :: token_file
  ls_locked :: "nat \<Rightarrow> bool"
  ls_owner :: "nat option"
  ls_caller :: "nat \<Rightarrow> caller"
  ls_log :: "(nat \<times> bool) list"
  ls_together :: bool

definition lock_init :: "token_map \<Rightarrow> lock_sys" where
  "lock_init m0 = \<lparr>ls_file = Whole m0, ls_tmp = Absent, ls_locked = (\<lambda>_. False), ls_owner = None,
     ls_caller = (\<lambda>_. Waiting), ls_log = [], ls_together = False\<rparr>"

definition moved :: "nat \<Rightarrow> caller \<Rightarrow> lock_sys \<Rightarrow> lock_sys" where
  "moved t c s = s\<lparr>ls_caller := (ls_caller s)(t := c)\<rparr>"

text \<open>
  The read of a file that is not a whole encoding gives whatever its bytes decode to. The
  temporary file is truncated when it is opened; a write ends well when nobody else has opened or
  moved the file since, and when someone has, the two writes fall on the same bytes and what either
  file holds afterwards is left open. So is what a failed write leaves in the temporary file.
\<close>

inductive lock_step ::
  "bool \<Rightarrow> (nat \<Rightarrow> nat) \<Rightarrow> (nat \<Rightarrow> store_call) \<Rightarrow> lock_sys \<Rightarrow> lock_sys \<Rightarrow> bool"
  for shortcut handle call where
  acquire: "ls_caller s t = Waiting \<Longrightarrow> \<not> ls_locked s (handle t) \<Longrightarrow> ls_owner s = None \<Longrightarrow>
    lock_step shortcut handle call s
      (moved t Entered (s\<lparr>ls_locked := (ls_locked s)(handle t := True), ls_owner := Some (handle t)\<rparr>))"
| reenter: "shortcut \<Longrightarrow> ls_caller s t = Waiting \<Longrightarrow> ls_locked s (handle t) \<Longrightarrow>
    lock_step shortcut handle call s (moved t Entered (s\<lparr>ls_together := True\<rparr>))"
| lock_fails: "ls_caller s t = Waiting \<Longrightarrow> lock_step shortcut handle call s (moved t (Returned (Inl e)) s)"
| load: "ls_caller s t = Entered \<Longrightarrow> ls_file s = Whole m \<Longrightarrow>
    lock_step shortcut handle call s (moved t (Loaded False m) s)"
| load_garbled: "ls_caller s t = Entered \<Longrightarrow> (\<And>m'. ls_file s \<noteq> Whole m') \<Longrightarrow>
    lock_step shortcut handle call s (moved t (Loaded False m) s)"
| load_lost: "ls_caller s t = Entered \<Longrightarrow>
    lock_step shortcut handle call s (moved t (Loaded True Map.empty) s)"
| open_tmp: "ls_caller s t = Loaded lost m \<Longrightarrow> run_call (call t) m = (m', r) \<Longrightarrow>
    lock_step shortcut handle call s (moved t (Writing lost m' r) (s\<lparr>ls_tmp := Partial t\<rparr>))"
| write_tmp: "ls_caller s t = Writing lost m r \<Longrightarrow> ls_tmp s = Partial t \<Longrightarrow>
    lock_step shortcut handle call s (moved t (Written lost m r) (s\<lparr>ls_tmp := Whole m\<rparr>))"
| write_disturbed: "ls_caller s t = Writing lost m r \<Longrightarrow> ls_tmp s \<noteq> Partial t \<Longrightarrow>
    lock_step shortcut handle call s (moved t (Written lost m r) (s\<lparr>ls_tmp := x, ls_file := y\<rparr>))"
| rename: "ls_caller s t = Written lost m r \<Longrightarrow> ls_tmp s \<noteq> Absent \<Longrightarrow>
    lock_step shortcut handle call s
      (moved t (Stored r) (s\<lparr>ls_file := ls_tmp s, ls_tmp := Absent, ls_log := (t, lost) # ls_log s\<rparr>))"
| write_fails: "ls_caller s t = Writing lost m r \<Longrightarrow> ls_tmp s = Partial t \<Longrightarrow>
    lock_step shortcut handle call s (moved t (Stored (Inl e)) (s\<lparr>ls_tmp := x\<rparr>))"
| disturbed_fails: "ls_caller s t = Writing lost m r \<Longrightarrow> ls_tmp s \<noteq> Partial t \<Longrightarrow>
    lock_step shortcut handle call s (moved t (Stored (Inl e)) (s\<lparr>ls_tmp := x, ls_file := y\<rparr>))"
| io_fails: "ls_caller s t = Entered \<or> ls_caller s t = Loaded lost m \<or> ls_caller s t = Written lost m r \<Longrightarrow>
    lock_step shortcut handle call s (moved t (Stored (Inl e)) s)"
| release: "ls_caller s t = Stored r \<Longrightarrow>
    lock_step shortcut handle call s
      (moved t (Returned r) (s\<lparr>ls_locked := (ls_locked s)(handle t := False),
         ls_owner := (if ls_owner s = Some (handle t) then None else ls_owner s)\<rparr>))"

inductive lock_reach ::
  "bool \<Rightarrow> (nat \<Rightarrow> nat) \<Rightarrow> (nat \<Rightarrow> store_call) \<Rightarrow> token_map \<Rightarrow> lock_sys \<Rightarrow> bool"
  for shortcut handle call m0 where
  start: "lock_reach shortcut handle call m0 (lock_init m0)"
| step: "lock_reach shortcut handle call m0 s \<Longrightarrow> lock_step shortcut handle call s s' \<Longrightarrow>
    lock_reach shortcut handle call m0 s'"

section \<open>The sequential execution a log stands for\<close>

text \<open>The map a call starts from: what the calls before it left, or nothing when its open failed.\<close>

definition start_map :: "bool \<Rightarrow> token_map \<Rightarrow> token_map" where
  "start_map lost m = (if lost then Map.empty else m)"

fun replay :: "(nat \<Rightarrow> store_call) \<Rightarrow> token_map \<Rightarrow> (nat \<times> bool) list \<Rightarrow> token_map" where
  "replay call m0 [] = m0"
| "replay call m0 ((t, lost) # log) = fst (run_call (call t) (start_map lost (replay call m0 log)))"

text \<open>The verdict of caller \<open>t\<close> in that sequential execution.\<close>

fun verdict :: "(nat \<Rightarrow> store_call) \<Rightarrow> token_map \<Rightarrow> (nat \<times> bool) list \<Rightarrow> nat \<Rightarrow> (token_error + string) option" where
  "verdict call m0 [] t = None"
| "verdict call m0 ((u, lost) # log) t =
     (if u = t then Some (snd (run_call (call t) (start_map lost (replay call m0 log))))
      else verdict call m0 log t)"

lemma verdict_None: "verdict call m0 log t = None \<longleftrightarrow> t \<notin> fst ` set log"
  by (induction log) (auto split: if_splits)

section \<open>The invariant\<close>

text \<open>
  A lock that excludes: it has no short cut, or no two callers share a handle. More generally, as
  long as nobody has come in by the short cut, at most one caller is between taking and releasing
  the lock, and the handle flags agree with the owner.
\<close>

definition exclusive :: "bool \<Rightarrow> (nat \<Rightarrow> nat) \<Rightarrow> bool" where
  "exclusive shortcut handle \<longleftrightarrow> (shortcut \<longrightarrow> inj handle)"

definition lock_excl :: "(nat \<Rightarrow> nat) \<Rightarrow> lock_sys \<Rightarrow> bool" where
  "lock_excl handle s \<longleftrightarrow>
     (case ls_owner s of
        None \<Rightarrow> (\<forall>u. \<not> in_section (ls_caller s u)) \<and> (\<forall>h. \<not> ls_locked s h)
      | Some h \<Rightarrow>
          (\<exists>t. handle t = h \<and> (\<forall>u. in_section (ls_caller s u) \<longleftrightarrow> u = t)) \<and>
          (\<forall>h'. ls_locked s h' \<longleftrightarrow> h' = h))"

text \<open>What the log says of a caller: its verdict, once its map is in place.\<close>

definition logged :: "caller \<Rightarrow> (token_error + string) option \<Rightarrow> bool" where
  "logged c v \<longleftrightarrow>
     (case v of
        None \<Rightarrow> (\<forall>x. c \<noteq> Stored (Inr x) \<and> c \<noteq> Returned (Inr x))
      | Some r \<Rightarrow> c = Stored r \<or> c = Returned r)"

text \<open>What a caller in the section has in hand, over the map \<open>m\<close> of the store.\<close>

fun in_hand :: "store_call \<Rightarrow> token_map \<Rightarrow> token_file \<Rightarrow> nat \<Rightarrow> caller \<Rightarrow> bool" where
  "in_hand c m tmp t (Loaded lost x) = (x = start_map lost m)"
| "in_hand c m tmp t (Writing lost x r) = (run_call c (start_map lost m) = (x, r) \<and> tmp = Partial t)"
| "in_hand c m tmp t (Written lost x r) = (run_call c (start_map lost m) = (x, r) \<and> tmp = Whole x)"
| "in_hand c m tmp t _ = True"

definition lock_lin :: "(nat \<Rightarrow> store_call) \<Rightarrow> token_map \<Rightarrow> lock_sys \<Rightarrow> bool" where
  "lock_lin call m0 s \<longleftrightarrow>
     ls_file s = Whole (replay call m0 (ls_log s)) \<and> distinct (map fst (ls_log s)) \<and>
     (\<forall>t. in_hand (call t) (replay call m0 (ls_log s)) (ls_tmp s) t (ls_caller s t)) \<and>
     (\<forall>t. logged (ls_caller s t) (verdict call m0 (ls_log s) t))"

lemma moved_simps [simp]:
  "ls_file (moved t c s) = ls_file s" "ls_tmp (moved t c s) = ls_tmp s" "ls_locked (moved t c s) = ls_locked s"
  "ls_owner (moved t c s) = ls_owner s" "ls_caller (moved t c s) = (ls_caller s)(t := c)"
  "ls_log (moved t c s) = ls_log s" "ls_together (moved t c s) = ls_together s"
  by (simp_all add: moved_def)

lemma lock_excl_unique:
  "lock_excl handle s \<Longrightarrow> in_section (ls_caller s t) \<Longrightarrow>
     ls_owner s = Some (handle t) \<and> (\<forall>u. in_section (ls_caller s u) \<longleftrightarrow> u = t) \<and>
     (\<forall>h. ls_locked s h \<longleftrightarrow> h = handle t)"
  unfolding lock_excl_def by (cases "ls_owner s") auto

lemma lock_exclI_one:
  "ls_owner s = Some (handle t) \<Longrightarrow> (\<And>u. in_section (ls_caller s u) \<longleftrightarrow> u = t) \<Longrightarrow>
     (\<And>h. ls_locked s h \<longleftrightarrow> h = handle t) \<Longrightarrow> lock_excl handle s"
  unfolding lock_excl_def by auto

lemma lock_excl_locked:
  assumes "lock_excl handle s" "ls_locked s h"
  shows "\<exists>u. handle u = h \<and> in_section (ls_caller s u)"
proof (cases "ls_owner s")
  case None
  with assms show ?thesis by (simp add: lock_excl_def)
next
  case (Some h')
  then obtain u where "handle u = h'" "in_section (ls_caller s u)"
    using assms(1) unfolding lock_excl_def by auto
  moreover have "h = h'" using assms Some unfolding lock_excl_def by auto
  ultimately show ?thesis by blast
qed

lemma no_reenter:
  assumes "lock_excl handle s" "inj handle" "ls_caller s t = Waiting"
  shows "\<not> ls_locked s (handle t)"
proof
  assume "ls_locked s (handle t)"
  then obtain u where "handle u = handle t" "in_section (ls_caller s u)"
    using lock_excl_locked [OF assms(1)] by blast
  then show False using assms(2,3) by (metis in_section.simps(1) injD)
qed

text \<open>The invariant sees of the callers only which of them are in the section.\<close>

lemma lock_excl_cong:
  "lock_excl handle s \<Longrightarrow> ls_owner s' = ls_owner s \<Longrightarrow> ls_locked s' = ls_locked s \<Longrightarrow>
     (\<And>u. in_section (ls_caller s' u) = in_section (ls_caller s u)) \<Longrightarrow> lock_excl handle s'"
  unfolding lock_excl_def by (cases "ls_owner s") simp_all

lemma lock_step_together: "lock_step shortcut handle call s s' \<Longrightarrow> ls_together s \<Longrightarrow> ls_together s'"
  by (induction rule: lock_step.induct) auto

lemma lock_step_excl:
  assumes "lock_step shortcut handle call s s'" "\<not> ls_together s'" "lock_excl handle s"
  shows "lock_excl handle s'"
  using assms(1)
proof cases
  case (acquire t)
  then show ?thesis
    using assms(3) by (intro lock_exclI_one [of _ _ t]) (auto simp: lock_excl_def)
next
  case (release t r)
  then have "in_section (ls_caller s t)" by simp
  from lock_excl_unique [OF assms(3) this] show ?thesis
    using release by (simp add: lock_excl_def)
qed (use assms(2) in \<open>auto intro!: lock_excl_cong [OF assms(3)] split: if_splits\<close>)

lemma lock_linI:
  "ls_file s = Whole (replay call m0 (ls_log s)) \<Longrightarrow> distinct (map fst (ls_log s)) \<Longrightarrow>
     (\<And>t. in_hand (call t) (replay call m0 (ls_log s)) (ls_tmp s) t (ls_caller s t)) \<Longrightarrow>
     (\<And>t. logged (ls_caller s t) (verdict call m0 (ls_log s) t)) \<Longrightarrow> lock_lin call m0 s"
  unfolding lock_lin_def by blast

lemma logged_None:
  "logged c None \<longleftrightarrow> (\<forall>x. c \<noteq> Stored (Inr x) \<and> c \<noteq> Returned (Inr x))"
  "logged c (Some r) \<longleftrightarrow> c = Stored r \<or> c = Returned r"
  by (simp_all add: logged_def)

lemma lock_linD:
  assumes "lock_lin call m0 s"
  shows "ls_file s = Whole (replay call m0 (ls_log s))" "distinct (map fst (ls_log s))"
    "in_hand (call t) (replay call m0 (ls_log s)) (ls_tmp s) t (ls_caller s t)"
    "logged (ls_caller s t) (verdict call m0 (ls_log s) t)"
  using assms by (simp_all add: lock_lin_def)

lemma in_hand_outside: "\<not> in_section c \<Longrightarrow> in_hand x m tmp t c"
  by (cases c) auto

text \<open>A step of one caller that leaves the file and the log alone, when nobody else is inside or the
  temporary file stays, too.\<close>

lemma lock_lin_moved:
  assumes "lock_lin call m0 s" "ls_file s' = ls_file s" "ls_log s' = ls_log s"
    and "ls_caller s' = (ls_caller s)(t := c)"
    and "logged c (verdict call m0 (ls_log s) t)"
    and "in_hand (call t) (replay call m0 (ls_log s)) (ls_tmp s') t c"
    and "ls_tmp s' = ls_tmp s \<or> (\<forall>u. u \<noteq> t \<longrightarrow> \<not> in_section (ls_caller s u))"
  shows "lock_lin call m0 s'"
proof (rule lock_linI)
  show "in_hand (call u) (replay call m0 (ls_log s')) (ls_tmp s') u (ls_caller s' u)" for u
    using lock_linD(3) [OF assms(1), of u] assms(3,4,6,7) in_hand_outside [of "ls_caller s u"] by (cases "u = t") auto
qed (use assms in \<open>auto simp: lock_lin_def\<close>)

lemma logged_places [simp]:
  "logged Waiting v \<longleftrightarrow> v = None"
  "logged Entered v \<longleftrightarrow> v = None"
  "logged (Loaded lost m) v \<longleftrightarrow> v = None"
  "logged (Writing lost m r) v \<longleftrightarrow> v = None"
  "logged (Written lost m r) v \<longleftrightarrow> v = None"
  "logged (Stored r) v \<Longrightarrow> logged (Returned r) v"
  by (cases v; simp add: logged_None)+

lemma lock_lin_rename:
  assumes "lock_lin call m0 s" "ls_caller s t = Written lost m r" "\<And>u. u \<noteq> t \<Longrightarrow> \<not> in_section (ls_caller s u)"
  shows "lock_lin call m0 (moved t (Stored r) (s\<lparr>ls_file := ls_tmp s, ls_tmp := Absent, ls_log := (t, lost) # ls_log s\<rparr>))"
    (is "lock_lin call m0 ?s'")
proof (rule lock_linI)
  have run: "run_call (call t) (start_map lost (replay call m0 (ls_log s))) = (m, r)" "ls_tmp s = Whole m"
    using lock_linD(3) [OF assms(1), of t] assms(2) by auto
  have new: "t \<notin> fst ` set (ls_log s)"
    using lock_linD(4) [OF assms(1), of t] assms(2) by (simp add: verdict_None)
  show "ls_file ?s' = Whole (replay call m0 (ls_log ?s'))" using run by simp
  show "distinct (map fst (ls_log ?s'))" using lock_linD(2) [OF assms(1)] new by simp
  show "in_hand (call u) (replay call m0 (ls_log ?s')) (ls_tmp ?s') u (ls_caller ?s' u)" for u
    using assms(3) [of u] in_hand_outside by auto
  show "logged (ls_caller ?s' u) (verdict call m0 (ls_log ?s') u)" for u
    using lock_linD(4) [OF assms(1), of u] run by (auto simp: logged_None)
qed

lemma lock_step_lin:
  assumes "lock_step shortcut handle call s s'" "lock_excl handle s" "lock_lin call m0 s"
  shows "lock_lin call m0 s'"
proof -
  have alone: "\<not> in_section (ls_caller s u)" if "in_section (ls_caller s t)" "u \<noteq> t" for t u
    using lock_excl_unique [OF assms(2) that(1)] that(2) by simp
  note fl = lock_linD(1) [OF assms(3)] and hand = lock_linD(3) [OF assms(3)] and lg = lock_linD(4) [OF assms(3)]
  from assms(1) show ?thesis
  proof cases
    case (release t r)
    then show ?thesis using lg [of t] by (intro lock_lin_moved [OF assms(3), of _ t "Returned r"]) auto
  next
    case (rename t lost m r)
    then show ?thesis using lock_lin_rename [OF assms(3) rename(2)] alone [of t] by auto
  next
    case (open_tmp t lost m m' r)
    then show ?thesis using lg [of t] hand [of t] alone [of t]
      by (intro lock_lin_moved [OF assms(3), of _ t "Writing lost m' r"]) auto
  next
    case (write_tmp t lost m r)
    then show ?thesis using lg [of t] hand [of t] alone [of t]
      by (intro lock_lin_moved [OF assms(3), of _ t "Written lost m r"]) auto
  next
    case (write_disturbed t lost m r x y)
    then show ?thesis using hand [of t] by simp
  next
    case (disturbed_fails t lost m r e x y)
    then show ?thesis using hand [of t] by simp
  next
    case (load t m)
    then show ?thesis using lg [of t] fl
      by (intro lock_lin_moved [OF assms(3), of _ t "Loaded False m"]) (auto simp: start_map_def)
  next
    case (load_lost t)
    then show ?thesis using lg [of t]
      by (intro lock_lin_moved [OF assms(3), of _ t "Loaded True Map.empty"]) (auto simp: start_map_def)
  next
    case (load_garbled t m)
    then show ?thesis using fl by blast
  next
    case (acquire t)
    then show ?thesis using lg [of t] by (intro lock_lin_moved [OF assms(3), of _ t Entered]) auto
  next
    case (reenter t)
    then show ?thesis using lg [of t] by (intro lock_lin_moved [OF assms(3), of _ t Entered]) auto
  next
    case (lock_fails t e)
    then show ?thesis using lg [of t]
      by (intro lock_lin_moved [OF assms(3), of _ t "Returned (Inl e)"]) (auto simp: logged_None)
  next
    case (write_fails t lost m r e x)
    then show ?thesis using lg [of t] alone [of t]
      by (intro lock_lin_moved [OF assms(3), of _ t "Stored (Inl e)"]) (auto simp: logged_None)
  next
    case (io_fails t lost m r e)
    then show ?thesis using lg [of t]
      by (intro lock_lin_moved [OF assms(3), of _ t "Stored (Inl e)"]) (auto simp: logged_None)
  qed
qed

lemma lock_reach_inv:
  assumes "lock_reach shortcut handle call m0 s" "\<not> ls_together s"
  shows "lock_excl handle s \<and> lock_lin call m0 s"
  using assms
proof induction
  case start
  show ?case by (simp add: lock_init_def lock_excl_def lock_lin_def logged_None)
next
  case (step s s')
  then have "\<not> ls_together s" using lock_step_together by blast
  with step show ?case using lock_step_excl lock_step_lin by blast
qed

text \<open>Behind a lock that excludes nobody comes in by the short cut.\<close>

lemma exclusive_apart:
  assumes "lock_reach shortcut handle call m0 s" "exclusive shortcut handle"
  shows "\<not> ls_together s"
  using assms(1)
proof induction
  case start
  show ?case by (simp add: lock_init_def)
next
  case (step s s')
  from step.hyps(2) show ?case
  proof cases
    case (reenter t)
    then show ?thesis
      using no_reenter [of handle s t] lock_reach_inv [OF step.hyps(1) step.IH] assms(2) by (auto simp: exclusive_def)
  qed (use step.IH in auto)
qed

section \<open>Progress\<close>

text \<open>How many steps a caller is from its return, and the step one caller takes.\<close>

fun store_left :: "caller \<Rightarrow> nat" where
  "store_left Waiting = 6"
| "store_left Entered = 5"
| "store_left (Loaded lost m) = 4"
| "store_left (Writing lost m r) = 3"
| "store_left (Written lost m r) = 2"
| "store_left (Stored r) = 1"
| "store_left (Returned r) = 0"

definition turns :: "nat \<Rightarrow> lock_sys \<Rightarrow> lock_sys \<Rightarrow> bool" where
  "turns t s s' \<longleftrightarrow> store_left (ls_caller s' t) < store_left (ls_caller s t) \<and>
     ls_caller s' = (ls_caller s)(t := ls_caller s' t)"

lemma lock_step_turns: "lock_step shortcut handle call s s' \<Longrightarrow> \<exists>t. turns t s s'"
  by (induction rule: lock_step.induct) (auto simp: turns_def)

lemma store_left_le: "store_left c \<le> 6"
  by (cases c) auto

text \<open>The handle that holds the lock is that of a caller inside: of the one that has taken it.\<close>

lemma lock_owner_inside:
  assumes "lock_reach shortcut handle call m0 s" "ls_owner s = Some h"
  shows "\<exists>t. in_section (ls_caller s t) \<and> handle t = h"
  using assms
proof (induction arbitrary: h)
  case start
  then show ?case by (simp add: lock_init_def)
next
  case (step s s')
  have keeps: "\<exists>t. in_section (ls_caller s' t) \<and> handle t = h"
    if "ls_owner s = Some h" "\<And>u. in_section (ls_caller s u) \<Longrightarrow> handle u = h \<Longrightarrow> in_section (ls_caller s' u)"
    using step.IH that by blast
  from step.hyps(2) show ?case
  proof cases
    case (acquire t)
    with step.prems show ?thesis by (intro exI [of _ t]) auto
  next
    case (release t r)
    with step.prems have "ls_owner s = Some h" "handle t \<noteq> h" by (auto split: if_splits)
    with release show ?thesis by (intro keeps) auto
  qed ((rule keeps; insert step.prems; auto split: if_splits)+)
qed

text \<open>A caller inside is never stuck, and one that waits can enter unless somebody else is inside.\<close>

lemma inside_moves:
  assumes "in_section (ls_caller s t)"
  shows "\<exists>s'. lock_step shortcut handle call s s' \<and> turns t s s'"
proof (cases "ls_caller s t")
  case Entered
  show ?thesis by (insert Entered, intro exI conjI, erule load_lost) (simp add: turns_def)
next
  case (Loaded lost m)
  obtain m' r where run: "run_call (call t) m = (m', r)" by fastforce
  show ?thesis by (insert Loaded run, intro exI conjI, erule (1) open_tmp) (simp add: turns_def)
next
  case (Writing lost m r)
  show ?thesis
  proof (cases "ls_tmp s = Partial t")
    case True
    show ?thesis by (insert Writing True, intro exI conjI, erule (1) write_tmp) (simp add: turns_def)
  next
    case False
    show ?thesis by (insert Writing False, intro exI conjI, erule (1) write_disturbed) (simp add: turns_def)
  qed
next
  case (Written lost m r)
  show ?thesis
  proof (cases "ls_tmp s = Absent")
    case True
    have "lock_step shortcut handle call s (moved t (Stored (Inl ErrUnknownToken)) s)"
      using Written by (intro io_fails [of s t lost m r]) simp
    with Written show ?thesis by (intro exI conjI) (assumption, simp add: turns_def)
  next
    case False
    show ?thesis by (insert Written False, intro exI conjI, erule (1) rename) (simp add: turns_def)
  qed
next
  case (Stored r)
  show ?thesis by (insert Stored, intro exI conjI, erule release) (simp add: turns_def)
qed (use assms in auto)

lemma waiting_moves:
  assumes "lock_reach True handle call m0 s" "ls_caller s t = Waiting"
  shows "\<exists>s' u. lock_step True handle call s s' \<and> turns u s s' \<and>
    (in_section (ls_caller s u) \<or> u = t \<and> ls_caller s' t = Entered)"
proof (cases "ls_locked s (handle t)")
  case True
  from reenter [of True s t handle, OF _ assms(2) True] assms(2) show ?thesis
    by (intro exI [of _ "moved t Entered (s\<lparr>ls_together := True\<rparr>)"] exI [of _ t]) (simp add: turns_def)
next
  case False
  show ?thesis
  proof (cases "ls_owner s")
    case None
    from acquire [of s t handle, OF assms(2) False None] assms(2) show ?thesis
      by (intro exI [of _ "moved t Entered (s\<lparr>ls_locked := (ls_locked s)(handle t := True), ls_owner := Some (handle t)\<rparr>)"]
          exI [of _ t]) (simp add: turns_def)
  next
    case (Some h)
    with lock_owner_inside [OF assms(1)] obtain u where "in_section (ls_caller s u)" by blast
    with inside_moves show ?thesis by blast
  qed
qed

section \<open>Properties\<close>

lemma linearized:
  assumes "lock_lin call m0 s" "ls_caller s t = Returned (Inr x)"
  shows "verdict call m0 (ls_log s) t = Some (Inr x)"
  using lock_linD(4) [OF assms(1), of t] assms(2)
  by (cases "verdict call m0 (ls_log s) t") (auto simp: logged_None)

lemma lock_step_log:
  "lock_step shortcut handle call s s' \<Longrightarrow>
     ls_log s' = ls_log s \<or> (\<exists>t lost. ls_log s' = (t, lost) # ls_log s \<and> in_section (ls_caller s t))"
  by (induction rule: lock_step.induct) auto

text \<open>
  C24: as long as the lock excludes, concurrent store calls are linearizable. Take any number of
  callers of the store, on any handles, in any interleaving of their locking, reading, writing and
  renaming, under any I/O failure; and suppose that the lock excludes, or only that so far nobody
  has come in by the short cut of a handle already locked. Then the file is whole, and it is what
  the calls that renamed their map over it would have left, run one after another, where a call
  whose open had failed starts from an empty store (the very map that \<^verbatim>\<open>read\<close> then returns); a
  caller that returned with success got exactly the answer of that sequential run, and so did a
  caller that is in it and was refused; a call that has failed is not in it; and each call in it
  takes effect at one moment while it is inside, after all those before it.
\<close>

theorem store_linearizable:
  assumes "lock_reach shortcut handle call m0 s" "exclusive shortcut handle \<or> \<not> ls_together s"
  shows "ls_file s = Whole (replay call m0 (ls_log s)) \<and> distinct (map fst (ls_log s)) \<and>
    (\<forall>t x. ls_caller s t = Returned (Inr x) \<longrightarrow> verdict call m0 (ls_log s) t = Some (Inr x)) \<and>
    (\<forall>t r. verdict call m0 (ls_log s) t = Some r \<longrightarrow> ls_caller s t \<in> {Stored r, Returned r}) \<and>
    (\<forall>s'. lock_step shortcut handle call s s' \<longrightarrow> ls_log s' = ls_log s \<or>
       (\<exists>t lost. ls_log s' = (t, lost) # ls_log s \<and> in_section (ls_caller s t)))"
proof -
  have "\<not> ls_together s" using exclusive_apart [OF assms(1)] assms(2) by blast
  then have lin: "lock_lin call m0 s" using lock_reach_inv [OF assms(1)] by blast
  have "ls_caller s t \<in> {Stored r, Returned r}" if "verdict call m0 (ls_log s) t = Some r" for t r
    using lock_linD(4) [OF lin, of t] that by (simp add: logged_None)
  then show ?thesis
    using lock_linD(1,2) [OF lin] linearized [OF lin] lock_step_log [of shortcut handle call s] by blast
qed

text \<open>Without a second issue, a token is gone after its successful redemption.\<close>

lemma run_call_keeps_gone:
  "m v = None \<Longrightarrow> (\<forall>role ttl now. c \<noteq> CallIssue v role ttl now) \<Longrightarrow> fst (run_call c m) v = None"
  by (cases c) (auto simp: issue_fn_def consume_fn_def split: option.splits)

lemma start_map_gone: "m v = None \<Longrightarrow> start_map lost m v = None"
  by (simp add: start_map_def)

lemma redeemed_gone:
  "(\<forall>u role ttl now. call u \<noteq> CallIssue v role ttl now) \<Longrightarrow> call t = CallConsume v now \<Longrightarrow>
     verdict call m0 log t = Some (Inr role) \<Longrightarrow> replay call m0 log v = None"
proof (induction log)
  case (Cons p log)
  obtain u lost where p: "p = (u, lost)" by fastforce
  show ?case
  proof (cases "u = t")
    case True
    with Cons.prems p show ?thesis by (auto simp: consume_fn_def split: option.splits)
  next
    case False
    with Cons p show ?thesis by (auto intro!: run_call_keeps_gone start_map_gone)
  qed
qed simp

lemma verdict_once:
  "(\<forall>u role ttl now. call u \<noteq> CallIssue v role ttl now) \<Longrightarrow>
     call t = CallConsume v now \<Longrightarrow> call u = CallConsume v now' \<Longrightarrow>
     verdict call m0 log t = Some (Inr r) \<Longrightarrow> verdict call m0 log u = Some (Inr r') \<Longrightarrow> t = u"
proof (induction log)
  case (Cons p log)
  obtain w lost where p: "p = (w, lost)" by fastforce
  have gone: "start_map l (replay call m0 log) v = None"
    if "call x = CallConsume v n" "verdict call m0 log x = Some (Inr y)" for x n y l
    using redeemed_gone [of call v x n] that Cons.prems(1) by (blast intro: start_map_gone)
  show ?case
    using Cons gone [of t] gone [of u] p by (auto simp: consume_fn_def split: if_splits)
qed simp

lemma lock_step_to:
  "lock_step shortcut handle call s s1 \<Longrightarrow> s1 = s2 \<Longrightarrow> lock_step shortcut handle call s s2"
  by simp

text \<open>A caller that has the map in hand replaces the file, when the temporary one is left to it.\<close>

lemma replaces:
  assumes R: "lock_reach shortcut handle call m0 s" and at: "ls_caller s t = Loaded lost m"
    and run: "run_call (call t) m = (m', r)"
  shows "lock_reach shortcut handle call m0
    (moved t (Stored r) (s\<lparr>ls_file := Whole m', ls_tmp := Absent, ls_log := (t, lost) # ls_log s\<rparr>))"
proof -
  note next_state = lock_reach.step [of shortcut handle call m0]
  let ?a = "moved t (Writing lost m' r) (s\<lparr>ls_tmp := Partial t\<rparr>)"
  let ?b = "moved t (Written lost m' r) (?a\<lparr>ls_tmp := Whole m'\<rparr>)"
  from next_state [OF R lock_step.open_tmp [of s t lost m call m' r, OF at run]]
  have "lock_reach shortcut handle call m0 ?a" .
  from next_state [OF this lock_step.write_tmp [of ?a t lost m' r]]
  have "lock_reach shortcut handle call m0 ?b" by simp
  from next_state [OF this lock_step.rename [of ?b t lost m' r]]
  show ?thesis by (simp add: moved_def)
qed

text \<open>One caller's turn with the store to itself, from taking the lock to its answer.\<close>

lemma solo_turn:
  assumes R: "lock_reach shortcut handle call m0 s"
    and free: "ls_caller s t = Waiting" "\<not> ls_locked s (handle t)" "ls_owner s = None" "ls_file s = Whole m"
    and run: "run_call (call t) m = (m', r)"
  shows "\<exists>s'. lock_reach shortcut handle call m0 s' \<and> ls_file s' = Whole m' \<and> ls_owner s' = None \<and>
    ls_locked s' = ls_locked s \<and> ls_caller s' = (ls_caller s)(t := Returned r) \<and>
    ls_log s' = (t, False) # ls_log s \<and> ls_together s' = ls_together s"
proof -
  note next_state = lock_reach.step [of shortcut handle call m0]
  let ?a = "moved t Entered (s\<lparr>ls_locked := (ls_locked s)(handle t := True), ls_owner := Some (handle t)\<rparr>)"
  let ?b = "moved t (Loaded False m) ?a"
  let ?c = "moved t (Stored r) (?b\<lparr>ls_file := Whole m', ls_tmp := Absent, ls_log := (t, False) # ls_log ?b\<rparr>)"
  let ?d = "moved t (Returned r) (?c\<lparr>ls_locked := (ls_locked ?c)(handle t := False),
      ls_owner := (if ls_owner ?c = Some (handle t) then None else ls_owner ?c)\<rparr>)"
  from next_state [OF R lock_step.acquire [of s t handle, OF free(1-3)]]
  have "lock_reach shortcut handle call m0 ?a" .
  from next_state [OF this lock_step.load [of ?a t m]] free(4)
  have "lock_reach shortcut handle call m0 ?b" by simp
  from replaces [OF this, of t False m m' r] run have "lock_reach shortcut handle call m0 ?c" by simp
  from next_state [OF this lock_step.release [of ?c t r]]
  have "lock_reach shortcut handle call m0 ?d" by simp
  with free(2) show ?thesis by (intro exI [of _ ?d]) (simp add: fun_upd_idem)
qed

text \<open>
  Two callers in step, on one handle with the short cut: both enter, both read, both replace, both
  return, and both have the verdict that one of them should have had.
\<close>

lemma shared_run_ends:
  assumes h: "handle 0 = h" "handle 1 = h"
    and run: "run_call (call 0) m = (m', r)" "run_call (call 1) m = (m', q)"
  shows "\<exists>s. lock_reach True handle call m s \<and> ls_caller s 0 = Returned r \<and> ls_caller s 1 = Returned q"
proof -
  note next_state = lock_reach.step [of True handle call m]
  let ?s = "lock_init m"
  let ?a = "moved 0 Entered (?s\<lparr>ls_locked := (ls_locked ?s)(handle 0 := True), ls_owner := Some (handle 0)\<rparr>)"
  let ?b = "moved 1 Entered (?a\<lparr>ls_together := True\<rparr>)"
  let ?c = "moved 0 (Loaded False m) ?b"
  let ?d = "moved 1 (Loaded False m) ?c"
  let ?e = "moved 0 (Stored r) (?d\<lparr>ls_file := Whole m', ls_tmp := Absent, ls_log := (0, False) # ls_log ?d\<rparr>)"
  let ?f = "moved 1 (Stored q) (?e\<lparr>ls_file := Whole m', ls_tmp := Absent, ls_log := (1, False) # ls_log ?e\<rparr>)"
  have a: "ls_file ?a = Whole m" "ls_caller ?s 0 = Waiting" "\<not> ls_locked ?s (handle 0)" "ls_owner ?s = None"
    by (simp_all add: lock_init_def)
  from next_state [OF lock_reach.start lock_step.acquire [of ?s 0 handle, OF a(2-4)]]
  have "lock_reach True handle call m ?a" .
  from next_state [OF this lock_step.reenter [of True ?a 1 handle]] h
  have "lock_reach True handle call m ?b" by (simp add: lock_init_def)
  from next_state [OF this lock_step.load [of ?b 0 m]] a(1)
  have "lock_reach True handle call m ?c" by simp
  from next_state [OF this lock_step.load [of ?c 1 m]] a(1)
  have "lock_reach True handle call m ?d" by simp
  from replaces [OF this, of 0 False m m' r] run(1) have "lock_reach True handle call m ?e" by simp
  from replaces [OF this, of 1 False m m' q] run(2) have f: "lock_reach True handle call m ?f" by simp
  let ?g = "moved 0 (Returned r) (?f\<lparr>ls_locked := (ls_locked ?f)(handle 0 := False),
      ls_owner := (if ls_owner ?f = Some (handle 0) then None else ls_owner ?f)\<rparr>)"
  from next_state [OF f lock_step.release [of ?f 0 r]] have g: "lock_reach True handle call m ?g" by simp
  from next_state [OF g lock_step.release [of ?g 1 q]] show ?thesis
    by (intro exI conjI) (assumption | simp)+
qed

section \<open>The property at a concrete input\<close>

text \<open>Two callers with the short cut and one handle, one after the other: the second is refused.\<close>

lemma two_turns:
  assumes "call 0 = CallConsume v n" "call 1 = CallConsume v n'" "m v = Some rec" "n \<le> Expiry rec"
  shows "\<exists>s. lock_reach True handle call m s \<and> \<not> ls_together s \<and> ls_log s = [(1, False), (0, False)] \<and>
    ls_caller s 0 = Returned (Inr (Role rec)) \<and> ls_caller s 1 = Returned (Inl ErrUnknownToken)"
proof -
  have i: "ls_caller (lock_init m) t = Waiting" "\<not> ls_locked (lock_init m) h" "ls_owner (lock_init m) = None"
    "ls_file (lock_init m) = Whole m" "ls_log (lock_init m) = []" "\<not> ls_together (lock_init m)" for t h
    by (simp_all add: lock_init_def)
  have run: "run_call (call 0) m = (m(v := None), Inr (Role rec))"
    "run_call (call 1) (m(v := None)) = (m(v := None), Inl ErrUnknownToken)"
    using assms by (simp_all add: consume_fn_def)
  from solo_turn [of True handle call m "lock_init m" 0, OF lock_reach.start i(1-4) run(1)] obtain s where s:
    "lock_reach True handle call m s" "ls_file s = Whole (m(v := None))" "ls_owner s = None"
    "ls_locked s = ls_locked (lock_init m)" "ls_caller s = (ls_caller (lock_init m))(0 := Returned (Inr (Role rec)))"
    "ls_log s = [(0, False)]" "\<not> ls_together s"
    using i(5,6) by auto
  have w: "ls_caller s 1 = Waiting" "\<not> ls_locked s (handle 1)"
    using s(4,5) i(1,2) by simp_all
  from solo_turn [of True handle call m s 1, OF s(1) w s(3,2) run(2)] s(5-7) show ?thesis by auto
qed

theorem store_linearizable_witness:
  "\<exists>log. distinct (map fst log) \<and>
     verdict (\<lambda>_. CallConsume ''tok'' 5) [''tok'' \<mapsto> \<lparr>Role = ''admin'', Expiry = 10\<rparr>] log 0 = Some (Inr ''admin'') \<and>
     verdict (\<lambda>_. CallConsume ''tok'' 5) [''tok'' \<mapsto> \<lparr>Role = ''admin'', Expiry = 10\<rparr>] log 1 = Some (Inl ErrUnknownToken)"
proof -
  obtain s where s: "lock_reach True (\<lambda>_. 0) (\<lambda>_. CallConsume ''tok'' 5)
      [''tok'' \<mapsto> \<lparr>Role = ''admin'', Expiry = 10\<rparr>] s" "\<not> ls_together s" "ls_log s = [(1, False), (0, False)]"
      "ls_caller s 0 = Returned (Inr ''admin'')"
    using two_turns [of "\<lambda>_. CallConsume ''tok'' 5" "''tok''" 5 5 "[''tok'' \<mapsto> \<lparr>Role = ''admin'', Expiry = 10\<rparr>]"
        "\<lparr>Role = ''admin'', Expiry = 10\<rparr>" "\<lambda>_. 0"] by auto
  from store_linearizable [OF s(1)] s(2-4) show ?thesis
    by (intro exI [of _ "[(1, False), (0, False)]"]) (auto simp: start_map_def consume_fn_def)
qed

end
