(* ===== verification/Execute.thy ===== *)
theory Execute
  imports Rexec_Prelude
begin

text \<open>
  \<^verbatim>\<open>internal/execute/execute.go\<close>: running a command and streaming its output through an \<open>emit\<close>
  callback. The program that runs is a parameter: what a start of the command does, which pieces
  its two output pipes deliver (in the order in which the writers take their mutex), and how it
  exits. \<open>exec_Run\<close> is what \<^verbatim>\<open>exec.Cmd.Run\<close> documents of the pieces and of the error it returns.
\<close>

section \<open>Data\<close>

text \<open>The environment of a \<^verbatim>\<open>Spec\<close> is a Go map; here its pairs, in the order a range visits them.\<close>

record Spec =
  Command :: string
  spec_Args :: "string list"
  WorkingDir :: string
  spec_Env :: "(string \<times> string) list"

record Chunk =
  c_Stdout :: "bytes option"
  c_Stderr :: "bytes option"

text \<open>Started: the pieces written (\<open>True\<close> for stderr), the exit code (-1 for a signal) and the
  error of the context, if it was cancelled.\<close>

datatype proc =
    StartError string
  | Started "(bool \<times> bytes) list" int "string option"

type_synonym os_exec = "string \<Rightarrow> string list \<Rightarrow> string \<Rightarrow> string list \<Rightarrow> proc"

datatype run_error = ExitError int | OtherError string

datatype exec_error = ExecEmptyCommand | ExecRun string string

section \<open>exec.Cmd.Run\<close>

text \<open>
  The two copying goroutines: a stream whose writer failed is not copied further; the first
  failure is kept. The state is \<open>(stdout failed, stderr failed, first error)\<close>.
\<close>

fun copy_output ::
  "(bool \<Rightarrow> bytes \<Rightarrow> 's \<Rightarrow> 's \<times> string option) \<Rightarrow> (bool \<times> bytes) list \<Rightarrow>
   bool \<times> bool \<times> string option \<Rightarrow> 's \<Rightarrow> 's \<times> string option" where
  "copy_output write [] (fo, fe, err) s = (s, err)"
| "copy_output write ((stderr, p) # ps) (fo, fe, err) s =
     (if (if stderr then fe else fo) then copy_output write ps (fo, fe, err) s
      else case write stderr p s of
        (s', None) \<Rightarrow> copy_output write ps (fo, fe, err) s'
      | (s', Some e) \<Rightarrow>
          copy_output write ps
            (fo \<or> \<not> stderr, fe \<or> stderr, case err of None \<Rightarrow> Some e | Some e' \<Rightarrow> Some e') s')"

text \<open>An unsuccessful exit takes precedence over the context and over a failing writer.\<close>

definition exec_Run ::
  "proc \<Rightarrow> (bool \<Rightarrow> bytes \<Rightarrow> 's \<Rightarrow> 's \<times> string option) \<Rightarrow> 's \<Rightarrow> 's \<times> run_error option" where
  "exec_Run p write s =
     (case p of
        StartError e \<Rightarrow> (s, Some (OtherError e))
      | Started pieces code ctxErr \<Rightarrow>
          (case copy_output write pieces (False, False, None) s of
             (s', copyErr) \<Rightarrow>
               (s', if code \<noteq> 0 then Some (ExitError code)
                    else case ctxErr of
                      Some e \<Rightarrow> Some (OtherError e)
                    | None \<Rightarrow> map_option OtherError copyErr)))"

section \<open>Operations\<close>

definition mergeEnv :: "string list \<Rightarrow> (string \<times> string) list \<Rightarrow> string list" where
  "mergeEnv environ extra = environ @ map (\<lambda>(k, v). k @ ''='' @ v) extra"

definition chunkWriter_Write ::
  "(Chunk \<Rightarrow> 's \<Rightarrow> 's \<times> string option) \<Rightarrow> bool \<Rightarrow> bytes \<Rightarrow> 's \<Rightarrow> 's \<times> string option" where
  "chunkWriter_Write emit stderr p s =
     (let c = (if stderr then \<lparr>c_Stdout = None, c_Stderr = Some p\<rparr>
               else \<lparr>c_Stdout = Some p, c_Stderr = None\<rparr>)
      in emit c s)"

definition execute_Run ::
  "os_exec \<Rightarrow> string list \<Rightarrow> Spec \<Rightarrow> (Chunk \<Rightarrow> 's \<Rightarrow> 's \<times> string option) \<Rightarrow> 's \<Rightarrow>
   's \<times> (exec_error + int)" where
  "execute_Run ex environ spec emit s =
     (if Command spec = [] then (s, Inl ExecEmptyCommand)
      else case exec_Run (ex (Command spec) (spec_Args spec) (WorkingDir spec) (mergeEnv environ (spec_Env spec)))
          (chunkWriter_Write emit) s of
        (s', None) \<Rightarrow> (s', Inr 0)
      | (s', Some (ExitError code)) \<Rightarrow> (s', Inr code)
      | (s', Some (OtherError e)) \<Rightarrow> (s', Inl (ExecRun (Command spec) e)))"

section \<open>Lemmas\<close>

definition chunk_of :: "bool \<times> bytes \<Rightarrow> Chunk" where
  "chunk_of w = (case w of (stderr, p) \<Rightarrow>
     if stderr then \<lparr>c_Stdout = None, c_Stderr = Some p\<rparr> else \<lparr>c_Stdout = Some p, c_Stderr = None\<rparr>)"

lemma chunkWriter_Write_eq: "chunkWriter_Write emit stderr p s = emit (chunk_of (stderr, p)) s"
  by (simp add: chunkWriter_Write_def chunk_of_def Let_def)

text \<open>A writer that never fails sees every piece, in order.\<close>

lemma copy_output_all:
  assumes "\<And>e p s. snd (write e p s) = None"
  shows "copy_output write ps (False, False, None) s =
    (fold (\<lambda>(e, p) s. fst (write e p s)) ps s, None)"
proof (induction ps arbitrary: s)
  case (Cons w ps)
  obtain e p where w: "w = (e, p)" by fastforce
  obtain s' where "write e p s = (s', None)" using assms [of e p s] by (metis prod.collapse)
  with Cons w show ?case by simp
qed simp

text \<open>Two writers that agree on the pieces give the same run.\<close>

lemma copy_output_cong:
  assumes "\<And>e p s. write e p s = write' e p s"
  shows "copy_output write ps st s = copy_output write' ps st s"
proof -
  have "write = write'" using assms by (simp add: fun_eq_iff)
  then show ?thesis by simp
qed

text \<open>What a child process reads for a variable: the last entry for its name counts.\<close>

definition child_getenv :: "string list \<Rightarrow> string \<Rightarrow> string option" where
  "child_getenv env k =
     map_option (drop (length k + 1)) (find (\<lambda>e. prefix (k @ ''='') e) (rev env))"

lemma find_append: "find P (xs @ ys) = (case find P xs of None \<Rightarrow> find P ys | Some x \<Rightarrow> Some x)"
  by (induction xs) auto

lemma prefix_eq_key:
  "CHR ''='' \<notin> set k \<Longrightarrow> CHR ''='' \<notin> set k' \<Longrightarrow> prefix (k @ ''='') (k' @ ''='' @ v) \<longleftrightarrow> k = k'"
proof (induction k arbitrary: k')
  case Nil
  then show ?case by (cases k') auto
next
  case (Cons c k)
  then show ?case by (cases k') auto
qed

lemma find_extra:
  assumes "CHR ''='' \<notin> set k" "\<forall>(k', v) \<in> set extra. CHR ''='' \<notin> set k'"
  shows "find (\<lambda>e. prefix (k @ ''='') e) (map (\<lambda>(k, v). k @ ''='' @ v) extra) =
    map_option (\<lambda>v. k @ ''='' @ v) (map_of extra k)"
  using assms(2)
proof (induction extra)
  case (Cons p extra)
  obtain k' v where p: "p = (k', v)" by fastforce
  with Cons.prems have "CHR ''='' \<notin> set k'" by simp
  with Cons p show ?case using prefix_eq_key [OF assms(1), of k' v] by auto
qed simp

lemma map_of_rev_distinct:
  assumes "distinct (map fst xs)"
  shows "map_of (rev xs) = map_of xs"
proof
  fix k
  have "distinct (map fst (rev xs))" using assms by (simp add: rev_map [symmetric])
  then have "map_of (rev xs) k = Some v \<longleftrightarrow> map_of xs k = Some v" for v
    using assms by (simp add: map_of_eq_Some_iff)
  then show "map_of (rev xs) k = map_of xs k"
    by (metis not_None_eq)
qed

section \<open>Properties\<close>

text \<open>
  C32: the command's own behaviour comes through unchanged when nothing fails. With a callback
  that records its chunks, a started command has every piece of its output emitted once, in
  order and on its own stream; a non-zero exit code is a result and not an error, and only a
  failed start or a cancelled context is an error.
\<close>

theorem run_output_faithful:
  "execute_Run ex environ spec (\<lambda>c out. (out @ [c], None)) out =
     (if Command spec = [] then (out, Inl ExecEmptyCommand)
      else case ex (Command spec) (spec_Args spec) (WorkingDir spec) (mergeEnv environ (spec_Env spec)) of
        StartError e \<Rightarrow> (out, Inl (ExecRun (Command spec) e))
      | Started pieces code ctx \<Rightarrow>
          (out @ map chunk_of pieces,
           if code = 0 \<and> ctx \<noteq> None then Inl (ExecRun (Command spec) (the ctx)) else Inr code))"
proof -
  have "fold (\<lambda>(e, p) s. s @ [chunk_of (e, p)]) ps s = s @ map chunk_of ps" for ps s
    by (induction ps arbitrary: s) auto
  then have "copy_output (chunkWriter_Write (\<lambda>c out. (out @ [c], None))) ps (False, False, None) s =
      (s @ map chunk_of ps, None)" for ps s
    by (subst copy_output_all) (simp_all add: chunkWriter_Write_eq)
  then show ?thesis
    by (auto simp: execute_Run_def exec_Run_def split: proc.splits option.splits)
qed

text \<open>
  C33: exactly one of the two fields of a chunk is set: two callbacks that agree on such chunks
  cannot be told apart by a run, so no other chunk is ever passed to the callback.
\<close>

theorem chunk_exactly_one:
  assumes "\<And>c s. (c_Stdout c = None) \<noteq> (c_Stderr c = None) \<Longrightarrow> emit c s = emit' c s"
  shows "execute_Run ex environ spec emit s = execute_Run ex environ spec emit' s"
proof -
  have "chunkWriter_Write emit e p s = chunkWriter_Write emit' e p s" for e p s
    using assms by (simp add: chunkWriter_Write_eq chunk_of_def)
  then have "chunkWriter_Write emit = chunkWriter_Write emit'" by (simp add: fun_eq_iff)
  then show ?thesis by (simp add: execute_Run_def)
qed

theorem chunk_exactly_one_witness:
  "execute_Run (\<lambda>_ _ _ _. Started [(False, ''hi''), (True, ''oops'')] 3 None) [] \<lparr>Command = ''sh'',
       spec_Args = [], WorkingDir = '''', spec_Env = []\<rparr> (\<lambda>c n. (n + 1, None)) 0 =
   execute_Run (\<lambda>_ _ _ _. Started [(False, ''hi''), (True, ''oops'')] 3 None) [] \<lparr>Command = ''sh'',
       spec_Args = [], WorkingDir = '''', spec_Env = []\<rparr>
     (\<lambda>c n. if c_Stdout c = None \<and> c_Stderr c = None then (0, None) else (n + (1 :: nat), None)) 0"
  by (rule chunk_exactly_one) auto

text \<open>
  Fact: a failing callback stops its stream and never hides a failing command: for a command that
  writes to one of its streams, once the callback has refused a piece, no later piece is offered
  to it; the run then reports an error if the command itself succeeded, and its non-zero exit
  code otherwise.
\<close>

theorem failing_emit_result:
  assumes "Command spec \<noteq> []"
    and "ex (Command spec) (spec_Args spec) (WorkingDir spec) (mergeEnv environ (spec_Env spec)) =
      Started pieces code None"
    and "pieces = before @ (stderr, p) # after" "list_all (\<lambda>(e, _). e = stderr) pieces"
    and "\<And>c (n::nat). emit c n = (n + 1, if n < length before then None else Some e)"
  shows "execute_Run ex environ spec emit 0 =
    (length before + 1, if code = 0 then Inl (ExecRun (Command spec) e) else Inr code)"
proof -
  have skip: "copy_output w ps (fo, fe, err) s = (s, err)"
    if "list_all (\<lambda>(e, _). e = stderr) ps" "if stderr then fe else fo" for w ps fo fe err and s :: nat
    using that by (induction ps) auto
  have go: "copy_output (chunkWriter_Write emit) (ps @ (stderr, p) # after) (False, False, None) n =
      (length before + 1, Some e)"
    if "list_all (\<lambda>(e, _). e = stderr) (ps @ (stderr, p) # after)" "n + length ps = length before" for ps n
    using that
  proof (induction ps arbitrary: n)
    case Nil
    then show ?case using skip by (auto simp: chunkWriter_Write_eq assms(5))
  next
    case (Cons w ps)
    obtain q where "w = (stderr, q)" using Cons.prems by (cases w) auto
    with Cons show ?case by (auto simp: chunkWriter_Write_eq assms(5))
  qed
  from go [of before 0] assms show ?thesis
    by (simp add: execute_Run_def exec_Run_def)
qed

theorem failing_emit_result_witness:
  "execute_Run (\<lambda>_ _ _ _. Started [(False, ''a''), (False, ''b''), (False, ''c'')] 0 None) []
     \<lparr>Command = ''sh'', spec_Args = [], WorkingDir = '''', spec_Env = []\<rparr>
     (\<lambda>c n. (n + 1, if n < 1 then None else Some ''closed'')) (0 :: nat) = (2, Inl (ExecRun ''sh'' ''closed''))"
proof -
  have "execute_Run (\<lambda>_ _ _ _. Started [(False, ''a''), (False, ''b''), (False, ''c'')] 0 None) []
     \<lparr>Command = ''sh'', spec_Args = [], WorkingDir = '''', spec_Env = []\<rparr>
     (\<lambda>c n. (n + 1, if n < 1 then None else Some ''closed'')) (0 :: nat) =
    (length [(False, ''a'')] + 1, if (0 :: int) = 0 then Inl (ExecRun (Command \<lparr>Command = ''sh'', spec_Args = [], WorkingDir = '''', spec_Env = []\<rparr>) ''closed'') else Inr 0)"
    by (rule failing_emit_result [where p = "''b''" and after = "[(False, ''c'')]" and stderr = False],
        simp, simp, simp, simp, simp)
  then show ?thesis by simp
qed
text \<open>
  Fact: the requested environment overrides the agent's: whatever the order in which the map is
  visited, the child reads the requested value of every requested variable, and the agent's
  value of every other one.
\<close>

theorem merge_env_overrides:
  assumes "distinct (map fst extra)" "\<forall>(k', v) \<in> set extra. CHR ''='' \<notin> set k'" "CHR ''='' \<notin> set k"
  shows "child_getenv (mergeEnv environ extra) k =
    (case map_of extra k of Some v \<Rightarrow> Some v | None \<Rightarrow> child_getenv environ k)"
proof -
  have "\<forall>(k', v) \<in> set (rev extra). CHR ''='' \<notin> set k'" using assms(2) by auto
  from find_extra [OF assms(3) this] map_of_rev_distinct [OF assms(1)]
  have "find (\<lambda>e. prefix (k @ ''='') e) (rev (map (\<lambda>(k, v). k @ ''='' @ v) extra)) =
      map_option (\<lambda>v. k @ ''='' @ v) (map_of extra k)"
    by (simp add: rev_map)
  then show ?thesis
    by (auto simp: child_getenv_def mergeEnv_def find_append split: option.splits)
qed

theorem merge_env_overrides_witness:
  "child_getenv (mergeEnv [''HOME=/root'', ''PATH=/bin''] [(''PATH'', ''/opt'')]) ''PATH'' = Some ''/opt''"
  using merge_env_overrides [of "[(''PATH'', ''/opt'')]" "''PATH''" "[''HOME=/root'', ''PATH=/bin'']"] by simp

end
