(* ===== verification/X509.thy ===== *)
theory X509
  imports Go_Encoding
begin

unbundle bit_operations_syntax

text \<open>
  What the program uses of \<^verbatim>\<open>crypto/x509\<close>, \<^verbatim>\<open>encoding/pem\<close>, \<^verbatim>\<open>crypto/ed25519\<close> and
  \<^verbatim>\<open>crypto/sha256\<close>. The data types carry the fields the program sets or reads. The
  algorithms are the fields of a record, a parameter of every definition that uses them;
  \<open>x509_laws\<close> states their documented behaviour: what was encoded decodes again, and a created
  certificate or request parses to one with the fields of its template. Nothing is assumed of
  texts the program did not create itself.
\<close>

section \<open>Data\<close>

record pkix_name =
  CommonName :: string
  Organization :: "string list"

datatype ext_key_usage =
    ExtKeyUsageAny | ExtKeyUsageServerAuth | ExtKeyUsageClientAuth | ExtKeyUsageOther nat

text \<open>\<^verbatim>\<open>x509.KeyUsage\<close> is a bit mask; the bits the program sets.\<close>

definition KeyUsageDigitalSignature :: nat where "KeyUsageDigitalSignature = 1"
definition KeyUsageCertSign :: nat where "KeyUsageCertSign = 32"
definition KeyUsageCRLSign :: nat where "KeyUsageCRLSign = 64"

lemmas key_usage_defs = KeyUsageDigitalSignature_def KeyUsageCertSign_def KeyUsageCRLSign_def

record certificate =
  SerialNumber :: nat
  Subject :: pkix_name
  NotBefore :: instant
  NotAfter :: instant
  KeyUsage :: nat
  ExtKeyUsage :: "ext_key_usage list"
  BasicConstraintsValid :: bool
  IsCA :: bool
  MaxPathLenZero :: bool
  DNSNames :: "string list"
  IPAddresses :: "bytes list"
  PublicKey :: bytes
  Raw :: bytes

text \<open>The zero value of \<^verbatim>\<open>x509.Certificate\<close>, which a composite literal starts from.\<close>

definition zero_certificate :: certificate where
  "zero_certificate = \<lparr>SerialNumber = 0, Subject = \<lparr>CommonName = [], Organization = []\<rparr>,
     NotBefore = 0, NotAfter = 0, KeyUsage = 0, ExtKeyUsage = [], BasicConstraintsValid = False,
     IsCA = False, MaxPathLenZero = False, DNSNames = [], IPAddresses = [], PublicKey = [], Raw = []\<rparr>"

record certificate_request =
  csr_Subject :: pkix_name
  csr_PublicKey :: bytes
  csr_Raw :: bytes

datatype private_key = Ed25519 bytes | OtherKey bytes

record pem_block =
  pem_Type :: string
  pem_Bytes :: bytes

text \<open>The block types the program writes (constants of \<^verbatim>\<open>internal/pki/pki.go\<close>).\<close>

definition blockCert :: string where "blockCert = ''CERTIFICATE''"
definition blockKey :: string where "blockKey = ''PRIVATE KEY''"
definition blockCSR :: string where "blockCSR = ''CERTIFICATE REQUEST''"

section \<open>The algorithms\<close>

record x509_env =
  x_GenerateKey :: "entropy \<Rightarrow> string + bytes \<times> bytes"
  x_Public :: "bytes \<Rightarrow> bytes"
  x_CreateCertificate :: "certificate \<Rightarrow> certificate \<Rightarrow> bytes \<Rightarrow> bytes \<Rightarrow> string + bytes"
  x_ParseCertificate :: "bytes \<Rightarrow> string + certificate"
  x_CheckSignatureFrom :: "certificate \<Rightarrow> certificate \<Rightarrow> bool"
  x_MarshalPKCS8 :: "private_key \<Rightarrow> string + bytes"
  x_ParsePKCS8 :: "bytes \<Rightarrow> string + private_key"
  x_CreateRequest :: "pkix_name \<Rightarrow> bytes \<Rightarrow> string + bytes"
  x_ParseRequest :: "bytes \<Rightarrow> string + certificate_request"
  x_CheckRequest :: "certificate_request \<Rightarrow> string option"
  x_pem_Encode :: "pem_block \<Rightarrow> bytes"
  x_pem_Blocks :: "bytes \<Rightarrow> pem_block list"
  x_sha256 :: "bytes \<Rightarrow> bytes"

text \<open>
  \<open>x_pem_Blocks\<close> is what repeated \<^verbatim>\<open>pem.Decode\<close> finds in a text, one block after the other, until it
  returns nil; a single \<^verbatim>\<open>pem.Decode\<close> gives the first.
\<close>

definition x_pem_Decode :: "x509_env \<Rightarrow> bytes \<Rightarrow> pem_block option" where
  "x_pem_Decode X text = (case x_pem_Blocks X text of [] \<Rightarrow> None | b # bs \<Rightarrow> Some b)"

text \<open>Certificates carry their times in whole seconds.\<close>

definition to_second :: "instant \<Rightarrow> instant" where
  "to_second t = t div time_Second * time_Second"

text \<open>An IPv4 address in its 16-byte form is encoded as 4 bytes.\<close>

definition net_To4 :: "bytes \<Rightarrow> bytes" where
  "net_To4 ip = (if length ip = 16 \<and> take 12 ip = replicate 10 (CHR 0x00) @ [CHR 0xFF, CHR 0xFF]
     then drop 12 ip else ip)"

text \<open>
  A parsed certificate agrees with the template it was made from. The organizations are the
  members of one set in the encoding, so their order is not kept; a template whose basic
  constraints are not marked valid does not make a CA.
\<close>

definition matches_template :: "certificate \<Rightarrow> bytes \<Rightarrow> certificate \<Rightarrow> bool" where
  "matches_template tmpl pub c \<longleftrightarrow>
     SerialNumber c = SerialNumber tmpl \<and>
     CommonName (Subject c) = CommonName (Subject tmpl) \<and>
     set (Organization (Subject c)) = set (Organization (Subject tmpl)) \<and>
     NotBefore c = to_second (NotBefore tmpl) \<and> NotAfter c = to_second (NotAfter tmpl) \<and>
     KeyUsage c = KeyUsage tmpl \<and> ExtKeyUsage c = ExtKeyUsage tmpl \<and>
     BasicConstraintsValid c = BasicConstraintsValid tmpl \<and>
     IsCA c = (BasicConstraintsValid tmpl \<and> IsCA tmpl) \<and>
     MaxPathLenZero c = (BasicConstraintsValid tmpl \<and> IsCA tmpl \<and> MaxPathLenZero tmpl) \<and>
     DNSNames c = DNSNames tmpl \<and> IPAddresses c = map net_To4 (IPAddresses tmpl) \<and>
     PublicKey c = pub"

text \<open>The certificates whose key may sign certificates, as \<^verbatim>\<open>CheckSignatureFrom\<close> requires.\<close>

definition may_sign :: "certificate \<Rightarrow> bool" where
  "may_sign p \<longleftrightarrow> BasicConstraintsValid p \<and> IsCA p \<and> KeyUsage p AND KeyUsageCertSign \<noteq> 0"

definition x509_laws :: "x509_env \<Rightarrow> bool" where
  "x509_laws X \<longleftrightarrow>
     (\<forall>rnd pub priv. x_GenerateKey X rnd = Inr (pub, priv) \<longrightarrow> x_Public X priv = pub) \<and>
     (\<forall>tmpl parent pub priv der. x_CreateCertificate X tmpl parent pub priv = Inr der \<longrightarrow>
        (\<exists>c. x_ParseCertificate X der = Inr c \<and> matches_template tmpl pub c \<and>
           (\<forall>p. may_sign p \<and> PublicKey p = x_Public X priv \<longrightarrow> x_CheckSignatureFrom X p c))) \<and>
     (\<forall>der c. x_ParseCertificate X der = Inr c \<longrightarrow> Raw c = der) \<and>
     (\<forall>k d. x_MarshalPKCS8 X (Ed25519 k) = Inr d \<longrightarrow> x_ParsePKCS8 X d = Inr (Ed25519 k)) \<and>
     (\<forall>n priv d. x_CreateRequest X n priv = Inr d \<longrightarrow>
        (\<exists>r. x_ParseRequest X d = Inr r \<and> csr_PublicKey r = x_Public X priv \<and>
           CommonName (csr_Subject r) = CommonName n \<and> x_CheckRequest X r = None)) \<and>
     (\<forall>b. pem_Type b \<in> {blockCert, blockKey, blockCSR} \<longrightarrow>
        x_pem_Blocks X (x_pem_Encode X b) = [b] \<and> x_pem_Encode X b \<noteq> []) \<and>
     (\<forall>d. length (x_sha256 X d) = 32)"

lemma x509_lawsD_blocks:
  assumes "x509_laws X" "pem_Type b \<in> {blockCert, blockKey, blockCSR}"
  shows "x_pem_Blocks X (x_pem_Encode X b) = [b]" and "x_pem_Encode X b \<noteq> []"
  using assms unfolding x509_laws_def by blast+

lemma x509_lawsD_decode:
  assumes "x509_laws X" "pem_Type b \<in> {blockCert, blockKey, blockCSR}"
  shows "x_pem_Decode X (x_pem_Encode X b) = Some b"
  by (simp only: x_pem_Decode_def x509_lawsD_blocks(1) [OF assms] list.case)

lemma x509_lawsD:
  assumes "x509_laws X"
  shows "x_GenerateKey X rnd = Inr (pub, priv) \<Longrightarrow> x_Public X priv = pub"
    and "x_CreateCertificate X tmpl parent pub priv = Inr der \<Longrightarrow>
      \<exists>c. x_ParseCertificate X der = Inr c \<and> matches_template tmpl pub c \<and>
         (\<forall>p. may_sign p \<and> PublicKey p = x_Public X priv \<longrightarrow> x_CheckSignatureFrom X p c)"
    and "x_ParseCertificate X der = Inr c \<Longrightarrow> Raw c = der"
    and "x_MarshalPKCS8 X (Ed25519 k) = Inr d \<Longrightarrow> x_ParsePKCS8 X d = Inr (Ed25519 k)"
    and "x_CreateRequest X n priv = Inr d \<Longrightarrow>
      \<exists>r. x_ParseRequest X d = Inr r \<and> csr_PublicKey r = x_Public X priv \<and>
         CommonName (csr_Subject r) = CommonName n \<and> x_CheckRequest X r = None"
    and "pem_Type b \<in> {blockCert, blockKey, blockCSR} \<Longrightarrow> x_pem_Decode X (x_pem_Encode X b) = Some b"
    and "pem_Type b \<in> {blockCert, blockKey, blockCSR} \<Longrightarrow> x_pem_Encode X b \<noteq> []"
    and "length (x_sha256 X d) = 32"
    and "pem_Type b \<in> {blockCert, blockKey, blockCSR} \<Longrightarrow> x_pem_Blocks X (x_pem_Encode X b) = [b]"
proof -
  show "pem_Type b \<in> {blockCert, blockKey, blockCSR} \<Longrightarrow> x_pem_Decode X (x_pem_Encode X b) = Some b"
    by (rule x509_lawsD_decode [OF assms])
  show "pem_Type b \<in> {blockCert, blockKey, blockCSR} \<Longrightarrow> x_pem_Encode X b \<noteq> []"
    by (rule x509_lawsD_blocks(2) [OF assms])
  show "pem_Type b \<in> {blockCert, blockKey, blockCSR} \<Longrightarrow> x_pem_Blocks X (x_pem_Encode X b) = [b]"
    by (rule x509_lawsD_blocks(1) [OF assms])
qed (use assms in \<open>unfold x509_laws_def, blast+\<close>)

end
