(* ===== verification/Authz.thy ===== *)
theory Authz
  imports X509
begin

text \<open>
  \<^verbatim>\<open>internal/authz/authz.go\<close>: the role of a caller, read from the Organization of the verified
  client certificate, against the minimum role of the gRPC method. The two interceptors wrap a
  handler; a handler threads the state of the server and answers or fails with a gRPC status.
\<close>

section \<open>Roles\<close>

definition RolePublic :: string where "RolePublic = ''''"
definition RoleReader :: string where "RoleReader = ''rex:reader''"
definition RoleOperator :: string where "RoleOperator = ''rex:operator''"
definition RoleAdmin :: string where "RoleAdmin = ''rex:admin''"

lemmas role_defs = RolePublic_def RoleReader_def RoleOperator_def RoleAdmin_def

definition rank_table :: "string \<rightharpoonup> nat" where
  "rank_table = [RoleReader \<mapsto> 1, RoleOperator \<mapsto> 2, RoleAdmin \<mapsto> 3]"

text \<open>\<^verbatim>\<open>rank[role]\<close>: zero for a role that is not in the map.\<close>

definition rank_of :: "string \<Rightarrow> nat" where
  "rank_of r = map_read 0 rank_table r"

type_synonym Table = "string \<rightharpoonup> string"

fun role_scan :: "string list \<Rightarrow> string \<times> nat \<Rightarrow> string" where
  "role_scan [] (best, bestRank) = best"
| "role_scan (org # orgs) (best, bestRank) =
     (case rank_table org of
        None \<Rightarrow> role_scan orgs (best, bestRank)
      | Some r \<Rightarrow> if bestRank < r then role_scan orgs (org, r) else role_scan orgs (best, bestRank))"

definition RoleFromCert :: "certificate \<Rightarrow> string" where
  "RoleFromCert cert = role_scan (Organization (Subject cert)) (RolePublic, 0)"

definition Allowed :: "string \<Rightarrow> string \<Rightarrow> bool" where
  "Allowed have need \<longleftrightarrow>
     (if need = RolePublic then True else rank_of need \<le> rank_of have \<and> 0 < rank_of have)"

section \<open>The gate\<close>

text \<open>
  What \<^verbatim>\<open>peer.FromContext\<close> finds: no peer, a peer whose auth info is not TLS, or the certificate
  chain of a TLS peer, which the TLS layer has verified against the CA when it is not empty.
\<close>

datatype auth_info = TLSInfo "certificate list" | OtherAuthInfo

type_synonym grpc_context = "auth_info option"

datatype grpc_code = PermissionDenied | Unauthenticated | Internal | Unavailable | Canceled | Unimplemented

text \<open>A status holds its code and its message, kept as the format and its arguments.\<close>

record status =
  st_code :: grpc_code
  st_format :: string
  st_args :: "string list"

definition Errorf :: "grpc_code \<Rightarrow> string \<Rightarrow> string list \<Rightarrow> status" where
  "Errorf c fmt args = \<lparr>st_code = c, st_format = fmt, st_args = args\<rparr>"

definition ErrNoClientCert :: string where
  "ErrNoClientCert = ''authz: no verified client certificate''"

fun roleFromContext :: "grpc_context \<Rightarrow> string + string" where
  "roleFromContext None = Inl ErrNoClientCert"
| "roleFromContext (Some OtherAuthInfo) = Inl ErrNoClientCert"
| "roleFromContext (Some (TLSInfo [])) = Inl ErrNoClientCert"
| "roleFromContext (Some (TLSInfo (c # cs))) = Inr (RoleFromCert c)"

abbreviation not_permitted :: "string \<Rightarrow> status" where
  "not_permitted m \<equiv> Errorf PermissionDenied ''method %s not permitted'' [m]"

abbreviation no_cert :: "string \<Rightarrow> status" where
  "no_cert err \<equiv> Errorf Unauthenticated ''%s'' [err]"

abbreviation insufficient :: "string \<Rightarrow> string \<Rightarrow> status" where
  "insufficient role need \<equiv> Errorf PermissionDenied ''role %q insufficient, need %q'' [role, need]"

definition UnaryInterceptor ::
  "Table \<Rightarrow> grpc_context \<Rightarrow> 'req \<Rightarrow> string \<Rightarrow> (grpc_context \<Rightarrow> 'req \<Rightarrow> 's \<Rightarrow> 's \<times> (status + 'resp)) \<Rightarrow>
   's \<Rightarrow> 's \<times> (status + 'resp)" where
  "UnaryInterceptor table ctx req fullMethod handler s =
     (case table fullMethod of
        None \<Rightarrow> (s, Inl (not_permitted fullMethod))
      | Some need \<Rightarrow>
          if need = RolePublic then handler ctx req s
          else (case roleFromContext ctx of
              Inl err \<Rightarrow> (s, Inl (no_cert err))
            | Inr role \<Rightarrow>
                if \<not> Allowed role need then (s, Inl (insufficient role need))
                else handler ctx req s))"

text \<open>A server stream carries its context; a stream handler reports an optional status.\<close>

definition StreamInterceptor ::
  "Table \<Rightarrow> ('stream \<Rightarrow> grpc_context) \<Rightarrow> 'stream \<Rightarrow> string \<Rightarrow> ('stream \<Rightarrow> 's \<Rightarrow> 's \<times> status option) \<Rightarrow>
   's \<Rightarrow> 's \<times> status option" where
  "StreamInterceptor table Context ss fullMethod handler s =
     (case table fullMethod of
        None \<Rightarrow> (s, Some (not_permitted fullMethod))
      | Some need \<Rightarrow>
          if need = RolePublic then handler ss s
          else (case roleFromContext (Context ss) of
              Inl err \<Rightarrow> (s, Some (no_cert err))
            | Inr role \<Rightarrow>
                if \<not> Allowed role need then (s, Some (insufficient role need))
                else handler ss s))"

definition m_Enroll :: string where "m_Enroll = ''/rexec.v1.Agent/Enroll''"
definition m_Identity :: string where "m_Identity = ''/rexec.v1.Agent/Identity''"
definition m_Info :: string where "m_Info = ''/rexec.v1.Agent/Info''"
definition m_Run :: string where "m_Run = ''/rexec.v1.Agent/Run''"
definition m_Deploy :: string where "m_Deploy = ''/rexec.v1.Agent/Deploy''"

lemmas method_defs = m_Enroll_def m_Identity_def m_Info_def m_Run_def m_Deploy_def

definition AgentTable :: Table where
  "AgentTable =
     [m_Enroll \<mapsto> RolePublic, m_Identity \<mapsto> RoleReader, m_Info \<mapsto> RoleReader,
      m_Run \<mapsto> RoleOperator, m_Deploy \<mapsto> RoleAdmin]"

section \<open>Roles as ranks\<close>

lemma rank_of_simps [simp]:
  "rank_of RolePublic = 0" "rank_of RoleReader = 1" "rank_of RoleOperator = 2" "rank_of RoleAdmin = 3"
  by (simp_all add: rank_of_def rank_table_def role_defs map_read_def)

lemma rank_table_rank: "rank_table r = (if rank_of r = 0 then None else Some (rank_of r))"
  by (simp add: rank_of_def rank_table_def role_defs map_read_def)

lemma rank_of_cases:
  "rank_of r = 0 \<or> r = RoleReader \<or> r = RoleOperator \<or> r = RoleAdmin"
  by (simp add: rank_of_def rank_table_def role_defs map_read_def)

lemma rank_of_bound: "rank_of r \<le> 3"
  using rank_of_cases [of r] by auto

lemma role_scan_max:
  "rank_of best = bestRank \<Longrightarrow>
     bestRank \<le> rank_of (role_scan orgs (best, bestRank)) \<and>
     (\<forall>org \<in> set orgs. rank_of org \<le> rank_of (role_scan orgs (best, bestRank)))"
proof (induction orgs arbitrary: best bestRank)
  case (Cons org orgs)
  show ?case
    using Cons.IH [of org "rank_of org"] Cons.IH [of best bestRank] Cons.prems
    by (auto simp: rank_table_rank intro: order_trans)
qed simp

lemma role_scan_member:
  "rank_of best = bestRank \<Longrightarrow>
     role_scan orgs (best, bestRank) = best \<or>
     role_scan orgs (best, bestRank) \<in> set orgs \<and> 0 < rank_of (role_scan orgs (best, bestRank))"
proof (induction orgs arbitrary: best bestRank)
  case (Cons org orgs)
  show ?case
    using Cons.IH [of org "rank_of org"] Cons.IH [of best bestRank] Cons.prems
    by (auto simp: rank_table_rank)
qed simp

lemma RoleFromCert_rank:
  "rank_of (RoleFromCert c) = Max (insert 0 (rank_of ` set (Organization (Subject c))))"
proof -
  note scan = role_scan_max [of RolePublic 0 "Organization (Subject c)"]
    role_scan_member [of RolePublic 0 "Organization (Subject c)"]
  have "Max (insert 0 (rank_of ` set (Organization (Subject c)))) = rank_of (RoleFromCert c)"
    using scan by (intro Max_eqI) (auto simp: RoleFromCert_def)
  then show ?thesis ..
qed

lemma RoleFromCert_origin:
  "RoleFromCert c = RolePublic \<or>
     RoleFromCert c \<in> set (Organization (Subject c)) \<inter> {RoleReader, RoleOperator, RoleAdmin}"
  using role_scan_member [of RolePublic 0 "Organization (Subject c)"] rank_of_cases [of "RoleFromCert c"]
  by (auto simp: RoleFromCert_def)

text \<open>The role depends on the set of organizations only.\<close>

lemma RoleFromCert_cong:
  assumes "set (Organization (Subject c)) = set (Organization (Subject d))"
  shows "RoleFromCert c = RoleFromCert d"
proof -
  have "rank_of (RoleFromCert c) = rank_of (RoleFromCert d)"
    using assms by (simp add: RoleFromCert_rank)
  then show ?thesis
    using RoleFromCert_origin [of c] RoleFromCert_origin [of d] by (auto; fail)
qed

lemma RoleFromCert_single: "Organization (Subject c) = [r] \<Longrightarrow>
    RoleFromCert c = (if rank_of r = 0 then RolePublic else r)"
  by (simp add: RoleFromCert_def rank_table_rank)

lemma RoleFromCert_only:
  assumes "set (Organization (Subject c)) = {r}"
  shows "RoleFromCert c = (if rank_of r = 0 then RolePublic else r)"
proof -
  let ?d = "c\<lparr>Subject := (Subject c)\<lparr>Organization := [r]\<rparr>\<rparr>"
  have "RoleFromCert c = RoleFromCert ?d"
    by (rule RoleFromCert_cong) (simp add: assms)
  also have "\<dots> = (if rank_of r = 0 then RolePublic else r)"
    by (rule RoleFromCert_single) simp
  finally show ?thesis .
qed

lemma Allowed_iff:
  "Allowed have need \<longleftrightarrow> need = RolePublic \<or> 0 < rank_of have \<and> rank_of need \<le> rank_of have"
  by (auto simp: Allowed_def)

lemma Allowed_trans: "Allowed r need \<Longrightarrow> rank_of r \<le> rank_of r' \<Longrightarrow> Allowed r' need"
  by (auto simp: Allowed_def)

section \<open>The gate as a specification\<close>

text \<open>The verdict on a call, apart from the handler: none, or the status that refuses it.\<close>

definition gate_verdict :: "Table \<Rightarrow> grpc_context \<Rightarrow> string \<Rightarrow> status option" where
  "gate_verdict table ctx m =
     (case table m of
        None \<Rightarrow> Some (not_permitted m)
      | Some need \<Rightarrow>
          if need = RolePublic then None
          else (case roleFromContext ctx of
              Inl err \<Rightarrow> Some (no_cert err)
            | Inr role \<Rightarrow> if Allowed role need then None else Some (insufficient role need)))"

text \<open>
  What both interceptors promise: an admitted call is the handler's own run, a refused call
  leaves the state alone and answers with the verdict.
\<close>

locale rpc_gate =
  fixes guarded :: "Table \<Rightarrow> grpc_context \<Rightarrow> string \<Rightarrow> ('s \<Rightarrow> 's \<times> 'r) \<Rightarrow> 's \<Rightarrow> 's \<times> 'r"
    and refusal :: "status \<Rightarrow> 'r"
  assumes admitted: "gate_verdict table ctx m = None \<Longrightarrow> guarded table ctx m h s = h s"
    and refused: "gate_verdict table ctx m = Some st \<Longrightarrow> guarded table ctx m h s = (s, refusal st)"
begin

text \<open>A call that changes the state, or answers other than by a refusal, was admitted.\<close>

lemma effect_admitted:
  assumes "guarded table ctx m h s = (s', r)" and "s' \<noteq> s \<or> (\<forall>st. r \<noteq> refusal st)"
  shows "gate_verdict table ctx m = None \<and> h s = (s', r)"
proof (cases "gate_verdict table ctx m")
  case None
  with assms show ?thesis using admitted by simp
next
  case (Some st)
  with assms show ?thesis using refused [OF Some, of h s] by auto
qed

lemma handler_irrelevant:
  "gate_verdict table ctx m \<noteq> None \<Longrightarrow> guarded table ctx m h s = guarded table ctx m h' s"
  using refused by fastforce

end

interpretation unary: rpc_gate
  "\<lambda>table ctx m h. UnaryInterceptor table ctx req m (\<lambda>_ _. h)" Inl for req
  by unfold_locales
     (auto simp: gate_verdict_def UnaryInterceptor_def split: option.splits sum.splits if_splits)

interpretation strm: rpc_gate
  "\<lambda>table ctx m h. StreamInterceptor table (\<lambda>_. ctx) ss m (\<lambda>_. h)" Some for ss
  by unfold_locales
     (auto simp: gate_verdict_def StreamInterceptor_def split: option.splits sum.splits if_splits)

text \<open>
  A call is admitted exactly when the table has the method and either asks for nothing or the
  first certificate of a TLS peer carries a sufficient role.
\<close>

lemma gate_verdict_None:
  "gate_verdict table ctx m = None \<longleftrightarrow>
     (\<exists>need. table m = Some need \<and>
        (need = RolePublic \<or>
         (\<exists>c cs. ctx = Some (TLSInfo (c # cs)) \<and> Allowed (RoleFromCert c) need)))"
proof (cases ctx rule: roleFromContext.cases)
qed (auto simp: gate_verdict_def split: option.splits)

lemma method_distinct [simp]:
  "m_Enroll \<noteq> m_Identity" "m_Enroll \<noteq> m_Info" "m_Enroll \<noteq> m_Run" "m_Enroll \<noteq> m_Deploy"
  "m_Identity \<noteq> m_Enroll" "m_Identity \<noteq> m_Info" "m_Identity \<noteq> m_Run" "m_Identity \<noteq> m_Deploy"
  "m_Info \<noteq> m_Enroll" "m_Info \<noteq> m_Identity" "m_Info \<noteq> m_Run" "m_Info \<noteq> m_Deploy"
  "m_Run \<noteq> m_Enroll" "m_Run \<noteq> m_Identity" "m_Run \<noteq> m_Info" "m_Run \<noteq> m_Deploy"
  "m_Deploy \<noteq> m_Enroll" "m_Deploy \<noteq> m_Identity" "m_Deploy \<noteq> m_Info" "m_Deploy \<noteq> m_Run"
  by (simp_all add: method_defs)

lemma AgentTable_simps [simp]:
  "AgentTable m_Enroll = Some RolePublic" "AgentTable m_Identity = Some RoleReader"
  "AgentTable m_Info = Some RoleReader" "AgentTable m_Run = Some RoleOperator"
  "AgentTable m_Deploy = Some RoleAdmin"
  by (simp_all add: AgentTable_def method_defs)

lemma AgentTable_dom: "dom AgentTable = {m_Enroll, m_Identity, m_Info, m_Run, m_Deploy}"
  by (auto simp: AgentTable_def split: if_splits)

section \<open>Properties\<close>

text \<open>
  Fact: the role of a certificate is the highest-ranking known role among its organizations,
  whatever else they contain and in whatever order they come; without one it is the public role.
\<close>

theorem role_from_cert_highest:
  "rank_of (RoleFromCert c) = Max (insert 0 (rank_of ` set (Organization (Subject c)))) \<and>
   (RoleFromCert c = RolePublic \<or>
    RoleFromCert c \<in> set (Organization (Subject c)) \<inter> {RoleReader, RoleOperator, RoleAdmin})"
  using RoleFromCert_rank RoleFromCert_origin by blast

text \<open>
  C6: the unary interceptor is deny by default and complete. The handler runs, on the original
  state and with its own answer, exactly when the method is in the table and is public or the
  first certificate of the TLS peer carries a known role of at least the required rank. In every
  other case the state is untouched and the status is PermissionDenied for an unknown method or
  an insufficient role, Unauthenticated without a certificate.
\<close>

theorem unary_gate_spec:
  "UnaryInterceptor table ctx req m handler s =
     (case gate_verdict table ctx m of
        None \<Rightarrow> handler ctx req s
      | Some st \<Rightarrow> (s, Inl st)) \<and>
   (gate_verdict table ctx m = None \<longleftrightarrow>
     (\<exists>need. table m = Some need \<and>
        (need = RolePublic \<or>
         (\<exists>c cs. ctx = Some (TLSInfo (c # cs)) \<and> 0 < rank_of (RoleFromCert c) \<and>
            rank_of need \<le> rank_of (RoleFromCert c))))) \<and>
   (map_option st_code (gate_verdict table ctx m) = Some Unauthenticated \<longleftrightarrow>
     table m \<notin> {None, Some RolePublic} \<and> (\<nexists>c cs. ctx = Some (TLSInfo (c # cs))))"
proof (intro conjI)
  show "UnaryInterceptor table ctx req m handler s =
      (case gate_verdict table ctx m of None \<Rightarrow> handler ctx req s | Some st \<Rightarrow> (s, Inl st))"
    by (auto simp: gate_verdict_def UnaryInterceptor_def split: option.splits sum.splits)
  show "gate_verdict table ctx m = None \<longleftrightarrow>
     (\<exists>need. table m = Some need \<and>
        (need = RolePublic \<or>
         (\<exists>c cs. ctx = Some (TLSInfo (c # cs)) \<and> 0 < rank_of (RoleFromCert c) \<and>
            rank_of need \<le> rank_of (RoleFromCert c))))"
    unfolding gate_verdict_None Allowed_iff by auto
  show "map_option st_code (gate_verdict table ctx m) = Some Unauthenticated \<longleftrightarrow>
     table m \<notin> {None, Some RolePublic} \<and> (\<nexists>c cs. ctx = Some (TLSInfo (c # cs)))"
    by (cases ctx rule: roleFromContext.cases)
       (auto simp: gate_verdict_def Errorf_def split: option.splits)
qed

text \<open>
  Fact: the stream interceptor mirrors the unary one: with handlers that do the same, it admits
  and refuses the same calls with the same status and the same effect on the server.
\<close>

theorem stream_gate_mirrors_unary:
  "StreamInterceptor table Context ss m (\<lambda>ss s. case handler (Context ss) ss s of
       (s', Inl st) \<Rightarrow> (s', Some st) | (s', Inr _) \<Rightarrow> (s', None)) s =
   (case UnaryInterceptor table (Context ss) ss m handler s of
       (s', Inl st) \<Rightarrow> (s', Some st) | (s', Inr _) \<Rightarrow> (s', None))"
  by (auto simp: StreamInterceptor_def UnaryInterceptor_def split: option.splits sum.splits)

definition caller_role :: "grpc_context \<Rightarrow> string" where
  "caller_role ctx = (case roleFromContext ctx of Inl _ \<Rightarrow> RolePublic | Inr role \<Rightarrow> role)"

lemma caller_role_admits:
  "need \<noteq> RolePublic \<Longrightarrow> table m = Some need \<Longrightarrow>
     gate_verdict table ctx m = None \<longleftrightarrow> Allowed (caller_role ctx) need"
  by (auto simp: gate_verdict_def caller_role_def Allowed_iff split: sum.splits)

lemma caller_role_known:
  "caller_role ctx \<in> {RolePublic, RoleReader, RoleOperator, RoleAdmin}"
  using RoleFromCert_origin
  by (cases ctx rule: roleFromContext.cases) (auto simp: caller_role_def)

text \<open>
  C25: what the production table lets through: anyone may enroll; identity and info need any
  known role, run needs operator or admin, deploy needs admin, and no other method is served.
\<close>

theorem agent_table_gate:
  "{m. gate_verdict AgentTable ctx m = None} =
     {m_Enroll} \<union>
     (if caller_role ctx \<in> {RoleReader, RoleOperator, RoleAdmin} then {m_Identity, m_Info} else {}) \<union>
     (if caller_role ctx \<in> {RoleOperator, RoleAdmin} then {m_Run} else {}) \<union>
     (if caller_role ctx = RoleAdmin then {m_Deploy} else {})"
proof -
  have ne: "distinct [RolePublic, RoleReader, RoleOperator, RoleAdmin]"
    by (simp add: role_defs)
  have dom: "gate_verdict AgentTable ctx m = None \<Longrightarrow> m \<in> {m_Enroll, m_Identity, m_Info, m_Run, m_Deploy}" for m
    using AgentTable_dom by (auto simp: gate_verdict_None)
  have enroll: "gate_verdict AgentTable ctx m_Enroll = None"
    by (simp add: gate_verdict_def)
  have need: "gate_verdict AgentTable ctx m_Identity = None \<longleftrightarrow> 1 \<le> rank_of (caller_role ctx)"
      "gate_verdict AgentTable ctx m_Info = None \<longleftrightarrow> 1 \<le> rank_of (caller_role ctx)"
      "gate_verdict AgentTable ctx m_Run = None \<longleftrightarrow> 2 \<le> rank_of (caller_role ctx)"
      "gate_verdict AgentTable ctx m_Deploy = None \<longleftrightarrow> 3 \<le> rank_of (caller_role ctx)"
    using ne by (auto simp: Allowed_iff caller_role_admits [of RoleReader AgentTable]
        caller_role_admits [of RoleOperator AgentTable] caller_role_admits [of RoleAdmin AgentTable])
  have exactly: "gate_verdict AgentTable ctx m = None \<longleftrightarrow>
      m = m_Enroll \<or> (m = m_Identity \<or> m = m_Info) \<and> 1 \<le> rank_of (caller_role ctx) \<or>
      m = m_Run \<and> 2 \<le> rank_of (caller_role ctx) \<or> m = m_Deploy \<and> 3 \<le> rank_of (caller_role ctx)" for m
  proof (cases "m \<in> {m_Enroll, m_Identity, m_Info, m_Run, m_Deploy}")
    case True
    with enroll need show ?thesis by (elim insertE emptyE) simp_all
  next
    case False
    with dom show ?thesis by blast
  qed
  have "{m. gate_verdict AgentTable ctx m = None} = {m_Enroll} \<union>
      (if 1 \<le> rank_of (caller_role ctx) then {m_Identity, m_Info} else {}) \<union>
      (if 2 \<le> rank_of (caller_role ctx) then {m_Run} else {}) \<union>
      (if 3 \<le> rank_of (caller_role ctx) then {m_Deploy} else {})"
    unfolding exactly by auto
  with caller_role_known [of ctx] ne show ?thesis by (elim insertE emptyE) simp_all
qed

text \<open>
  Fact: the gate fails open on a misspelt table: if the table asks for a role that is not one of
  the three, its rank reads as zero and every caller with any known role is admitted.
\<close>

theorem unknown_need_fails_open:
  assumes "rank_of need = 0" "need \<noteq> RolePublic"
  shows "Allowed have need \<longleftrightarrow> have \<in> {RoleReader, RoleOperator, RoleAdmin}"
  using assms rank_of_cases [of "have"] by (auto simp: Allowed_def)

theorem unknown_need_fails_open_witness: "Allowed RoleReader ''rex:admn''"
  using unknown_need_fails_open [of "''rex:admn''" RoleReader]
  by (simp add: rank_of_def rank_table_def role_defs map_read_def)

end
