(* ===== verification/Agent_Proto.thy ===== *)
theory Agent_Proto
  imports Execute Authz "HOL-Library.Word"
begin

text \<open>
  The messages of \<^verbatim>\<open>proto/rexec/v1/agent.proto\<close> as the generated Go code
  (\<^verbatim>\<open>internal/proto/rexec/v1/agent.pb.go\<close>) declares them, and the server side of a stream. An
  unset field reads as its zero value, so a request is a record of the values its getters return.
  The exit code is 32 bits wide.
\<close>

section \<open>Messages\<close>

record EnrollRequest =
  Token :: string
  CsrPem :: bytes

record EnrollResponse =
  ClientCertPem :: bytes
  CaPem :: bytes
  AgentId :: string
  er_Fingerprint :: string

record IdentityResponse =
  ir_AgentId :: string
  ir_Fingerprint :: string

record InfoResponse =
  Os :: string
  Arch :: string
  Hostname :: string
  Version :: string

record ExecRequest =
  er_Command :: string
  er_Args :: "string list"
  er_WorkingDir :: string
  er_Env :: "(string \<times> string) list"
  er_ApprovalId :: string

record ApprovalRequest =
  Operation :: string
  Reason :: string
  ar_ApprovalId :: string

text \<open>The oneof of \<^verbatim>\<open>ExecChunk\<close>; \<open>NoMsg\<close> when none of its members is set.\<close>

datatype ExecChunk =
    ExecChunk_Stdout bytes
  | ExecChunk_Stderr bytes
  | ExecChunk_ExitCode "32 word"
  | ExecChunk_NeedsApproval ApprovalRequest
  | NoMsg

section \<open>The server side of a stream\<close>

text \<open>
  What the handler has sent, and how many sends it tried: the stream \<open>ss_fail\<close> says which of
  them fail.
\<close>

record server_stream =
  ss_Context :: grpc_context
  ss_fail :: "nat \<Rightarrow> status option"

record sent =
  sent_msgs :: "ExecChunk list"
  sent_tries :: nat

definition nothing_sent :: sent where
  "nothing_sent = \<lparr>sent_msgs = [], sent_tries = 0\<rparr>"

lemma nothing_sent_simps [simp]: "sent_msgs nothing_sent = []" "sent_tries nothing_sent = 0"
  by (simp_all add: nothing_sent_def)

definition stream_Send :: "server_stream \<Rightarrow> ExecChunk \<Rightarrow> sent \<Rightarrow> sent \<times> status option" where
  "stream_Send ss c s =
     (case ss_fail ss (sent_tries s) of
        Some e \<Rightarrow> (s\<lparr>sent_tries := sent_tries s + 1\<rparr>, Some e)
      | None \<Rightarrow> (s\<lparr>sent_msgs := sent_msgs s @ [c], sent_tries := sent_tries s + 1\<rparr>, None))"

definition good_stream :: "grpc_context \<Rightarrow> server_stream" where
  "good_stream ctx = \<lparr>ss_Context = ctx, ss_fail = (\<lambda>_. None)\<rparr>"

lemma good_stream_simps [simp]:
  "ss_Context (good_stream ctx) = ctx" "ss_fail (good_stream ctx) = (\<lambda>_. None)"
  by (simp_all add: good_stream_def)

lemma stream_Send_good:
  "ss_fail ss = (\<lambda>_. None) \<Longrightarrow>
     stream_Send ss c s = (\<lparr>sent_msgs = sent_msgs s @ [c], sent_tries = sent_tries s + 1\<rparr>, None)"
  by (simp add: stream_Send_def)

section \<open>int32\<close>

text \<open>The conversion \<^verbatim>\<open>int32(code)\<close> and back \<^verbatim>\<open>int(m.ExitCode)\<close>.\<close>

definition to_int32 :: "int \<Rightarrow> 32 word" where
  "to_int32 code = word_of_int code"

definition from_int32 :: "32 word \<Rightarrow> int" where
  "from_int32 w = sint w"

lemma int32_roundtrip: "- 2147483648 \<le> code \<Longrightarrow> code < 2147483648 \<Longrightarrow> from_int32 (to_int32 code) = code"
  by (simp add: from_int32_def to_int32_def signed_take_bit_int_eq_self sint_sbintrunc')

lemma from_int32_0 [simp]: "from_int32 w = 0 \<longleftrightarrow> w = 0"
  by (simp add: from_int32_def signed_eq_0_iff)

lemma to_int32_0: "to_int32 code = 0 \<longleftrightarrow> 2 ^ 32 dvd code"
  by (simp add: to_int32_def word_of_int_eq_0_iff)

end
