(* ===== verification/X509_Instance.thy ===== *)
theory X509_Instance
  imports X509 Coders
begin

text \<open>
  A concrete set of certificate algorithms with the laws \<open>x509_laws\<close>: certificates, requests and
  PEM blocks are serialised plainly, a public key is its private key. It is no cryptography;
  it shows that the laws the development assumes of the Go packages can hold together.
\<close>

abbreviation (input) strings_coder :: "string list coder" where
  "strings_coder \<equiv> list_coder string_coder"

definition eku_coder :: "ext_key_usage coder" where
  "eku_coder = via
     (\<lambda>u. case u of ExtKeyUsageServerAuth \<Rightarrow> 0 | ExtKeyUsageClientAuth \<Rightarrow> 1 | ExtKeyUsageAny \<Rightarrow> 2 | ExtKeyUsageOther n \<Rightarrow> n + 3)
     (\<lambda>n. if n = 0 then ExtKeyUsageServerAuth else if n = 1 then ExtKeyUsageClientAuth
       else if n = 2 then ExtKeyUsageAny else ExtKeyUsageOther (n - 3)) nat_coder"

lemma good_eku_coder [simp]: "good_coder eku_coder"
  unfolding eku_coder_def by (rule good_via) (auto split: ext_key_usage.split)

text \<open>The fields of a certificate, without its encoding.\<close>

type_synonym cert_fields =
  "nat \<times> (string \<times> string list) \<times> (int \<times> int) \<times> nat \<times> ext_key_usage list \<times>
   (bool \<times> bool \<times> bool) \<times> (string list \<times> string list) \<times> string"

definition fields_coder :: "cert_fields coder" where
  "fields_coder =
     pair_coder nat_coder (pair_coder (pair_coder string_coder strings_coder)
       (pair_coder (pair_coder int_coder int_coder) (pair_coder nat_coder
         (pair_coder (list_coder eku_coder)
           (pair_coder (pair_coder bool_coder (pair_coder bool_coder bool_coder))
             (pair_coder (pair_coder strings_coder strings_coder) string_coder))))))"

lemma good_fields_coder [simp]: "good_coder fields_coder"
  by (simp add: fields_coder_def)

definition fields_of :: "certificate \<Rightarrow> bytes \<Rightarrow> cert_fields" where
  "fields_of t pub =
     (SerialNumber t, (CommonName (Subject t), Organization (Subject t)),
      (to_second (NotBefore t), to_second (NotAfter t)), KeyUsage t, ExtKeyUsage t,
      (BasicConstraintsValid t, BasicConstraintsValid t \<and> IsCA t,
       BasicConstraintsValid t \<and> IsCA t \<and> MaxPathLenZero t),
      (DNSNames t, map net_To4 (IPAddresses t)), pub)"

fun cert_of :: "cert_fields \<Rightarrow> bytes \<Rightarrow> certificate" where
  "cert_of (n, (cn, o'), (nb, na), ku, eku, (bcv, ca, mpz), (dns, ips), pub) der =
     \<lparr>SerialNumber = n, Subject = \<lparr>CommonName = cn, Organization = o'\<rparr>, NotBefore = nb, NotAfter = na,
      KeyUsage = ku, ExtKeyUsage = eku, BasicConstraintsValid = bcv, IsCA = ca, MaxPathLenZero = mpz,
      DNSNames = dns, IPAddresses = ips, PublicKey = pub, Raw = der\<rparr>"

definition plain_Parse :: "bytes \<Rightarrow> string + certificate" where
  "plain_Parse der = (case snd fields_coder der of
      Some (f, []) \<Rightarrow> Inr (cert_of f der)
    | _ \<Rightarrow> Inl ''x509: malformed certificate'')"

definition key_coder :: "private_key coder" where
  "key_coder = via (\<lambda>k. case k of Ed25519 b \<Rightarrow> (True, b) | OtherKey b \<Rightarrow> (False, b))
     (\<lambda>(e, b). if e then Ed25519 b else OtherKey b) (pair_coder bool_coder string_coder)"

lemma good_key_coder [simp]: "good_coder key_coder"
  unfolding key_coder_def by (rule good_via) (auto split: private_key.split)

definition block_coder :: "pem_block coder" where
  "block_coder = via (\<lambda>b. (pem_Type b, pem_Bytes b)) (\<lambda>(t, d). \<lparr>pem_Type = t, pem_Bytes = d\<rparr>)
     (pair_coder string_coder string_coder)"

lemma good_block_coder [simp]: "good_coder block_coder"
  unfolding block_coder_def by (rule good_via) auto

definition request_coder :: "(string \<times> string) coder" where
  "request_coder = pair_coder string_coder string_coder"

text \<open>Decoding that insists on the whole input.\<close>

definition whole :: "'a coder \<Rightarrow> bytes \<Rightarrow> 'a option" where
  "whole c d = (case snd c d of Some (x, []) \<Rightarrow> Some x | _ \<Rightarrow> None)"

lemma whole_put [simp]: "good_coder c \<Longrightarrow> whole c (fst c x) = Some x"
  by (simp add: whole_def good_coder_whole)

definition plain_x509 :: x509_env where
  "plain_x509 = \<lparr>
     x_GenerateKey = (\<lambda>rnd. case rand_Read 32 rnd of Inl e \<Rightarrow> Inl e | Inr b \<Rightarrow> Inr (b, b)),
     x_Public = (\<lambda>priv. priv),
     x_CreateCertificate = (\<lambda>tmpl parent pub priv. Inr (fst fields_coder (fields_of tmpl pub))),
     x_ParseCertificate = plain_Parse,
     x_CheckSignatureFrom = (\<lambda>p c. may_sign p),
     x_MarshalPKCS8 = (\<lambda>k. Inr (fst key_coder k)),
     x_ParsePKCS8 = (\<lambda>d. case whole key_coder d of None \<Rightarrow> Inl ''x509: malformed key'' | Some k \<Rightarrow> Inr k),
     x_CreateRequest = (\<lambda>n priv. Inr (fst request_coder (CommonName n, priv))),
     x_ParseRequest = (\<lambda>d. case whole request_coder d of
         None \<Rightarrow> Inl ''x509: malformed request''
       | Some (cn, pub) \<Rightarrow> Inr \<lparr>csr_Subject = \<lparr>CommonName = cn, Organization = []\<rparr>,
           csr_PublicKey = pub, csr_Raw = d\<rparr>),
     x_CheckRequest = (\<lambda>r. None),
     x_pem_Encode = fst block_coder,
     x_pem_Blocks = (\<lambda>d. case whole block_coder d of None \<Rightarrow> [] | Some b \<Rightarrow> [b]),
     x_sha256 = (\<lambda>d. take 32 (d @ replicate 32 (CHR 0x00)))\<rparr>"

lemma block_coder_ne [simp]: "fst block_coder b \<noteq> []"
  by (simp add: block_coder_def via_def pair_coder_def)

lemma Raw_cert_of: "Raw (cert_of f der) = der"
  by (cases "(f, der)" rule: cert_of.cases) simp

lemma plain_Parse_created:
  "plain_Parse (fst fields_coder (fields_of t pub)) =
     Inr (cert_of (fields_of t pub) (fst fields_coder (fields_of t pub)))"
  by (simp add: plain_Parse_def good_coder_whole)

lemma cert_of_matches: "matches_template t pub (cert_of (fields_of t pub) der)"
  by (simp add: matches_template_def fields_of_def)

lemma plain_x509_laws: "x509_laws plain_x509"
  unfolding x509_laws_def
proof (intro conjI allI impI)
  fix rnd pub priv assume "x_GenerateKey plain_x509 rnd = Inr (pub, priv)"
  then show "x_Public plain_x509 priv = pub"
    by (auto simp: plain_x509_def split: sum.splits)
next
  fix tmpl parent pub priv der
  assume "x_CreateCertificate plain_x509 tmpl parent pub priv = Inr der"
  then show "\<exists>c. x_ParseCertificate plain_x509 der = Inr c \<and> matches_template tmpl pub c \<and>
      (\<forall>p. may_sign p \<and> PublicKey p = x_Public plain_x509 priv \<longrightarrow> x_CheckSignatureFrom plain_x509 p c)"
    by (auto simp: plain_x509_def plain_Parse_created cert_of_matches)
next
  fix der c assume "x_ParseCertificate plain_x509 der = Inr c"
  then show "Raw c = der"
    by (auto simp: plain_x509_def plain_Parse_def Raw_cert_of split: option.splits list.splits)
next
  fix k d assume "x_MarshalPKCS8 plain_x509 (Ed25519 k) = Inr d"
  then show "x_ParsePKCS8 plain_x509 d = Inr (Ed25519 k)"
    by (auto simp: plain_x509_def)
next
  fix n priv d assume "x_CreateRequest plain_x509 n priv = Inr d"
  then show "\<exists>r. x_ParseRequest plain_x509 d = Inr r \<and> csr_PublicKey r = x_Public plain_x509 priv \<and>
      CommonName (csr_Subject r) = CommonName n \<and> x_CheckRequest plain_x509 r = None"
    by (auto simp: plain_x509_def request_coder_def)
qed (auto simp: plain_x509_def)

text \<open>With this instance nothing fails when the entropy source does not.\<close>

lemma plain_x509_simps [simp]:
  "x_GenerateKey plain_x509 (Inr f) = Inr (map f [0..<32], map f [0..<32])"
  "x_MarshalPKCS8 plain_x509 k = Inr (fst key_coder k)"
  "x_CreateRequest plain_x509 n priv = Inr (fst request_coder (CommonName n, priv))"
  "\<exists>der. x_CreateCertificate plain_x509 tmpl parent pub priv = Inr der"
  "x_Public plain_x509 priv = priv"
  by (simp_all add: plain_x509_def rand_Read_def del: upt_rec_numeral)

end
