(* ===== verification/Pki.thy ===== *)
theory Pki
  imports X509_Instance
begin

text \<open>
  \<^verbatim>\<open>internal/pki/pki.go\<close>: the certificate authority of an agent. A CA is a parsed certificate
  with its Ed25519 key; it signs leaf certificates for the requests (CSRs) of controllers and
  for the agent's own server key. Entropy and the clock are arguments, the algorithms are the
  parameter \<open>X\<close>.
\<close>

section \<open>Operations\<close>

definition DefaultCAValidity :: duration where
  "DefaultCAValidity = 10 * 365 * 24 * time_Hour"

definition DefaultLeafValidity :: duration where
  "DefaultLeafValidity = 24 * time_Hour"

datatype pki_error =
    ErrInvalidPEM
  | PkiGenerateKey string | PkiSerial string | PkiCreateCA string | PkiParseCA string
  | PkiParseCert string | PkiParseKey string | PkiNotEd25519 | PkiMarshalKey string
  | PkiParseCSR string | PkiCSRSignature string | PkiSignLeaf string | PkiCreateCSR string

record CA =
  ca_cert :: certificate
  ca_key :: bytes

text \<open>A draw below 2 to the 128, the big-endian reading of 16 random bytes.\<close>

definition serialNumber :: "entropy \<Rightarrow> pki_error + nat" where
  "serialNumber rnd = (case rand_Read 16 rnd of
      Inl e \<Rightarrow> Inl (PkiSerial e)
    | Inr b \<Rightarrow> Inr (foldl (\<lambda>n c. n * 256 + ord c) 0 b))"

definition ca_template :: "nat \<Rightarrow> string \<Rightarrow> duration \<Rightarrow> instant \<Rightarrow> certificate" where
  "ca_template serial commonName validity now = zero_certificate\<lparr>
     SerialNumber := serial,
     Subject := \<lparr>CommonName = commonName, Organization = []\<rparr>,
     NotBefore := time_Add now (- time_Minute),
     NotAfter := time_Add now validity,
     KeyUsage := KeyUsageCertSign OR KeyUsageCRLSign,
     BasicConstraintsValid := True,
     IsCA := True,
     MaxPathLenZero := True\<rparr>"

definition NewCA ::
  "x509_env \<Rightarrow> entropy \<Rightarrow> entropy \<Rightarrow> instant \<Rightarrow> string \<Rightarrow> duration \<Rightarrow> pki_error + CA" where
  "NewCA X keyRnd serialRnd now commonName validity =
     and_then (wrap_error PkiGenerateKey (x_GenerateKey X keyRnd)) (\<lambda>(pub, priv).
     and_then (serialNumber serialRnd) (\<lambda>serial.
     let tmpl = ca_template serial commonName validity now in
     and_then (wrap_error PkiCreateCA (x_CreateCertificate X tmpl tmpl pub priv)) (\<lambda>der.
     and_then (wrap_error PkiParseCA (x_ParseCertificate X der)) (\<lambda>cert.
     Inr \<lparr>ca_cert = cert, ca_key = priv\<rparr>))))"

definition ParseCert :: "x509_env \<Rightarrow> bytes \<Rightarrow> pki_error + certificate" where
  "ParseCert X certPEM =
     (case x_pem_Decode X certPEM of
        None \<Rightarrow> Inl ErrInvalidPEM
      | Some block \<Rightarrow> wrap_error PkiParseCert (x_ParseCertificate X (pem_Bytes block)))"

text \<open>The type assertion \<^verbatim>\<open>parsed.(ed25519.PrivateKey)\<close>.\<close>

fun as_ed25519 :: "private_key \<Rightarrow> pki_error + bytes" where
  "as_ed25519 (Ed25519 k) = Inr k"
| "as_ed25519 (OtherKey k) = Inl PkiNotEd25519"

lemma as_ed25519_Inr [simp]: "as_ed25519 p = Inr k \<longleftrightarrow> p = Ed25519 k"
  by (cases p) auto

definition LoadCA :: "x509_env \<Rightarrow> bytes \<Rightarrow> bytes \<Rightarrow> pki_error + CA" where
  "LoadCA X certPEM keyPEM =
     and_then (ParseCert X certPEM) (\<lambda>cert.
       (case x_pem_Decode X keyPEM of
          None \<Rightarrow> Inl ErrInvalidPEM
        | Some block \<Rightarrow>
            and_then (wrap_error PkiParseKey (x_ParsePKCS8 X (pem_Bytes block))) (\<lambda>parsed.
            and_then (as_ed25519 parsed) (\<lambda>key.
              Inr \<lparr>ca_cert = cert, ca_key = key\<rparr>))))"

definition CertPEM :: "x509_env \<Rightarrow> CA \<Rightarrow> bytes" where
  "CertPEM X c = x_pem_Encode X \<lparr>pem_Type = blockCert, pem_Bytes = Raw (ca_cert c)\<rparr>"

definition KeyPEM :: "x509_env \<Rightarrow> CA \<Rightarrow> pki_error + bytes" where
  "KeyPEM X c =
     and_then (wrap_error PkiMarshalKey (x_MarshalPKCS8 X (Ed25519 (ca_key c)))) (\<lambda>der.
     Inr (x_pem_Encode X \<lparr>pem_Type = blockKey, pem_Bytes = der\<rparr>))"

record SignRequest =
  CSRPEM :: bytes
  Roles :: "string list"
  Validity :: duration
  Client :: bool
  sr_DNSNames :: "string list"
  IPs :: "bytes list"

definition leaf_template :: "nat \<Rightarrow> string \<Rightarrow> SignRequest \<Rightarrow> instant \<Rightarrow> certificate" where
  "leaf_template serial commonName req now =
     (let eku = (if Client req then ExtKeyUsageClientAuth else ExtKeyUsageServerAuth) in
      zero_certificate\<lparr>
        SerialNumber := serial,
        Subject := \<lparr>CommonName = commonName, Organization = Roles req\<rparr>,
        NotBefore := time_Add now (- time_Minute),
        NotAfter := time_Add now (Validity req),
        KeyUsage := KeyUsageDigitalSignature,
        ExtKeyUsage := [eku],
        DNSNames := sr_DNSNames req,
        IPAddresses := IPs req\<rparr>)"

definition Sign :: "x509_env \<Rightarrow> entropy \<Rightarrow> instant \<Rightarrow> CA \<Rightarrow> SignRequest \<Rightarrow> pki_error + bytes" where
  "Sign X rnd now c req =
     (case x_pem_Decode X (CSRPEM req) of
        None \<Rightarrow> Inl ErrInvalidPEM
      | Some block \<Rightarrow>
          and_then (wrap_error PkiParseCSR (x_ParseRequest X (pem_Bytes block))) (\<lambda>csr.
          and_then (wrap_error PkiCSRSignature (check_error (x_CheckRequest X csr))) (\<lambda>_.
          and_then (serialNumber rnd) (\<lambda>serial.
          let tmpl = leaf_template serial (CommonName (csr_Subject csr)) req now in
          and_then (wrap_error PkiSignLeaf
            (x_CreateCertificate X tmpl (ca_cert c) (csr_PublicKey csr) (ca_key c))) (\<lambda>der.
          Inr (x_pem_Encode X \<lparr>pem_Type = blockCert, pem_Bytes = der\<rparr>))))))"

text \<open>The request and its private key, both in PEM form.\<close>

definition NewCSR :: "x509_env \<Rightarrow> entropy \<Rightarrow> string \<Rightarrow> pki_error + bytes \<times> bytes" where
  "NewCSR X rnd commonName =
     and_then (wrap_error PkiGenerateKey (x_GenerateKey X rnd)) (\<lambda>(_, priv).
     and_then (wrap_error PkiCreateCSR
       (x_CreateRequest X \<lparr>CommonName = commonName, Organization = []\<rparr> priv)) (\<lambda>csrDER.
     and_then (wrap_error PkiMarshalKey (x_MarshalPKCS8 X (Ed25519 priv))) (\<lambda>keyDER.
     Inr (x_pem_Encode X \<lparr>pem_Type = blockCSR, pem_Bytes = csrDER\<rparr>,
          x_pem_Encode X \<lparr>pem_Type = blockKey, pem_Bytes = keyDER\<rparr>))))"

definition Fingerprint :: "x509_env \<Rightarrow> certificate \<Rightarrow> string" where
  "Fingerprint X cert = hex_EncodeToString (x_sha256 X (Raw cert))"

definition FingerprintPEM :: "x509_env \<Rightarrow> bytes \<Rightarrow> pki_error + string" where
  "FingerprintPEM X certPEM = and_then (ParseCert X certPEM) (\<lambda>cert. Inr (Fingerprint X cert))"

section \<open>What the operations return\<close>

text \<open>A CA in use: its certificate parses back from its own DER, may sign, and has the key's public half.\<close>

definition ca_wf :: "x509_env \<Rightarrow> CA \<Rightarrow> bool" where
  "ca_wf X c \<longleftrightarrow>
     x_ParseCertificate X (Raw (ca_cert c)) = Inr (ca_cert c) \<and> may_sign (ca_cert c) \<and>
     PublicKey (ca_cert c) = x_Public X (ca_key c)"

lemma block_types [simp]:
  "blockCert \<in> {blockCert, blockKey, blockCSR}" "blockKey \<in> {blockCert, blockKey, blockCSR}"
  "blockCSR \<in> {blockCert, blockKey, blockCSR}"
  by simp_all

lemma pem_again:
  assumes "x509_laws X"
  shows "x_pem_Decode X (x_pem_Encode X \<lparr>pem_Type = blockCert, pem_Bytes = d\<rparr>) =
      Some \<lparr>pem_Type = blockCert, pem_Bytes = d\<rparr>"
    and "x_pem_Decode X (x_pem_Encode X \<lparr>pem_Type = blockKey, pem_Bytes = d\<rparr>) =
      Some \<lparr>pem_Type = blockKey, pem_Bytes = d\<rparr>"
    and "x_pem_Decode X (x_pem_Encode X \<lparr>pem_Type = blockCSR, pem_Bytes = d\<rparr>) =
      Some \<lparr>pem_Type = blockCSR, pem_Bytes = d\<rparr>"
  by (rule x509_lawsD(6) [OF assms]; simp)+

lemma pem_blocks_again:
  assumes "x509_laws X"
  shows "x_pem_Blocks X (x_pem_Encode X \<lparr>pem_Type = blockCert, pem_Bytes = d\<rparr>) =
      [\<lparr>pem_Type = blockCert, pem_Bytes = d\<rparr>]"
    and "x_pem_Blocks X (x_pem_Encode X \<lparr>pem_Type = blockKey, pem_Bytes = d\<rparr>) =
      [\<lparr>pem_Type = blockKey, pem_Bytes = d\<rparr>]"
  by (rule x509_lawsD(9) [OF assms]; simp)+

lemma NewCA_Inr:
  assumes "x509_laws X" "NewCA X kr sr now cn validity = Inr c"
  shows "\<exists>serial der pub. x_CreateCertificate X (ca_template serial cn validity now)
      (ca_template serial cn validity now) pub (ca_key c) = Inr der \<and>
    x_ParseCertificate X der = Inr (ca_cert c) \<and> Raw (ca_cert c) = der \<and>
    matches_template (ca_template serial cn validity now) pub (ca_cert c) \<and>
    pub = x_Public X (ca_key c)"
proof -
  from assms(2) obtain pub priv serial der cert where
    "x_GenerateKey X kr = Inr (pub, priv)" and c: "c = \<lparr>ca_cert = cert, ca_key = priv\<rparr>"
    and mk: "x_CreateCertificate X (ca_template serial cn validity now)
      (ca_template serial cn validity now) pub priv = Inr der"
    and parse: "x_ParseCertificate X der = Inr cert"
    by (auto simp: NewCA_def Let_def)
  moreover have "matches_template (ca_template serial cn validity now) pub cert"
    using x509_lawsD(2) [OF assms(1) mk] parse by auto
  moreover have "Raw cert = der" using x509_lawsD(3) [OF assms(1) parse] .
  moreover have "x_Public X priv = pub"
    using x509_lawsD(1) [OF assms(1)] \<open>x_GenerateKey X kr = Inr (pub, priv)\<close> .
  ultimately show ?thesis by auto
qed

lemma ca_template_simps [simp]:
  "SerialNumber (ca_template n cn v now) = n"
  "CommonName (Subject (ca_template n cn v now)) = cn"
  "Organization (Subject (ca_template n cn v now)) = []"
  "NotBefore (ca_template n cn v now) = now - time_Minute"
  "NotAfter (ca_template n cn v now) = now + v"
  "KeyUsage (ca_template n cn v now) = KeyUsageCertSign OR KeyUsageCRLSign"
  "ExtKeyUsage (ca_template n cn v now) = []"
  "BasicConstraintsValid (ca_template n cn v now)" "IsCA (ca_template n cn v now)"
  "MaxPathLenZero (ca_template n cn v now)"
  by (simp_all add: ca_template_def zero_certificate_def)

lemma leaf_template_simps [simp]:
  "SerialNumber (leaf_template n cn req now) = n"
  "CommonName (Subject (leaf_template n cn req now)) = cn"
  "Organization (Subject (leaf_template n cn req now)) = Roles req"
  "NotBefore (leaf_template n cn req now) = now - time_Minute"
  "NotAfter (leaf_template n cn req now) = now + Validity req"
  "KeyUsage (leaf_template n cn req now) = KeyUsageDigitalSignature"
  "ExtKeyUsage (leaf_template n cn req now) =
     [if Client req then ExtKeyUsageClientAuth else ExtKeyUsageServerAuth]"
  "\<not> BasicConstraintsValid (leaf_template n cn req now)" "\<not> IsCA (leaf_template n cn req now)"
  "DNSNames (leaf_template n cn req now) = sr_DNSNames req"
  "IPAddresses (leaf_template n cn req now) = IPs req"
  by (simp_all add: leaf_template_def zero_certificate_def Let_def)

lemma NewCA_wf: "x509_laws X \<Longrightarrow> NewCA X kr sr now cn validity = Inr c \<Longrightarrow> ca_wf X c"
  by (drule (1) NewCA_Inr) (auto simp: ca_wf_def may_sign_def matches_template_def key_usage_defs)

lemma ParseCert_CertPEM:
  "x509_laws X \<Longrightarrow> ca_wf X c \<Longrightarrow> ParseCert X (CertPEM X c) = Inr (ca_cert c)"
  by (simp add: ParseCert_def CertPEM_def pem_again ca_wf_def)

lemma ParseCert_Raw:
  assumes "x509_laws X" "ParseCert X p = Inr c"
  shows "x_ParseCertificate X (Raw c) = Inr c"
  using assms x509_lawsD(3) [OF assms(1)] by (auto simp: ParseCert_def split: option.splits)

lemma LoadCA_saved:
  assumes "x509_laws X" "x_ParseCertificate X (Raw (ca_cert c)) = Inr (ca_cert c)"
    and "KeyPEM X c = Inr k"
  shows "LoadCA X (CertPEM X c) k = Inr c"
proof -
  from assms(3) obtain der where d: "x_MarshalPKCS8 X (Ed25519 (ca_key c)) = Inr der"
      "k = x_pem_Encode X \<lparr>pem_Type = blockKey, pem_Bytes = der\<rparr>"
    by (auto simp: KeyPEM_def)
  then have "x_ParsePKCS8 X der = Inr (Ed25519 (ca_key c))"
    using x509_lawsD(4) [OF assms(1)] by blast
  with d assms show ?thesis
    by (simp add: LoadCA_def ParseCert_def CertPEM_def pem_again)
qed

lemma Sign_Inr:
  assumes "x509_laws X" "Sign X rnd now ca req = Inr p"
  shows "\<exists>block csr serial c.
    x_pem_Decode X (CSRPEM req) = Some block \<and> x_ParseRequest X (pem_Bytes block) = Inr csr \<and>
    x_CheckRequest X csr = None \<and> serialNumber rnd = Inr serial \<and> ParseCert X p = Inr c \<and>
    matches_template (leaf_template serial (CommonName (csr_Subject csr)) req now)
      (csr_PublicKey csr) c \<and>
    (ca_wf X ca \<longrightarrow> x_CheckSignatureFrom X (ca_cert ca) c)"
proof -
  from assms(2) obtain block csr serial der where b:
      "x_pem_Decode X (CSRPEM req) = Some block" "x_ParseRequest X (pem_Bytes block) = Inr csr"
      "x_CheckRequest X csr = None" "serialNumber rnd = Inr serial"
      "x_CreateCertificate X (leaf_template serial (CommonName (csr_Subject csr)) req now)
        (ca_cert ca) (csr_PublicKey csr) (ca_key ca) = Inr der"
      "p = x_pem_Encode X \<lparr>pem_Type = blockCert, pem_Bytes = der\<rparr>"
    by (auto simp: Sign_def Let_def split: option.splits)
  from x509_lawsD(2) [OF assms(1) b(5)] obtain c where
    "x_ParseCertificate X der = Inr c"
    "matches_template (leaf_template serial (CommonName (csr_Subject csr)) req now) (csr_PublicKey csr) c"
    "\<And>q. may_sign q \<and> PublicKey q = x_Public X (ca_key ca) \<Longrightarrow> x_CheckSignatureFrom X q c"
    by blast
  with b show ?thesis
    using pem_again(1) [OF assms(1)] by (auto simp: ParseCert_def ca_wf_def)
qed

lemma NewCSR_Inr:
  assumes "x509_laws X" "NewCSR X rnd cn = Inr (csrPEM, keyPEM)"
  shows "\<exists>priv block csr kblock. x_pem_Decode X csrPEM = Some block \<and>
    x_ParseRequest X (pem_Bytes block) = Inr csr \<and> x_CheckRequest X csr = None \<and>
    CommonName (csr_Subject csr) = cn \<and> csr_PublicKey csr = x_Public X priv \<and>
    x_pem_Decode X keyPEM = Some kblock \<and> x_ParsePKCS8 X (pem_Bytes kblock) = Inr (Ed25519 priv)"
proof -
  from assms(2) obtain priv d kd where b:
      "x_CreateRequest X \<lparr>CommonName = cn, Organization = []\<rparr> priv = Inr d"
      "x_MarshalPKCS8 X (Ed25519 priv) = Inr kd"
      "csrPEM = x_pem_Encode X \<lparr>pem_Type = blockCSR, pem_Bytes = d\<rparr>"
      "keyPEM = x_pem_Encode X \<lparr>pem_Type = blockKey, pem_Bytes = kd\<rparr>"
    by (auto simp: NewCSR_def)
  moreover have "x_ParsePKCS8 X kd = Inr (Ed25519 priv)"
    using x509_lawsD(4) [OF assms(1) b(2)] .
  ultimately show ?thesis
    using x509_lawsD(5) [OF assms(1) b(1)] pem_again [OF assms(1)] by fastforce
qed

lemma Sign_block:
  assumes "x509_laws X" "Sign X rnd now ca req = Inr p" "ParseCert X p = Inr c"
  shows "x_pem_Blocks X p = [\<lparr>pem_Type = blockCert, pem_Bytes = Raw c\<rparr>]"
    and "x_ParseCertificate X (Raw c) = Inr c" and "p \<noteq> []"
proof -
  from assms(2) obtain der where p: "p = x_pem_Encode X \<lparr>pem_Type = blockCert, pem_Bytes = der\<rparr>"
    by (auto simp: Sign_def Let_def split: option.splits)
  then have "x_ParseCertificate X der = Inr c"
    using assms(3) pem_again(1) [OF assms(1)] by (simp add: ParseCert_def)
  moreover from this have "Raw c = der" using x509_lawsD(3) [OF assms(1)] by blast
  ultimately show "x_pem_Blocks X p = [\<lparr>pem_Type = blockCert, pem_Bytes = Raw c\<rparr>]"
    and "x_ParseCertificate X (Raw c) = Inr c"
    using p pem_blocks_again(1) [OF assms(1)] by simp_all
  show "p \<noteq> []" using p x509_lawsD(7) [OF assms(1), of "\<lparr>pem_Type = blockCert, pem_Bytes = der\<rparr>"] by simp
qed

lemma NewCSR_key:
  assumes "x509_laws X" "NewCSR X rnd cn = Inr (csrPEM, keyPEM)"
  shows "\<exists>priv kd block csr. x_GenerateKey X rnd = Inr (x_Public X priv, priv) \<and>
    x_pem_Blocks X keyPEM = [\<lparr>pem_Type = blockKey, pem_Bytes = kd\<rparr>] \<and>
    x_ParsePKCS8 X kd = Inr (Ed25519 priv) \<and> keyPEM \<noteq> [] \<and> x_pem_Decode X csrPEM = Some block \<and>
    x_ParseRequest X (pem_Bytes block) = Inr csr \<and> csr_PublicKey csr = x_Public X priv \<and>
    CommonName (csr_Subject csr) = cn"
proof -
  from assms(2) obtain pub priv d kd where b:
      "x_CreateRequest X \<lparr>CommonName = cn, Organization = []\<rparr> priv = Inr d"
      "x_MarshalPKCS8 X (Ed25519 priv) = Inr kd"
      "csrPEM = x_pem_Encode X \<lparr>pem_Type = blockCSR, pem_Bytes = d\<rparr>"
      "keyPEM = x_pem_Encode X \<lparr>pem_Type = blockKey, pem_Bytes = kd\<rparr>"
      "x_GenerateKey X rnd = Inr (pub, priv)"
    by (auto simp: NewCSR_def)
  moreover have "x_Public X priv = pub" using x509_lawsD(1) [OF assms(1) b(5)] .
  moreover have "x_ParsePKCS8 X kd = Inr (Ed25519 priv)"
    using x509_lawsD(4) [OF assms(1) b(2)] .
  ultimately show ?thesis
    using x509_lawsD(5) [OF assms(1) b(1)] pem_again [OF assms(1)] pem_blocks_again(2) [OF assms(1)]
      x509_lawsD(7) [OF assms(1), of "\<lparr>pem_Type = blockKey, pem_Bytes = kd\<rparr>"] by fastforce
qed

text \<open>The concrete algorithms never fail on a working entropy source.\<close>

lemma serialNumber_ok: "\<exists>n. serialNumber (Inr f) = Inr n"
  by (simp add: serialNumber_def rand_Read_def)

lemma plain_NewCA: "\<exists>c. NewCA plain_x509 (Inr f) (Inr g) now cn validity = Inr c"
proof -
  obtain n where n: "serialNumber (Inr g) = Inr n" using serialNumber_ok by blast
  let ?t = "ca_template n cn validity now"
  obtain der where mk: "x_CreateCertificate plain_x509 ?t ?t (map f [0..<32]) (map f [0..<32]) = Inr der"
    using plain_x509_simps(4) by blast
  obtain c where "x_ParseCertificate plain_x509 der = Inr c"
    using x509_lawsD(2) [OF plain_x509_laws mk] by blast
  with n mk show ?thesis by (simp add: NewCA_def Let_def del: upt_rec_numeral)
qed

lemma plain_KeyPEM: "\<exists>k. KeyPEM plain_x509 c = Inr k"
  by (simp add: KeyPEM_def)

lemma plain_NewCSR: "\<exists>r k. NewCSR plain_x509 (Inr f) cn = Inr (r, k)"
  by (simp add: NewCSR_def del: upt_rec_numeral)

lemma plain_Sign:
  assumes "NewCSR plain_x509 rnd cn = Inr (CSRPEM req, k)"
  shows "\<exists>p. Sign plain_x509 (Inr f) now ca req = Inr p"
proof -
  obtain n where n: "serialNumber (Inr f) = Inr n" using serialNumber_ok by blast
  from NewCSR_Inr [OF plain_x509_laws assms] obtain block csr where
    "x_pem_Decode plain_x509 (CSRPEM req) = Some block"
    "x_ParseRequest plain_x509 (pem_Bytes block) = Inr csr" "x_CheckRequest plain_x509 csr = None"
    by blast
  with n show ?thesis
    using plain_x509_simps(4) [of "leaf_template n (CommonName (csr_Subject csr)) req now" "ca_cert ca"
        "csr_PublicKey csr" "ca_key ca"]
    by (auto simp: Sign_def Let_def)
qed

section \<open>Properties\<close>

text \<open>
  C26: what a signed leaf is. If \<^verbatim>\<open>Sign\<close> succeeds, the request was well formed and self-signed,
  and the result parses to a certificate for the requester's own key and common name, whose
  organizations are exactly the requested roles; it has the one extended usage the caller asked
  for, the digital-signature usage only, is not a CA and cannot sign; it starts a minute back,
  ends after the requested validity (in whole seconds), and verifies against the CA.
\<close>

theorem sign_leaf_spec:
  assumes "x509_laws X" "ca_wf X ca" "Sign X rnd now ca req = Inr p"
  shows "\<exists>block csr c. x_pem_Decode X (CSRPEM req) = Some block \<and>
    x_ParseRequest X (pem_Bytes block) = Inr csr \<and> x_CheckRequest X csr = None \<and>
    ParseCert X p = Inr c \<and> PublicKey c = csr_PublicKey csr \<and>
    CommonName (Subject c) = CommonName (csr_Subject csr) \<and>
    set (Organization (Subject c)) = set (Roles req) \<and>
    ExtKeyUsage c = [if Client req then ExtKeyUsageClientAuth else ExtKeyUsageServerAuth] \<and>
    KeyUsage c = KeyUsageDigitalSignature \<and> \<not> IsCA c \<and> \<not> may_sign c \<and>
    NotBefore c = to_second (now - time_Minute) \<and> NotAfter c = to_second (now + Validity req) \<and>
    x_CheckSignatureFrom X (ca_cert ca) c"
  using Sign_Inr [OF assms(1,3)] assms(2)
  by (fastforce simp: matches_template_def may_sign_def)

theorem sign_leaf_spec_witness:
  "\<exists>csr k ca p c. NewCSR plain_x509 (Inr (\<lambda>_. CHR ''k'')) ''rexec@host'' = Inr (csr, k) \<and>
     Sign plain_x509 (Inr (\<lambda>_. CHR ''s'')) 1000 ca
       \<lparr>CSRPEM = csr, Roles = [''rex:operator''], Validity = DefaultLeafValidity, Client = True,
        sr_DNSNames = [], IPs = []\<rparr> = Inr p \<and>
     ParseCert plain_x509 p = Inr c \<and> set (Organization (Subject c)) = {''rex:operator''} \<and> \<not> may_sign c"
proof -
  obtain ca where ca: "NewCA plain_x509 (Inr (\<lambda>_. CHR ''c'')) (Inr (\<lambda>_. CHR ''n'')) 0 ''CA'' DefaultCAValidity = Inr ca"
    using plain_NewCA by blast
  obtain csr k where csr: "NewCSR plain_x509 (Inr (\<lambda>_. CHR ''k'')) ''rexec@host'' = Inr (csr, k)"
    using plain_NewCSR by blast
  let ?req = "\<lparr>CSRPEM = csr, Roles = [''rex:operator''], Validity = DefaultLeafValidity, Client = True,
        sr_DNSNames = [], IPs = []\<rparr>"
  obtain p where p: "Sign plain_x509 (Inr (\<lambda>_. CHR ''s'')) 1000 ca ?req = Inr p"
    using plain_Sign [of "Inr (\<lambda>_. CHR ''k'')" "''rexec@host''" ?req k] csr by fastforce
  from sign_leaf_spec [OF plain_x509_laws NewCA_wf [OF plain_x509_laws ca] p] csr p
  show ?thesis by fastforce
qed

text \<open>
  Fact: a fresh CA is a CA that may sign certificates and nothing below it may be a CA (path
  length zero); its certificate carries the key's public half, so it verifies its own signature,
  and it is valid from a minute back for the requested time, in whole seconds.
\<close>

theorem new_ca_spec:
  assumes "x509_laws X" "NewCA X kr sr now cn validity = Inr c"
  shows "ca_wf X c \<and> IsCA (ca_cert c) \<and> MaxPathLenZero (ca_cert c) \<and>
    KeyUsage (ca_cert c) = KeyUsageCertSign OR KeyUsageCRLSign \<and> ExtKeyUsage (ca_cert c) = [] \<and>
    CommonName (Subject (ca_cert c)) = cn \<and> Organization (Subject (ca_cert c)) = [] \<and>
    NotBefore (ca_cert c) = to_second (now - time_Minute) \<and>
    NotAfter (ca_cert c) = to_second (now + validity) \<and>
    x_CheckSignatureFrom X (ca_cert c) (ca_cert c)"
proof -
  obtain serial der where mk: "x_CreateCertificate X (ca_template serial cn validity now)
      (ca_template serial cn validity now) (x_Public X (ca_key c)) (ca_key c) = Inr der"
    and parse: "x_ParseCertificate X der = Inr (ca_cert c)"
    and t: "matches_template (ca_template serial cn validity now) (x_Public X (ca_key c)) (ca_cert c)"
    using NewCA_Inr [OF assms] by blast
  have wf: "ca_wf X c" using NewCA_wf [OF assms] .
  then have "x_CheckSignatureFrom X (ca_cert c) (ca_cert c)"
    using x509_lawsD(2) [OF assms(1) mk] parse by (auto simp: ca_wf_def)
  with wf t show ?thesis by (simp add: matches_template_def)
qed

theorem new_ca_spec_witness:
  "\<exists>c. NewCA plain_x509 (Inr (\<lambda>_. CHR ''c'')) (Inr (\<lambda>_. CHR ''n'')) 0 ''CA'' DefaultCAValidity = Inr c \<and>
     MaxPathLenZero (ca_cert c) \<and> x_CheckSignatureFrom plain_x509 (ca_cert c) (ca_cert c)"
proof -
  obtain ca where ca: "NewCA plain_x509 (Inr (\<lambda>_. CHR ''c'')) (Inr (\<lambda>_. CHR ''n'')) 0 ''CA'' DefaultCAValidity = Inr ca"
    using plain_NewCA by blast
  with new_ca_spec [OF plain_x509_laws ca] show ?thesis by auto
qed

text \<open>
  Fact: saving a CA and loading it again gives the same CA: whatever was minted by \<^verbatim>\<open>NewCA\<close> or
  loaded by \<^verbatim>\<open>LoadCA\<close>, its two PEM texts load to the same certificate and key.
\<close>

theorem ca_save_load:
  assumes "x509_laws X"
    and "NewCA X kr sr now cn validity = Inr c \<or> LoadCA X certPEM keyPEM = Inr c"
    and "KeyPEM X c = Inr k"
  shows "LoadCA X (CertPEM X c) k = Inr c"
proof -
  have "x_ParseCertificate X (Raw (ca_cert c)) = Inr (ca_cert c)"
    using assms(2)
  proof
    assume "NewCA X kr sr now cn validity = Inr c"
    with NewCA_wf [OF assms(1)] show ?thesis by (simp add: ca_wf_def)
  next
    assume "LoadCA X certPEM keyPEM = Inr c"
    then have "ParseCert X certPEM = Inr (ca_cert c)"
      by (auto simp: LoadCA_def split: option.splits)
    with ParseCert_Raw [OF assms(1)] show ?thesis by blast
  qed
  with LoadCA_saved [OF assms(1) _ assms(3)] show ?thesis by blast
qed

theorem ca_save_load_witness:
  "\<exists>c k. NewCA plain_x509 (Inr (\<lambda>_. CHR ''c'')) (Inr (\<lambda>_. CHR ''n'')) 0 ''CA'' DefaultCAValidity = Inr c \<and>
     LoadCA plain_x509 (CertPEM plain_x509 c) k = Inr c"
proof -
  obtain ca where ca: "NewCA plain_x509 (Inr (\<lambda>_. CHR ''c'')) (Inr (\<lambda>_. CHR ''n'')) 0 ''CA'' DefaultCAValidity = Inr ca"
    using plain_NewCA by blast
  obtain k where k: "KeyPEM plain_x509 ca = Inr k" using plain_KeyPEM by blast
  from ca_save_load [OF plain_x509_laws disjI1 [OF ca] k] ca show ?thesis by blast
qed

text \<open>
  Fact: a request made by \<^verbatim>\<open>NewCSR\<close> is always accepted by \<^verbatim>\<open>Sign\<close>, unless the random source or
  the certificate encoder fails, and the leaf is for the key that the returned key text holds.
\<close>

theorem csr_sign_roundtrip:
  assumes "x509_laws X" "NewCSR X rnd cn = Inr (CSRPEM req, keyPEM)"
  shows "(case Sign X rnd' now ca req of
      Inl e \<Rightarrow> (\<exists>m. e = PkiSerial m \<or> e = PkiSignLeaf m)
    | Inr p \<Rightarrow> (\<exists>c block priv. ParseCert X p = Inr c \<and> CommonName (Subject c) = cn \<and>
        x_pem_Decode X keyPEM = Some block \<and> x_ParsePKCS8 X (pem_Bytes block) = Inr (Ed25519 priv) \<and>
        PublicKey c = x_Public X priv))"
proof -
  from NewCSR_Inr [OF assms] obtain priv block csr kblock where b:
    "x_pem_Decode X (CSRPEM req) = Some block" "x_ParseRequest X (pem_Bytes block) = Inr csr"
    "x_CheckRequest X csr = None" "CommonName (csr_Subject csr) = cn"
    "csr_PublicKey csr = x_Public X priv" "x_pem_Decode X keyPEM = Some kblock"
    "x_ParsePKCS8 X (pem_Bytes kblock) = Inr (Ed25519 priv)"
    by blast
  show ?thesis
  proof (cases "Sign X rnd' now ca req")
    case (Inl e)
    with b show ?thesis
      by (auto simp: Sign_def Let_def serialNumber_def split: sum.splits)
  next
    case (Inr p)
    from Sign_Inr [OF assms(1) Inr] b show ?thesis
      unfolding Inr by (auto simp: matches_template_def)
  qed
qed

theorem csr_sign_roundtrip_witness:
  "\<exists>csr k ca p c. NewCSR plain_x509 (Inr (\<lambda>_. CHR ''k'')) ''rexec-agentd'' = Inr (csr, k) \<and>
     Sign plain_x509 (Inr (\<lambda>_. CHR ''s'')) 1000 ca
       \<lparr>CSRPEM = csr, Roles = [], Validity = 5, Client = False, sr_DNSNames = [''localhost''], IPs = []\<rparr> = Inr p \<and>
     ParseCert plain_x509 p = Inr c \<and> CommonName (Subject c) = ''rexec-agentd''"
proof -
  obtain csr k where csr: "NewCSR plain_x509 (Inr (\<lambda>_. CHR ''k'')) ''rexec-agentd'' = Inr (csr, k)"
    using plain_NewCSR by blast
  let ?req = "\<lparr>CSRPEM = csr, Roles = [], Validity = 5, Client = False, sr_DNSNames = [''localhost''], IPs = []\<rparr>"
  have req: "NewCSR plain_x509 (Inr (\<lambda>_. CHR ''k'')) ''rexec-agentd'' = Inr (CSRPEM ?req, k)"
    using csr by simp
  obtain p where p: "Sign plain_x509 (Inr (\<lambda>_. CHR ''s'')) 1000 undefined ?req = Inr p"
    using plain_Sign [OF req] by blast
  from csr_sign_roundtrip [OF plain_x509_laws req, of "Inr (\<lambda>_. CHR ''s'')" 1000 undefined] p csr
  show ?thesis by fastforce
qed

text \<open>
  Fact: a fingerprint is 64 lower-case hexadecimal digits, is the same for a certificate and for
  its PEM text, and two certificates have the same fingerprint only if their digests agree.
\<close>

theorem fingerprint_spec:
  assumes "x509_laws X"
  shows "length (Fingerprint X c) = 64 \<and> set (Fingerprint X c) \<subseteq> set hex_digits \<and>
    (Fingerprint X c = Fingerprint X d \<longleftrightarrow> x_sha256 X (Raw c) = x_sha256 X (Raw d)) \<and>
    FingerprintPEM X p = (case ParseCert X p of Inl e \<Rightarrow> Inl e | Inr e \<Rightarrow> Inr (Fingerprint X e))"
  using x509_lawsD(8) [OF assms] set_hex
  by (auto simp: Fingerprint_def FingerprintPEM_def hex_inject split: sum.splits)

theorem fingerprint_spec_witness: "length (Fingerprint plain_x509 zero_certificate) = 64"
  using fingerprint_spec [OF plain_x509_laws, of zero_certificate] by simp

end
