(* ===== verification/Enroll.thy ===== *)
theory Enroll
  imports Pki Authz Token_Store
begin

text \<open>
  \<^verbatim>\<open>internal/enroll/enroll.go\<close>: a join token for a signed client certificate. The Go interface
  \<^verbatim>\<open>TokenConsumer\<close> is a locale here: the laws its comment promises of \<^verbatim>\<open>Consume\<close>, the lemmas about
  \<^verbatim>\<open>Service.Enroll\<close> that need only them, and an interpretation on the file store.
\<close>

section \<open>Service\<close>

datatype enroll_error = EnrollToken token_error | EnrollSign pki_error | EnrollFingerprint pki_error

record Result =
  ClientCertPEM :: bytes
  CAPEM :: bytes
  res_AgentID :: string
  res_Fingerprint :: string

record Service =
  svc_ca :: CA
  serverCertPEM :: bytes
  svc_agentID :: string
  leafValidity :: duration

definition NewService :: "CA \<Rightarrow> bytes \<Rightarrow> string \<Rightarrow> duration \<Rightarrow> Service" where
  "NewService ca serverCert agentID validity =
     \<lparr>svc_ca = ca, serverCertPEM = serverCert, svc_agentID = agentID, leafValidity = validity\<rparr>"

definition client_request :: "Service \<Rightarrow> bytes \<Rightarrow> string \<Rightarrow> SignRequest" where
  "client_request svc csrPEM role =
     \<lparr>CSRPEM = csrPEM, Roles = [role], Validity = leafValidity svc, Client = True,
      sr_DNSNames = [], IPs = []\<rparr>"

text \<open>The token consumer is the argument \<open>Consume\<close>, a method on the state of the store.\<close>

definition Service_Enroll ::
  "x509_env \<Rightarrow> entropy \<Rightarrow> instant \<Rightarrow> (string \<Rightarrow> 's \<Rightarrow> 's \<times> (token_error + string)) \<Rightarrow> Service \<Rightarrow>
   bytes \<Rightarrow> string \<Rightarrow> 's \<Rightarrow> 's \<times> (enroll_error + Result)" where
  "Service_Enroll X rnd now Consume svc csrPEM tokenValue s =
     (case Consume tokenValue s of
        (s', Inl err) \<Rightarrow> (s', Inl (EnrollToken err))
      | (s', Inr role) \<Rightarrow>
          (s', and_then (wrap_error EnrollSign (Sign X rnd now (svc_ca svc) (client_request svc csrPEM role)))
            (\<lambda>clientCert.
               and_then (wrap_error EnrollFingerprint (FingerprintPEM X (serverCertPEM svc))) (\<lambda>fingerprint.
                 Inr \<lparr>ClientCertPEM = clientCert, CAPEM = CertPEM X (svc_ca svc),
                      res_AgentID = svc_agentID svc, res_Fingerprint = fingerprint\<rparr>))))"

lemma client_request_simps [simp]:
  "CSRPEM (client_request svc csr role) = csr" "Roles (client_request svc csr role) = [role]"
  "Client (client_request svc csr role)" "Validity (client_request svc csr role) = leafValidity svc"
  "sr_DNSNames (client_request svc csr role) = []" "IPs (client_request svc csr role) = []"
  by (simp_all add: client_request_def)

lemma Service_Enroll_Inr:
  "Service_Enroll X rnd now Consume svc csr tok s = (s', Inr res) \<longleftrightarrow>
     (\<exists>role. Consume tok s = (s', Inr role) \<and>
        Sign X rnd now (svc_ca svc) (client_request svc csr role) = Inr (ClientCertPEM res) \<and>
        FingerprintPEM X (serverCertPEM svc) = Inr (res_Fingerprint res) \<and>
        CAPEM res = CertPEM X (svc_ca svc) \<and> res_AgentID res = svc_agentID svc)"
  by (cases res) (auto simp: Service_Enroll_def split: prod.splits sum.splits)

text \<open>The state after a call is the state after \<^verbatim>\<open>Consume\<close>: signing comes later and keeps it.\<close>

lemma Service_Enroll_state: "fst (Service_Enroll X rnd now Consume svc csr tok s) = fst (Consume tok s)"
  by (auto simp: Service_Enroll_def split: prod.splits sum.splits)

lemma Service_Enroll_refused:
  "snd (Consume tok s) = Inl e \<Longrightarrow>
     Service_Enroll X rnd now Consume svc csr tok s = (fst (Consume tok s), Inl (EnrollToken e))"
  by (auto simp: Service_Enroll_def split: prod.splits)

section \<open>The interface TokenConsumer\<close>

text \<open>
  \<open>Consume w\<close> is the method in the world \<open>w\<close> (its clock and the failures around it). \<open>gone s v\<close>:
  the store will not accept \<open>v\<close>. A token that was accepted is gone, a token that is gone is
  refused, and \<^verbatim>\<open>Consume\<close> brings no token back.
\<close>

locale token_consumer =
  fixes Consume :: "'w \<Rightarrow> string \<Rightarrow> 's \<Rightarrow> 's \<times> (token_error + string)"
    and ok :: bool
    and gone :: "'s \<Rightarrow> string \<Rightarrow> bool"
  assumes accepted_gone: "ok \<Longrightarrow> Consume w v s = (s', Inr role) \<Longrightarrow> gone s' v"
    and gone_refused: "ok \<Longrightarrow> gone s v \<Longrightarrow> \<exists>e. snd (Consume w v s) = Inl e"
    and gone_stays: "ok \<Longrightarrow> gone s v \<Longrightarrow> gone (fst (Consume w u s)) v"
begin

text \<open>Any number of later enrollments, by anyone, cannot bring a spent token back.\<close>

fun enroll_all ::
  "x509_env \<Rightarrow> Service \<Rightarrow> (entropy \<times> instant \<times> 'w \<times> bytes \<times> string) list \<Rightarrow> 's \<Rightarrow> 's" where
  "enroll_all X svc [] s = s"
| "enroll_all X svc ((rnd, now, w, csr, v) # rest) s =
     enroll_all X svc rest (fst (Service_Enroll X rnd now (Consume w) svc csr v s))"

lemma gone_enroll_all: "ok \<Longrightarrow> gone s v \<Longrightarrow> gone (enroll_all X svc es s) v"
  by (induction X svc es s rule: enroll_all.induct) (auto simp: Service_Enroll_state gone_stays)

lemma enroll_gone:
  assumes "ok" "gone s v"
  shows "\<exists>e. snd (Service_Enroll X rnd now (Consume w) svc csr v s) = Inl (EnrollToken e)"
  using gone_refused [OF assms, of w] Service_Enroll_refused by fastforce

text \<open>Past the token check, the token is gone whatever happens to the request.\<close>

lemma enroll_burns:
  assumes "ok" "snd (Service_Enroll X rnd now (Consume w) svc csr v s) = r" "\<nexists>e. r = Inl (EnrollToken e)"
  shows "gone (fst (Service_Enroll X rnd now (Consume w) svc csr v s)) v"
proof (cases "Consume w v s")
  case (Pair s' t)
  then show ?thesis
  proof (cases t)
    case (Inl e)
    with Pair assms(2,3) show ?thesis by (auto simp: Service_Enroll_def)
  next
    case (Inr role)
    with Pair have "gone s' v" using accepted_gone [OF assms(1)] by blast
    with Pair show ?thesis by (simp add: Service_Enroll_state)
  qed
qed

end

text \<open>The world of the file store: its faults and its clock.\<close>

lemma stored_gone_step:
  assumes "json_laws J" "token_entry J st s v = None"
  shows "token_entry J st (fst (FileStore_Consume F J st u now s)) v = None"
    and "\<exists>e. snd (FileStore_Consume F J st v now s) = Inl e"
proof -
  have no: False
    if "token_entry J st (fst (FileStore_Consume F J st u now s)) v = Some x" for x
    using token_entry_step [OF assms(1), of "TConsume F u now" st s v x] that assms(2) by simp
  show "token_entry J st (fst (FileStore_Consume F J st u now s)) v = None"
    using no by (metis option.exhaust)
  show "\<exists>e. snd (FileStore_Consume F J st v now s) = Inl e"
  proof (cases "snd (FileStore_Consume F J st v now s)")
    case (Inr role)
    then have "token_redeemed J st (TConsume F v now) s = Some (v, role)" by simp
    from token_redeemed_stored [OF assms(1) this] assms(2) show ?thesis
      by (auto simp: token_entry_def)
  qed simp
qed

interpretation fstore: token_consumer
  "\<lambda>(F, now) v s. FileStore_Consume F J st v now s" "json_laws J" "\<lambda>s v. token_entry J st s v = None"
  for J st
proof
  fix w :: "faults \<times> instant" and v s s' role
  assume J: "json_laws J" and c: "(case w of (F, now) \<Rightarrow> \<lambda>v s. FileStore_Consume F J st v now s) v s = (s', Inr role)"
  obtain F now where w: "w = (F, now)" by fastforce
  have "token_redeemed J st (TConsume F v now) s = Some (v, role)"
    using c w by simp
  from token_redeemed_stored [OF J this] show "token_entry J st s' v = None"
    using c w by (auto simp: token_entry_def)
qed (auto split: prod.splits intro: stored_gone_step [unfolded prod.collapse])

section \<open>Properties\<close>

text \<open>
  Fact: what an enrollment gives. If \<^verbatim>\<open>Enroll\<close> succeeds, the token consumer accepted the token with
  some role, and the returned client certificate is for the key of the request, carries exactly
  that role as its organization, serves client authentication only, cannot act as a CA or as a
  server, and verifies against the CA; the CA text parses to the agent's CA certificate and the
  fingerprint is that of the agent's own server certificate.
\<close>

theorem enroll_success_spec:
  assumes "x509_laws X" "ca_wf X (svc_ca svc)"
    and "Service_Enroll X rnd now Consume svc csr tok s = (s', Inr res)"
  shows "\<exists>role c block r sc. Consume tok s = (s', Inr role) \<and>
    x_pem_Decode X csr = Some block \<and> x_ParseRequest X (pem_Bytes block) = Inr r \<and>
    ParseCert X (ClientCertPEM res) = Inr c \<and> PublicKey c = csr_PublicKey r \<and>
    set (Organization (Subject c)) = {role} \<and> ExtKeyUsage c = [ExtKeyUsageClientAuth] \<and>
    \<not> IsCA c \<and> \<not> may_sign c \<and> NotAfter c = to_second (now + leafValidity svc) \<and>
    x_CheckSignatureFrom X (ca_cert (svc_ca svc)) c \<and>
    RoleFromCert c = (if rank_of role = 0 then RolePublic else role) \<and>
    ParseCert X (CAPEM res) = Inr (ca_cert (svc_ca svc)) \<and>
    ParseCert X (serverCertPEM svc) = Inr sc \<and> res_Fingerprint res = Fingerprint X sc \<and>
    res_AgentID res = svc_agentID svc"
proof -
  from assms(3) obtain role where e: "Consume tok s = (s', Inr role)"
      "Sign X rnd now (svc_ca svc) (client_request svc csr role) = Inr (ClientCertPEM res)"
      "FingerprintPEM X (serverCertPEM svc) = Inr (res_Fingerprint res)"
      "CAPEM res = CertPEM X (svc_ca svc)" "res_AgentID res = svc_agentID svc"
    unfolding Service_Enroll_Inr by blast
  from Sign_Inr [OF assms(1) e(2)] assms(2) obtain block r serial c where c:
      "x_pem_Decode X csr = Some block" "x_ParseRequest X (pem_Bytes block) = Inr r"
      "ParseCert X (ClientCertPEM res) = Inr c"
      "matches_template (leaf_template serial (CommonName (csr_Subject r)) (client_request svc csr role) now)
        (csr_PublicKey r) c"
      "x_CheckSignatureFrom X (ca_cert (svc_ca svc)) c"
    by auto
  have org: "set (Organization (Subject c)) = {role}"
    using c(4) by (simp add: matches_template_def)
  note role = RoleFromCert_only [OF org]
  from e(3) obtain sc where sc: "ParseCert X (serverCertPEM svc) = Inr sc" "res_Fingerprint res = Fingerprint X sc"
    by (auto simp: FingerprintPEM_def)
  from c(4) have "PublicKey c = csr_PublicKey r" "ExtKeyUsage c = [ExtKeyUsageClientAuth]" "\<not> IsCA c"
      "\<not> may_sign c" "NotAfter c = to_second (now + leafValidity svc)"
    by (simp_all add: matches_template_def may_sign_def)
  with e c org role sc ParseCert_CertPEM [OF assms(1,2)] show ?thesis
    by - (rule exI [of _ role], rule exI [of _ c], rule exI [of _ block], rule exI [of _ r],
        rule exI [of _ sc], simp)
qed

text \<open>
  C7: a certificate is worth one token. Starting from a store without the token, whatever
  sequence of store operations went before: if an enrollment with that token succeeds, the token
  was minted by \<^verbatim>\<open>token new\<close> with exactly the role that is the certificate's organization and
  had not expired; and after it every further enrollment with it is refused, in every world.
\<close>

theorem enroll_needs_issued_token:
  assumes "x509_laws X" "json_laws J" "list_all token_legal as" "token_entry J st s0 v = None"
    and "s = run_ops (token_step J st) as s0"
    and "Service_Enroll X rnd now (\<lambda>v s. FileStore_Consume F J st v now s) svc csr v s = (s', Inr res)"
  shows "(\<exists>before G gen role ttl t after c. as = before @ TIssue G gen role ttl t # after \<and>
      token_randToken gen = Inr v \<and> now \<le> t + ttl \<and>
      ParseCert X (ClientCertPEM res) = Inr c \<and> set (Organization (Subject c)) = {role}) \<and>
    (\<exists>e. snd (Service_Enroll X rnd2 now2 (\<lambda>v s. FileStore_Consume F2 J st v now2 s) svc csr2 v s') =
      Inl (EnrollToken e))"
proof
  from assms(6) obtain role where e: "FileStore_Consume F J st v now s = (s', Inr role)"
      "Sign X rnd now (svc_ca svc) (client_request svc csr role) = Inr (ClientCertPEM res)"
    unfolding Service_Enroll_Inr by blast
  then have red: "token_redeemed J st (TConsume F v now) s = Some (v, role)" by simp
  from tok.redeemed_was_issued [OF assms(2,3) _ assms(4) red [unfolded assms(5)]]
  obtain before b after x where b: "as = before @ b # after"
      "token_issued J st b (run_ops (token_step J st) before s0) = Some (v, role, x)" "now \<le> x"
    by auto
  then obtain G gen ttl t where "b = TIssue G gen role ttl t" "token_randToken gen = Inr v" "x = t + ttl"
    by (cases b) (auto simp: FileStore_Issue_def split: sum.splits prod.splits)
  moreover obtain c where "ParseCert X (ClientCertPEM res) = Inr c" "set (Organization (Subject c)) = {role}"
    using Sign_Inr [OF assms(1) e(2)] by (auto simp: matches_template_def)
  ultimately show "\<exists>before G gen role ttl t after c. as = before @ TIssue G gen role ttl t # after \<and>
      token_randToken gen = Inr v \<and> now \<le> t + ttl \<and>
      ParseCert X (ClientCertPEM res) = Inr c \<and> set (Organization (Subject c)) = {role}"
    using b by blast
  have "token_entry J st s' v = None"
    using fstore.accepted_gone [OF assms(2), where w = "(F, now)" and st = st and v = v and s = s] e(1) by simp
  then show "\<exists>e. snd (Service_Enroll X rnd2 now2 (\<lambda>v s. FileStore_Consume F2 J st v now2 s) svc csr2 v s') =
      Inl (EnrollToken e)"
    using fstore.enroll_gone [OF assms(2), where w = "(F2, now2)" and st = st and s = s' and v = v] by simp
qed

text \<open>
  Fact: a token is spent even when the enrollment then fails: if the answer is any other error
  than a refused token (a malformed request, a failing signature or fingerprint), the next
  enrollment with the same token is refused.
\<close>

theorem failed_enroll_burns_token:
  assumes "json_laws J"
    and "Service_Enroll X rnd now (\<lambda>v s. FileStore_Consume F J st v now s) svc csr v s = (s', r)"
    and "\<nexists>e. r = Inl (EnrollToken e)"
  shows "\<exists>e. snd (Service_Enroll X rnd2 now2 (\<lambda>v s. FileStore_Consume F2 J st v now2 s) svc csr2 v s') =
      Inl (EnrollToken e)"
proof -
  have "token_entry J st s' v = None"
    using fstore.enroll_burns [OF assms(1), where w = "(F, now)" and st = st and s = s and v = v and r = r
        and X = X and rnd = rnd and now = now and svc = svc and csr = csr] assms(2,3) by simp
  then show ?thesis
    using fstore.enroll_gone [OF assms(1), where w = "(F2, now2)" and st = st and s = s' and v = v] by simp
qed

section \<open>The properties at concrete inputs\<close>

lemma demo_service:
  obtains svc csr where "ca_wf plain_x509 (svc_ca svc)"
    and "\<And>Consume tok (s :: 's) s' role rnd now. Consume tok s = (s', Inr role) \<Longrightarrow>
      \<exists>res. Service_Enroll plain_x509 (Inr rnd) now Consume svc csr tok s = (s', Inr res)"
proof -
  obtain ca where ca: "NewCA plain_x509 (Inr (\<lambda>_. CHR ''c'')) (Inr (\<lambda>_. CHR ''n'')) 0 ''CA'' DefaultCAValidity = Inr ca"
    using plain_NewCA by blast
  obtain csr k where csr: "NewCSR plain_x509 (Inr (\<lambda>_. CHR ''k'')) ''rexec@host'' = Inr (csr, k)"
    using plain_NewCSR by blast
  let ?svc = "\<lambda>p. NewService ca p ''agent'' DefaultLeafValidity"
  have sign: "\<exists>p. Sign plain_x509 (Inr f) now ca (client_request (?svc q) csr role) = Inr p" for f now role q
    using plain_Sign [of "Inr (\<lambda>_. CHR ''k'')" "''rexec@host''" "client_request (?svc q) csr role" k] csr by simp
  obtain p where p: "Sign plain_x509 (Inr (\<lambda>_. CHR ''s'')) 0 ca (client_request (?svc []) csr ''x'') = Inr p"
    using sign by blast
  obtain c where "ParseCert plain_x509 p = Inr c" using Sign_Inr [OF plain_x509_laws p] by blast
  then obtain fp where fp: "FingerprintPEM plain_x509 p = Inr fp" by (simp add: FingerprintPEM_def)
  show thesis
  proof (rule that [of "?svc p" csr])
    show "ca_wf plain_x509 (svc_ca (?svc p))"
      using NewCA_wf [OF plain_x509_laws ca] by (simp add: NewService_def)
    fix Consume :: "string \<Rightarrow> 's \<Rightarrow> 's \<times> (token_error + string)" and tok s s' role rnd now
    assume "Consume tok s = (s', Inr role)"
    then show "\<exists>res. Service_Enroll plain_x509 (Inr rnd) now Consume (?svc p) csr tok s = (s', Inr res)"
      using sign [of rnd now p role] fp by (auto simp: Service_Enroll_def NewService_def)
  qed
qed

theorem enroll_success_spec_witness:
  "\<exists>svc csr res c. Service_Enroll plain_x509 (Inr (\<lambda>_. CHR ''r'')) 0 (\<lambda>v s. (s, Inr RoleOperator)) svc csr ''t'' ()
       = ((), Inr res) \<and>
     ParseCert plain_x509 (ClientCertPEM res) = Inr c \<and> RoleFromCert c = RoleOperator"
proof (rule demo_service [where 's = unit])
  fix svc csr
  assume wf: "ca_wf plain_x509 (svc_ca svc)"
    and run: "\<And>Consume tok (s :: unit) s' role rnd now. Consume tok s = (s', Inr role) \<Longrightarrow>
      \<exists>res. Service_Enroll plain_x509 (Inr rnd) now Consume svc csr tok s = (s', Inr res)"
  obtain res where res: "Service_Enroll plain_x509 (Inr (\<lambda>_. CHR ''r'')) 0 (\<lambda>v s. (s, Inr RoleOperator)) svc csr ''t'' ()
      = ((), Inr res)"
    using run [of "\<lambda>v s. (s, Inr RoleOperator)" "''t''"] by blast
  from enroll_success_spec [OF plain_x509_laws wf res] res show ?thesis by auto
qed

text \<open>The token of the demonstration store, redeemed for a certificate.\<close>

lemma demo_enrolled:
  obtains svc csr res s' where "Service_Enroll plain_x509 (Inr (\<lambda>_. CHR ''r'')) 650
       (\<lambda>v s. FileStore_Consume no_faults plain_json demo_store v 650 s) svc csr demo_token
       (run_ops (token_step plain_json demo_store) [demo_issue] empty_os) = (s', Inr res)"
proof (rule demo_service [where 's = os])
  let ?s = "run_ops (token_step plain_json demo_store) [demo_issue] empty_os"
  fix svc csr
  assume run: "\<And>Consume tok (s :: os) s' role rnd now. Consume tok s = (s', Inr role) \<Longrightarrow>
      \<exists>res. Service_Enroll plain_x509 (Inr rnd) now Consume svc csr tok s = (s', Inr res)"
  have "snd (FileStore_Consume no_faults plain_json demo_store demo_token 650 ?s) = Inr ''rex:admin''"
    using demo_consumed [OF demo_after_issue] by simp
  then obtain s' where "FileStore_Consume no_faults plain_json demo_store demo_token 650 ?s = (s', Inr ''rex:admin'')"
    by (metis prod.collapse)
  from run [where Consume = "\<lambda>v s. FileStore_Consume no_faults plain_json demo_store v 650 s", OF this]
  show thesis using that by blast
qed

theorem enroll_needs_issued_token_witness:
  "\<exists>svc csr s' res e. Service_Enroll plain_x509 (Inr (\<lambda>_. CHR ''r'')) 650
       (\<lambda>v s. FileStore_Consume no_faults plain_json demo_store v 650 s) svc csr demo_token
       (run_ops (token_step plain_json demo_store) [demo_issue] empty_os) = (s', Inr res) \<and>
     snd (Service_Enroll plain_x509 (Inr (\<lambda>_. CHR ''z'')) 660
       (\<lambda>v s. FileStore_Consume no_faults plain_json demo_store v 660 s) svc csr demo_token s') = Inl (EnrollToken e)"
proof (rule demo_enrolled)
  fix svc csr res s'
  assume e: "Service_Enroll plain_x509 (Inr (\<lambda>_. CHR ''r'')) 650
      (\<lambda>v s. FileStore_Consume no_faults plain_json demo_store v 650 s) svc csr demo_token
      (run_ops (token_step plain_json demo_store) [demo_issue] empty_os) = (s', Inr res)"
  have legal: "list_all token_legal [demo_issue]"
    using demo_legal(1) by (simp del: token_legal.simps)
  from conjunct2 [OF enroll_needs_issued_token [OF plain_x509_laws plain_json_laws legal demo_legal(2) refl e],
      of "Inr (\<lambda>_. CHR ''z'')" 660 no_faults csr] e
  show ?thesis by blast
qed

theorem failed_enroll_burns_token_witness:
  "\<exists>svc csr s' e. snd (Service_Enroll plain_x509 (Inr (\<lambda>_. CHR ''z'')) 660
       (\<lambda>v s. FileStore_Consume (unreadable ''EMFILE'') plain_json demo_store v 660 s) svc csr demo_token s') =
     Inl (EnrollToken e)"
proof (rule demo_enrolled)
  fix svc csr res s'
  assume e: "Service_Enroll plain_x509 (Inr (\<lambda>_. CHR ''r'')) 650
      (\<lambda>v s. FileStore_Consume no_faults plain_json demo_store v 650 s) svc csr demo_token
      (run_ops (token_step plain_json demo_store) [demo_issue] empty_os) = (s', Inr res)"
  have "\<exists>e. snd (Service_Enroll plain_x509 (Inr (\<lambda>_. CHR ''z'')) 660
       (\<lambda>v s. FileStore_Consume (unreadable ''EMFILE'') plain_json demo_store v 660 s) svc csr demo_token s') =
     Inl (EnrollToken e)"
    by (rule failed_enroll_burns_token [OF plain_json_laws e]) simp
  then show ?thesis by blast
qed

end
