(* ===== verification/Policy_Rules.thy ===== *)
theory Policy_Rules
  imports Go_OS
begin

text \<open>
  \<^verbatim>\<open>internal/policy/policy.go\<close>: the agent's local policy on destructive commands, its
  evaluation and its loading from \<^verbatim>\<open>policy.yaml\<close>. A mode is a string, as in the source: the
  file can hold any value. The YAML decoder is third-party code and a parameter of
  \<open>policy_Load\<close>.
\<close>

section \<open>The policy\<close>

type_synonym Mode = string

definition ModeDeny :: Mode where "ModeDeny = ''deny''"
definition ModeAllow :: Mode where "ModeAllow = ''allow''"
definition ModeAsk :: Mode where "ModeAsk = ''ask''"

lemmas mode_defs [go_defs] = ModeDeny_def ModeAllow_def ModeAsk_def

lemma modes_distinct [simp]:
  "ModeDeny \<noteq> ModeAllow" "ModeDeny \<noteq> ModeAsk" "ModeAllow \<noteq> ModeAsk"
  "ModeAllow \<noteq> ModeDeny" "ModeAsk \<noteq> ModeDeny" "ModeAsk \<noteq> ModeAllow"
  "ModeAllow \<noteq> []" "ModeAsk \<noteq> []" "ModeDeny \<noteq> []"
  by (simp_all add: go_defs)

record Policy =
  Destructive :: Mode
  Allow :: "string list"
  Deny :: "string list"

datatype Decision = DecisionDeny | DecisionAllow | DecisionAsk

definition policy_Default :: Policy where
  "policy_Default = \<lparr>Destructive = ModeDeny, Allow = [], Deny = []\<rparr>"

section \<open>Evaluate\<close>

fun policy_contains :: "string list \<Rightarrow> string \<Rightarrow> bool" where
  "policy_contains [] v = False"
| "policy_contains (item # list) v = (if item = v then True else policy_contains list v)"

definition Policy_Evaluate :: "Policy \<Rightarrow> string \<Rightarrow> Decision" where
  "Policy_Evaluate p command =
     (if policy_contains (Deny p) command then DecisionDeny
      else if Destructive p = ModeAllow then
        (if 0 < length (Allow p) \<and> \<not> policy_contains (Allow p) command then DecisionDeny
         else DecisionAllow)
      else if Destructive p = ModeAsk then
        (if policy_contains (Allow p) command then DecisionAllow else DecisionAsk)
      else DecisionDeny)"

lemma policy_contains_iff [simp]: "policy_contains l v \<longleftrightarrow> v \<in> set l"
  by (induction l) auto

lemma Policy_Evaluate_Default [simp]: "Policy_Evaluate policy_Default c = DecisionDeny"
  by (simp add: Policy_Evaluate_def policy_Default_def)

lemma Policy_Evaluate_Allow:
  "Policy_Evaluate p c = DecisionAllow \<longleftrightarrow>
     c \<notin> set (Deny p) \<and>
     (Destructive p = ModeAllow \<and> (Allow p = [] \<or> c \<in> set (Allow p)) \<or>
      Destructive p = ModeAsk \<and> c \<in> set (Allow p))"
  by (auto simp: Policy_Evaluate_def)

lemma Policy_Evaluate_Ask:
  "Policy_Evaluate p c = DecisionAsk \<longleftrightarrow>
     c \<notin> set (Deny p) \<and> Destructive p = ModeAsk \<and> c \<notin> set (Allow p)"
  by (auto simp: Policy_Evaluate_def)

text \<open>Decisions in the order of what they permit: deny, ask, allow.\<close>

fun permits :: "Decision \<Rightarrow> nat" where
  "permits DecisionDeny = 0"
| "permits DecisionAsk = 1"
| "permits DecisionAllow = 2"

lemma permits_inject: "permits d = permits d' \<longleftrightarrow> d = d'"
  by (cases d; cases d') simp_all

instantiation Decision :: linorder
begin

definition less_eq_Decision :: "Decision \<Rightarrow> Decision \<Rightarrow> bool" where
  "less_eq_Decision d d' \<longleftrightarrow> permits d \<le> permits d'"

definition less_Decision :: "Decision \<Rightarrow> Decision \<Rightarrow> bool" where
  "less_Decision d d' \<longleftrightarrow> permits d < permits d'"

instance
  by standard (auto simp: less_eq_Decision_def less_Decision_def permits_inject)

end

section \<open>Load\<close>

datatype policy_error = PolicyRead os_error | PolicyDecode string

definition policy_Load ::
  "faults \<Rightarrow> (bytes \<Rightarrow> string + Policy) \<Rightarrow> string \<Rightarrow> os \<Rightarrow> policy_error + Policy" where
  "policy_Load F yaml_Unmarshal path s =
     (case os_ReadFile F path s of (data, err) \<Rightarrow>
        if is_ErrNotExist err then Inr policy_Default
        else case err of
          Some e \<Rightarrow> Inl (PolicyRead e)
        | None \<Rightarrow>
            (case yaml_Unmarshal data of
               Inl e \<Rightarrow> Inl (PolicyDecode e)
             | Inr p \<Rightarrow>
                 Inr (if Destructive p = [] then p\<lparr>Destructive := ModeDeny\<rparr> else p)))"

section \<open>Properties\<close>

text \<open>
  Fact: the outcome of \<^verbatim>\<open>Evaluate\<close>, for every policy and command: the deny list wins over
  everything; a command runs outright only if the mode is allow (and the allow list is empty or
  names it) or the mode is ask and the list pre-approves it; it needs approval exactly when the
  mode is ask and no list names it; an unknown mode denies.
\<close>

theorem evaluate_spec:
  "Policy_Evaluate p c =
     (if c \<in> set (Deny p) then DecisionDeny
      else if Destructive p = ModeAllow \<and> Allow p = [] then DecisionAllow
      else if (Destructive p = ModeAllow \<or> Destructive p = ModeAsk) \<and> c \<in> set (Allow p) then DecisionAllow
      else if Destructive p = ModeAsk then DecisionAsk
      else DecisionDeny)"
  by (auto simp: Policy_Evaluate_def)

text \<open>
  Fact: tightening a policy never permits more. If the new policy denies at least the old names,
  lists at most the old ones as allowed (and does not empty the list, which would lift its
  restriction), and keeps the mode or sets it to deny, then every command gets the old decision
  or a stricter one, in the order deny, ask, allow; and the default is the strictest of all.
\<close>

theorem policy_tightening:
  assumes "set (Deny p) \<subseteq> set (Deny q)" "set (Allow q) \<subseteq> set (Allow p)" "Allow q = [] \<longleftrightarrow> Allow p = []"
    and "Destructive q \<in> {Destructive p, ModeDeny}"
  shows "Policy_Evaluate policy_Default c \<le> Policy_Evaluate q c \<and>
    Policy_Evaluate q c \<le> Policy_Evaluate p c"
  using assms by (auto simp: Policy_Evaluate_def policy_Default_def less_eq_Decision_def)

text \<open>
  Fact: loading fails safe: whatever the file system and the decoder do, a loaded policy lets
  no destructive command through, not even to ask for approval, unless the file was read
  completely, decoded, and itself says allow or ask.
\<close>

theorem load_fails_safe:
  assumes "policy_Load F yaml path s = Inr p" and "Policy_Evaluate p c \<noteq> DecisionDeny"
  shows "\<exists>d. file_data s path = Some d \<and> yaml d = Inr p \<and>
    (Destructive p = ModeAllow \<or> Destructive p = ModeAsk) \<and> c \<notin> set (Deny p)"
proof -
  obtain data err where read: "os_ReadFile F path s = (data, err)" by fastforce
  with assms have err: "err = None"
    by (auto simp: policy_Load_def is_ErrNotExist_def split: if_splits option.splits)
  with read have d: "file_data s path = Some data"
    by (simp add: os_ReadFile_ok)
  from read err assms(1) obtain q where q: "yaml data = Inr q"
      "p = (if Destructive q = [] then q\<lparr>Destructive := ModeDeny\<rparr> else q)"
    by (auto simp: policy_Load_def is_ErrNotExist_def split: sum.splits)
  with assms(2) have "p = q"
    by (auto simp: Policy_Evaluate_def split: if_splits)
  with q d assms(2) show ?thesis
    by (auto simp: Policy_Evaluate_def split: if_splits)
qed

definition example_policy :: Policy where
  "example_policy = \<lparr>Destructive = ''ask'', Allow = [''go'', ''task'', ''docker''],
     Deny = [''rm'', ''rmdir'', ''mkfs'']\<rparr>"

theorem load_fails_safe_witness:
  "\<exists>d. file_data (put_file ''/d/policy.yaml'' ''ask'' perm_0600 \<lparr>os_files = Map.empty, os_dirs = {}\<rparr>)
         ''/d/policy.yaml'' = Some d \<and>
       (\<lambda>_. Inr example_policy :: string + Policy) d = Inr example_policy \<and>
       (Destructive example_policy = ModeAllow \<or> Destructive example_policy = ModeAsk) \<and>
       ''kubectl'' \<notin> set (Deny example_policy)"
  by (rule load_fails_safe [where F = no_faults])
     (simp_all add: policy_Load_def is_ErrNotExist_def example_policy_def Policy_Evaluate_def go_defs)

theorem policy_tightening_witness:
  "Policy_Evaluate (example_policy\<lparr>Deny := ''curl'' # Deny example_policy\<rparr>) ''curl'' \<le> Policy_Evaluate example_policy ''curl''"
  by (rule policy_tightening [THEN conjunct2]) (auto simp: example_policy_def)

end
