(* ===== verification/Policy_Grants.thy ===== *)
theory Policy_Grants
  imports One_Time Go_Encoding
begin

text \<open>
  \<^verbatim>\<open>internal/policy/grants.go\<close>: the pending one-time approvals of the running daemon. The
  store is a map from approval ids to grants; the mutex makes \<^verbatim>\<open>Issue\<close> and \<^verbatim>\<open>Consume\<close> atomic,
  so a concurrent execution is a sequence of these two operations. The theory interprets the
  interface of one-time stores on it.
\<close>

section \<open>State and operations\<close>

datatype grants_error = ErrNoGrant | ErrGrantExpired | ErrCommandMismatch

record grant =
  g_command :: string
  g_expiry :: instant

type_synonym Grants = "string \<rightharpoonup> grant"

definition NewGrants :: Grants where
  "NewGrants = Map.empty"

definition policy_randID :: "entropy \<Rightarrow> string + string" where
  "policy_randID rnd = (case rand_Read 18 rnd of
      Inl e \<Rightarrow> Inl e
    | Inr b \<Rightarrow> Inr (base64_RawURL_EncodeToString b))"

definition Grants_Issue ::
  "entropy \<Rightarrow> string \<Rightarrow> duration \<Rightarrow> instant \<Rightarrow> Grants \<Rightarrow> Grants \<times> (string + string)" where
  "Grants_Issue rnd command ttl now m =
     (case policy_randID rnd of
        Inl e \<Rightarrow> (m, Inl e)
      | Inr aid \<Rightarrow>
          (m(aid \<mapsto> \<lparr>g_command = command, g_expiry = time_Add now ttl\<rparr>), Inr aid))"

definition Grants_Consume ::
  "string \<Rightarrow> string \<Rightarrow> instant \<Rightarrow> Grants \<Rightarrow> Grants \<times> grants_error option" where
  "Grants_Consume aid command now m =
     (case m aid of
        None \<Rightarrow> (m, Some ErrNoGrant)
      | Some rec \<Rightarrow>
          (m(aid := None),
           if time_After now (g_expiry rec) then Some ErrGrantExpired
           else if g_command rec \<noteq> command then Some ErrCommandMismatch
           else None))"

section \<open>Operations as events\<close>

datatype grants_op =
    GIssue entropy string duration instant
  | GConsume string string instant

fun grants_step :: "grants_op \<Rightarrow> Grants \<Rightarrow> Grants" where
  "grants_step (GIssue rnd command ttl now) m = fst (Grants_Issue rnd command ttl now m)"
| "grants_step (GConsume aid command now) m = fst (Grants_Consume aid command now m)"

fun grants_issued :: "grants_op \<Rightarrow> Grants \<Rightarrow> (string \<times> string \<times> instant) option" where
  "grants_issued (GIssue rnd command ttl now) m =
     (case snd (Grants_Issue rnd command ttl now m) of
        Inl e \<Rightarrow> None | Inr aid \<Rightarrow> Some (aid, command, time_Add now ttl))"
| "grants_issued (GConsume aid command now) m = None"

fun grants_redeemed :: "grants_op \<Rightarrow> Grants \<Rightarrow> (string \<times> string) option" where
  "grants_redeemed (GIssue rnd command ttl now) m = None"
| "grants_redeemed (GConsume aid command now) m =
     (if snd (Grants_Consume aid command now m) = None then Some (aid, command) else None)"

fun grants_clock :: "grants_op \<Rightarrow> instant" where
  "grants_clock (GIssue rnd command ttl now) = now"
| "grants_clock (GConsume aid command now) = now"

definition grants_entry :: "Grants \<Rightarrow> string \<Rightarrow> (string \<times> instant) option" where
  "grants_entry m aid = map_option (\<lambda>g. (g_command g, g_expiry g)) (m aid)"

lemma Grants_Consume_ok:
  "Grants_Consume aid command now m = (m', None) \<longleftrightarrow>
     (\<exists>g. m aid = Some g \<and> g_command g = command \<and> now \<le> g_expiry g \<and> m' = m(aid := None))"
  by (auto simp: Grants_Consume_def split: option.splits if_splits)

lemma Grants_Consume_removes: "fst (Grants_Consume aid command now m) = m(aid := None)"
  by (auto simp: Grants_Consume_def split: option.splits)

lemma Grants_Issue_Inr:
  "Grants_Issue rnd command ttl now m = (m', Inr aid) \<longleftrightarrow>
     policy_randID rnd = Inr aid \<and> m' = m(aid \<mapsto> \<lparr>g_command = command, g_expiry = now + ttl\<rparr>)"
  by (auto simp: Grants_Issue_def split: sum.splits)

interpretation gr: expiring_store
  "\<lambda>_. True" "\<lambda>_. True" grants_step grants_entry grants_issued grants_redeemed grants_clock
proof
  fix s :: Grants and a :: grants_op and k v
  assume red: "grants_redeemed a s = Some (k, v)"
  then obtain now where a: "a = GConsume k v now" "snd (Grants_Consume k v now s) = None"
    by (cases a) (auto split: if_splits)
  then have ok: "Grants_Consume k v now s = (fst (Grants_Consume k v now s), None)"
    by (metis prod.collapse)
  show "\<exists>e. grants_entry s k = Some (v, e)"
    using ok unfolding Grants_Consume_ok by (auto simp: grants_entry_def)
  show "grants_entry (grants_step a s) k = None"
    using a by (simp add: Grants_Consume_removes grants_entry_def)
  show "grants_clock a \<le> e" if "grants_entry s k = Some (v, e)" for e
    using that ok a unfolding Grants_Consume_ok by (auto simp: grants_entry_def)
next
  fix s :: Grants and a :: grants_op and k x
  assume "grants_entry (grants_step a s) k = Some x"
  then show "grants_entry s k = Some x \<or> grants_issued a s = Some (k, x)"
    by (cases a)
       (auto simp: Grants_Issue_def Grants_Consume_removes grants_entry_def
          split: sum.splits if_splits)
qed simp

section \<open>Properties\<close>

text \<open>
  Fact: an approval is single-use: over every sequence of issues and redemptions by any number
  of callers, starting from the daemon's empty store, an approval id is accepted at most as
  often as it was issued; in particular, at most once if no two issues drew the same id.
\<close>

theorem grants_single_use:
  "count_obs grants_step grants_redeemed aid as NewGrants
     \<le> count_obs grants_step grants_issued aid as NewGrants"
  using gr.redeemed_le_issued [where s = NewGrants and as = as and k = aid]
  by (simp add: grants_entry_def NewGrants_def list_all_iff)

text \<open>
  Fact: an accepted approval was issued earlier, for the very same command, and not longer ago
  than its time to live.
\<close>

theorem grants_accept_implies_issued:
  assumes "snd (Grants_Consume aid command now (run_ops grants_step as NewGrants)) = None"
  shows "\<exists>before rnd ttl t after. as = before @ GIssue rnd command ttl t # after \<and>
    policy_randID rnd = Inr aid \<and> now \<le> t + ttl"
proof -
  have "grants_redeemed (GConsume aid command now) (run_ops grants_step as NewGrants) = Some (aid, command)"
    using assms by simp
  from gr.redeemed_was_issued [OF _ _ _ _ this]
  obtain before b after e where b: "as = before @ b # after"
      "grants_issued b (run_ops grants_step before NewGrants) = Some (aid, command, e)" "now \<le> e"
    by (auto simp: grants_entry_def NewGrants_def list_all_iff)
  then obtain rnd ttl t where "b = GIssue rnd command ttl t" "policy_randID rnd = Inr aid" "e = t + ttl"
    by (cases b) (auto simp: Grants_Issue_def split: sum.splits)
  with b show ?thesis by blast
qed

theorem grants_accept_implies_issued_witness:
  "\<exists>before rnd ttl t after.
     [GIssue (Inr (\<lambda>_. CHR ''x'')) ''kubectl'' 300 1000] = before @ GIssue rnd ''kubectl'' ttl t # after \<and>
     policy_randID rnd = Inr ''eHh4eHh4eHh4eHh4eHh4eHh4'' \<and> 1200 \<le> t + ttl"
proof (rule grants_accept_implies_issued)
  have aid: "policy_randID (Inr (\<lambda>_. CHR ''x'')) = Inr ''eHh4eHh4eHh4eHh4eHh4eHh4''"
    by code_simp
  show "snd (Grants_Consume ''eHh4eHh4eHh4eHh4eHh4eHh4'' ''kubectl'' 1200
      (run_ops grants_step [GIssue (Inr (\<lambda>_. CHR ''x'')) ''kubectl'' 300 1000] NewGrants)) = None"
    by (simp add: Grants_Issue_def aid Grants_Consume_def)
qed

text \<open>
  Fact: every outcome of \<^verbatim>\<open>Consume\<close>: an unknown id leaves the store as it is; a known one is
  removed whatever the verdict, so that after any call the id is refused as unknown, and the
  verdict is expiry first, then the command, then acceptance. No other approval is touched.
\<close>

theorem grants_consume_spec:
  "Grants_Consume aid command now m =
     (m(aid := None),
      case m aid of
        None \<Rightarrow> Some ErrNoGrant
      | Some g \<Rightarrow> if g_expiry g < now then Some ErrGrantExpired
                  else if g_command g = command then None else Some ErrCommandMismatch)
   \<and> snd (Grants_Consume aid command' now' (fst (Grants_Consume aid command now m))) = Some ErrNoGrant"
  by (auto simp: Grants_Consume_def fun_upd_idem split: option.splits)

text \<open>
  Fact: \<^verbatim>\<open>Issue\<close> then \<^verbatim>\<open>Consume\<close>: the fresh id is accepted for its command up to and including
  its deadline, and the store is as before, when the id was not outstanding.
\<close>

theorem grants_issue_consume:
  assumes "Grants_Issue rnd command ttl t m = (m1, Inr aid)" and "now \<le> t + ttl" and "m aid = None"
  shows "Grants_Consume aid command now m1 = (m, None)"
  using assms by (auto simp: Grants_Issue_Inr Grants_Consume_ok fun_upd_idem)

theorem grants_issue_consume_witness:
  "\<exists>m1 aid. Grants_Consume aid ''helm'' 400 m1 = (NewGrants, None)"
proof -
  obtain m1 aid where "Grants_Issue (Inr (\<lambda>_. CHR ''x'')) ''helm'' 300 100 NewGrants = (m1, Inr aid)"
    by (simp add: Grants_Issue_def policy_randID_def rand_Read_def)
  from grants_issue_consume [OF this, of 400] show ?thesis by (auto simp: NewGrants_def)
qed

end
