(* ===== verification/Agentserver.thy ===== *)
theory Agentserver
  imports Agent_Proto Enroll Policy_Rules Policy_Grants
begin

text \<open>
  \<^verbatim>\<open>internal/agentserver/agentserver.go\<close>: the handlers of the Agent service. The state of an
  agent is its file system (with the token file) and its pending approvals; a stream handler also
  threads what it has sent. A \<^verbatim>\<open>world\<close> is everything a call depends on that is not the
  agent's: certificate algorithms, the JSON codec, file system faults, the clock, entropy, the
  commands of the machine and the rendering of error values as text.
\<close>

section \<open>World, server, state\<close>

record world =
  w_x509 :: x509_env
  w_json :: json_codec
  w_faults :: faults
  w_now :: instant
  w_rnd :: entropy
  w_exec :: os_exec
  w_environ :: "string list"
  w_GOOS :: string
  w_GOARCH :: string
  w_enroll_text :: "enroll_error \<Rightarrow> string"
  w_exec_text :: "exec_error \<Rightarrow> string"
  w_status_text :: "status \<Rightarrow> string"

definition approvalTTL :: duration where
  "approvalTTL = 5 * time_Minute"

record Server =
  srv_enroller :: Service
  srv_tokens :: FileStore
  srv_agentID :: string
  srv_fingerprint :: string
  srv_hostname :: string
  srv_version :: string
  srv_policy :: Policy

record agent_state =
  as_os :: os
  as_grants :: Grants

text \<open>The texts of the errors of \<^verbatim>\<open>Consume\<close> of the pending approvals.\<close>

fun grants_error_text :: "grants_error \<Rightarrow> string" where
  "grants_error_text ErrNoGrant = ''policy: unknown approval id''"
| "grants_error_text ErrGrantExpired = ''policy: approval expired''"
| "grants_error_text ErrCommandMismatch = ''policy: approval does not match command''"

section \<open>Unary handlers\<close>

definition Server_Enroll ::
  "world \<Rightarrow> Server \<Rightarrow> EnrollRequest \<Rightarrow> agent_state \<Rightarrow> agent_state \<times> (status + EnrollResponse)" where
  "Server_Enroll W srv req s =
     (case Service_Enroll (w_x509 W) (w_rnd W) (w_now W)
         (\<lambda>v. FileStore_Consume (w_faults W) (w_json W) (srv_tokens srv) v (w_now W))
         (srv_enroller srv) (CsrPem req) (Token req) (as_os s) of
        (os', Inl err) \<Rightarrow>
          (s\<lparr>as_os := os'\<rparr>, Inl (Errorf PermissionDenied ''%s'' [w_enroll_text W err]))
      | (os', Inr res) \<Rightarrow>
          (s\<lparr>as_os := os'\<rparr>,
           Inr \<lparr>ClientCertPem = ClientCertPEM res, CaPem = CAPEM res, AgentId = res_AgentID res,
                er_Fingerprint = res_Fingerprint res\<rparr>))"

definition Server_Identity ::
  "world \<Rightarrow> Server \<Rightarrow> unit \<Rightarrow> agent_state \<Rightarrow> agent_state \<times> (status + IdentityResponse)" where
  "Server_Identity W srv req s =
     (s, Inr \<lparr>ir_AgentId = srv_agentID srv, ir_Fingerprint = srv_fingerprint srv\<rparr>)"

definition Server_Info ::
  "world \<Rightarrow> Server \<Rightarrow> unit \<Rightarrow> agent_state \<Rightarrow> agent_state \<times> (status + InfoResponse)" where
  "Server_Info W srv req s =
     (s, Inr \<lparr>Os = w_GOOS W, Arch = w_GOARCH W, Hostname = srv_hostname srv, Version = srv_version srv\<rparr>)"

section \<open>Streams\<close>

text \<open>The callback of \<^verbatim>\<open>runStream\<close>: stderr when its slice is not nil, stdout otherwise.\<close>

definition run_emit :: "world \<Rightarrow> server_stream \<Rightarrow> Chunk \<Rightarrow> sent \<Rightarrow> sent \<times> string option" where
  "run_emit W ss c out =
     (let chunk = (case c_Stderr c of
          Some b \<Rightarrow> ExecChunk_Stderr b
        | None \<Rightarrow> ExecChunk_Stdout (case c_Stdout c of None \<Rightarrow> [] | Some b \<Rightarrow> b))
      in case stream_Send ss chunk out of (out', e) \<Rightarrow> (out', map_option (w_status_text W) e))"

definition spec_of :: "ExecRequest \<Rightarrow> Spec" where
  "spec_of req = \<lparr>Command = er_Command req, spec_Args = er_Args req, WorkingDir = er_WorkingDir req,
     spec_Env = er_Env req\<rparr>"

definition runStream :: "world \<Rightarrow> ExecRequest \<Rightarrow> server_stream \<Rightarrow> sent \<Rightarrow> sent \<times> status option" where
  "runStream W req ss out =
     (case execute_Run (w_exec W) (w_environ W) (spec_of req) (run_emit W ss) out of
        (out', Inl err) \<Rightarrow> (out', Some (Errorf Internal ''exec: %v'' [w_exec_text W err]))
      | (out', Inr code) \<Rightarrow> stream_Send ss (ExecChunk_ExitCode (to_int32 code)) out')"

definition Server_Run ::
  "world \<Rightarrow> Server \<Rightarrow> ExecRequest \<Rightarrow> server_stream \<Rightarrow> agent_state \<times> sent \<Rightarrow>
   (agent_state \<times> sent) \<times> status option" where
  "Server_Run W srv req ss st =
     (case runStream W req ss (snd st) of (out', e) \<Rightarrow> ((fst st, out'), e))"

definition approval_reason :: string where
  "approval_reason = ''agent policy requires approval for destructive operations''"

definition Server_Deploy ::
  "world \<Rightarrow> Server \<Rightarrow> ExecRequest \<Rightarrow> server_stream \<Rightarrow> agent_state \<times> sent \<Rightarrow>
   (agent_state \<times> sent) \<times> status option" where
  "Server_Deploy W srv req ss st =
     (case st of (s, out) \<Rightarrow>
        (let command = er_Command req; aid = er_ApprovalId req in
         if aid \<noteq> [] then
           (case Grants_Consume aid command (w_now W) (as_grants s) of
              (g, Some err) \<Rightarrow>
                ((s\<lparr>as_grants := g\<rparr>, out),
                 Some (Errorf PermissionDenied ''approval: %v'' [grants_error_text err]))
            | (g, None) \<Rightarrow>
                (case runStream W req ss out of (out', e) \<Rightarrow> ((s\<lparr>as_grants := g\<rparr>, out'), e)))
         else
           (case Policy_Evaluate (srv_policy srv) command of
              DecisionAllow \<Rightarrow>
                (case runStream W req ss out of (out', e) \<Rightarrow> ((s, out'), e))
            | DecisionAsk \<Rightarrow>
                (case Grants_Issue (w_rnd W) command approvalTTL (w_now W) (as_grants s) of
                   (g, Inl err) \<Rightarrow>
                     ((s\<lparr>as_grants := g\<rparr>, out), Some (Errorf Internal ''approval: %v'' [err]))
                 | (g, Inr fresh) \<Rightarrow>
                     (let op = strings_TrimSpace (command @ '' '' @ strings_Join (er_Args req) '' '') in
                      (case stream_Send ss (ExecChunk_NeedsApproval
                          \<lparr>Operation = op, Reason = approval_reason, ar_ApprovalId = fresh\<rparr>) out of
                        (out', e) \<Rightarrow> ((s\<lparr>as_grants := g\<rparr>, out'), e))))
            | DecisionDeny \<Rightarrow>
                ((s, out), Some (Errorf PermissionDenied
                   ''agent policy denies destructive command %q'' [command])))))"

section \<open>Lemmas\<close>

text \<open>What a piece of output becomes on the wire.\<close>

definition wire :: "bool \<times> bytes \<Rightarrow> ExecChunk" where
  "wire w = (if fst w then ExecChunk_Stderr (snd w) else ExecChunk_Stdout (snd w))"

lemma run_emit_good:
  "ss_fail ss = (\<lambda>_. None) \<Longrightarrow>
     run_emit W ss (chunk_of w) out =
       (\<lparr>sent_msgs = sent_msgs out @ [wire w], sent_tries = sent_tries out + 1\<rparr>, None)"
  by (cases w) (simp add: run_emit_def chunk_of_def wire_def stream_Send_good)

lemma fold_wire:
  "fold (\<lambda>w (out :: sent). \<lparr>sent_msgs = sent_msgs out @ [wire w], sent_tries = Suc (sent_tries out)\<rparr>) ws out =
     \<lparr>sent_msgs = sent_msgs out @ map wire ws, sent_tries = sent_tries out + length ws\<rparr>"
  by (induction ws arbitrary: out) auto

text \<open>What the machine does with a request.\<close>

definition behaviour :: "world \<Rightarrow> ExecRequest \<Rightarrow> proc" where
  "behaviour W req = w_exec W (er_Command req) (er_Args req) (er_WorkingDir req)
     (mergeEnv (w_environ W) (er_Env req))"

lemma runStream_good:
  assumes "ss_fail ss = (\<lambda>_. None)" "er_Command req \<noteq> []"
  shows "runStream W req ss nothing_sent =
    (case behaviour W req of
       StartError e \<Rightarrow> (nothing_sent, Some (Errorf Internal ''exec: %v'' [w_exec_text W (ExecRun (er_Command req) e)]))
     | Started pieces code ctxErr \<Rightarrow>
         if code = 0 \<and> ctxErr \<noteq> None then
           (\<lparr>sent_msgs = map wire pieces, sent_tries = length pieces\<rparr>,
            Some (Errorf Internal ''exec: %v'' [w_exec_text W (ExecRun (er_Command req) (the ctxErr))]))
         else (\<lparr>sent_msgs = map wire pieces @ [ExecChunk_ExitCode (to_int32 code)],
                sent_tries = length pieces + 1\<rparr>, None))"
proof -
  have wr: "chunkWriter_Write (run_emit W ss) = (\<lambda>e p out.
      (\<lparr>sent_msgs = sent_msgs out @ [wire (e, p)], sent_tries = sent_tries out + 1\<rparr>, None))"
    by (simp add: fun_eq_iff chunkWriter_Write_eq run_emit_good [OF assms(1)])
  have "copy_output (chunkWriter_Write (run_emit W ss)) ps (False, False, None) out =
      (\<lparr>sent_msgs = sent_msgs out @ map wire ps, sent_tries = sent_tries out + length ps\<rparr>, None)" for ps out
    unfolding wr by (subst copy_output_all) (simp_all add: fold_wire split_def)
  then show ?thesis
    using assms by (auto simp: runStream_def execute_Run_def exec_Run_def behaviour_def spec_of_def
        stream_Send_good nothing_sent_def split: proc.splits option.splits)
qed

text \<open>Only \<open>runStream\<close> looks at the commands of the machine.\<close>

lemma Server_Deploy_runs:
  assumes "Server_Deploy W srv req ss st \<noteq> Server_Deploy (W\<lparr>w_exec := ex\<rparr>) srv req ss st"
  obtains
    (approved) g where "er_ApprovalId req \<noteq> []" "as_grants (fst st) (er_ApprovalId req) = Some g"
      "g_command g = er_Command req" "w_now W \<le> g_expiry g"
      "Server_Deploy W srv req ss st =
        (case runStream W req ss (snd st) of (out, e) \<Rightarrow>
          (((fst st)\<lparr>as_grants := (as_grants (fst st))(er_ApprovalId req := None)\<rparr>, out), e))"
  | (allowed) "er_ApprovalId req = []" "Policy_Evaluate (srv_policy srv) (er_Command req) = DecisionAllow"
      "Server_Deploy W srv req ss st =
        (case runStream W req ss (snd st) of (out, e) \<Rightarrow> ((fst st, out), e))"
proof (cases "er_ApprovalId req = []")
  case False
  obtain g r where c: "Grants_Consume (er_ApprovalId req) (er_Command req) (w_now W) (as_grants (fst st)) = (g, r)"
    by fastforce
  show thesis
  proof (cases r)
    case None
    with c show thesis
      unfolding None Grants_Consume_ok
      by (elim exE conjE, intro approved [OF False])
         (auto simp: Server_Deploy_def Let_def split_def False Grants_Consume_def split: prod.splits)
  next
    case (Some e)
    with assms False c show thesis by (simp add: Server_Deploy_def Let_def split_def)
  qed
next
  case True
  show thesis
  proof (cases "Policy_Evaluate (srv_policy srv) (er_Command req)")
    case DecisionAllow
    with True show thesis
      by (intro allowed) (auto simp: Server_Deploy_def Let_def split_def split: prod.splits)
  qed (use assms True in \<open>auto simp: Server_Deploy_def Let_def split_def\<close>)
qed

text \<open>The pending approvals a deploy leaves are those of at most one operation on the store.\<close>

definition deploy_grants_ops :: "world \<Rightarrow> Server \<Rightarrow> ExecRequest \<Rightarrow> grants_op list" where
  "deploy_grants_ops W srv req =
     (if er_ApprovalId req \<noteq> [] then [GConsume (er_ApprovalId req) (er_Command req) (w_now W)]
      else if Policy_Evaluate (srv_policy srv) (er_Command req) = DecisionAsk
        then [GIssue (w_rnd W) (er_Command req) approvalTTL (w_now W)]
      else [])"

lemma Server_Deploy_grants:
  "as_grants (fst (fst (Server_Deploy W srv req ss st))) =
     run_ops grants_step (deploy_grants_ops W srv req) (as_grants (fst st))"
  by (auto simp: Server_Deploy_def deploy_grants_ops_def Let_def split_def
      split: option.splits sum.splits Decision.splits prod.splits)

lemma Server_Deploy_os: "as_os (fst (fst (Server_Deploy W srv req ss st))) = as_os (fst st)"
  by (auto simp: Server_Deploy_def Let_def split_def split: option.splits sum.splits Decision.splits)

lemma Server_Enroll_grants [simp]: "as_grants (fst (Server_Enroll W srv req s)) = as_grants s"
  by (auto simp: Server_Enroll_def split: prod.splits sum.splits)

section \<open>Properties\<close>

text \<open>
  C36: what a stream of a command that ran contains: on a working stream, its output in order,
  each piece as stdout or stderr, and then exactly one message more, the exit code as 32 bits;
  the code survives the wire when it fits, and reads as success only if it is a multiple of 2 to
  the 32, that is zero for every code an operating system has. A command that did not start
  sends nothing and is an Internal error.
\<close>

theorem run_stream_spec:
  assumes "ss_fail ss = (\<lambda>_. None)" "er_Command req \<noteq> []"
  shows "(case behaviour W req of
      StartError e \<Rightarrow> sent_msgs (fst (runStream W req ss nothing_sent)) = [] \<and>
        map_option st_code (snd (runStream W req ss nothing_sent)) = Some Internal
    | Started pieces code None \<Rightarrow>
        sent_msgs (fst (runStream W req ss nothing_sent)) =
          map wire pieces @ [ExecChunk_ExitCode (to_int32 code)] \<and>
        snd (runStream W req ss nothing_sent) = None \<and>
        (from_int32 (to_int32 code) = 0 \<longleftrightarrow> 2 ^ 32 dvd code) \<and>
        from_int32 (to_int32 code) = signed_take_bit 31 code
    | Started pieces code (Some e) \<Rightarrow>
        sent_msgs (fst (runStream W req ss nothing_sent)) =
          map wire pieces @ (if code = 0 then [] else [ExecChunk_ExitCode (to_int32 code)]))"
  unfolding runStream_good [OF assms]
  by (auto simp: nothing_sent_def Errorf_def to_int32_0 split: proc.split option.split)
     (simp add: from_int32_def to_int32_def sint_sbintrunc')

text \<open>
  C5: the destructive-operation gate of \<^verbatim>\<open>Deploy\<close>, on every branch. With an approval id the
  approval is consumed first and its refusal is PermissionDenied; without one the policy decides:
  deny is PermissionDenied and changes nothing; ask issues one approval, for exactly this command
  and five minutes, sends it and stops; only an accepted approval or an allow reaches
  \<^verbatim>\<open>runStream\<close>, whose answer is then the answer of the call.
\<close>

theorem deploy_gate_spec:
  "Server_Deploy W srv req ss (s, out) =
     (let command = er_Command req; aid = er_ApprovalId req; G = as_grants s;
          run = (\<lambda>G'. case runStream W req ss out of (out', e) \<Rightarrow> ((s\<lparr>as_grants := G'\<rparr>, out'), e)) in
      if aid \<noteq> [] then
        (case G aid of
           None \<Rightarrow> ((s, out), Some (Errorf PermissionDenied ''approval: %v'' [grants_error_text ErrNoGrant]))
         | Some g \<Rightarrow>
             if g_expiry g < w_now W then
               ((s\<lparr>as_grants := G(aid := None)\<rparr>, out),
                Some (Errorf PermissionDenied ''approval: %v'' [grants_error_text ErrGrantExpired]))
             else if g_command g \<noteq> command then
               ((s\<lparr>as_grants := G(aid := None)\<rparr>, out),
                Some (Errorf PermissionDenied ''approval: %v'' [grants_error_text ErrCommandMismatch]))
             else run (G(aid := None)))
      else if command \<in> set (Deny (srv_policy srv)) then
        ((s, out), Some (Errorf PermissionDenied ''agent policy denies destructive command %q'' [command]))
      else if Policy_Evaluate (srv_policy srv) command = DecisionAllow then run G
      else if Policy_Evaluate (srv_policy srv) command = DecisionAsk then
        (case policy_randID (w_rnd W) of
           Inl err \<Rightarrow> ((s, out), Some (Errorf Internal ''approval: %v'' [err]))
         | Inr fresh \<Rightarrow>
             (case stream_Send ss (ExecChunk_NeedsApproval
                 \<lparr>Operation = strings_TrimSpace (command @ '' '' @ strings_Join (er_Args req) '' ''),
                  Reason = approval_reason, ar_ApprovalId = fresh\<rparr>) out of
               (out', e) \<Rightarrow>
                 ((s\<lparr>as_grants := G(fresh \<mapsto>
                     \<lparr>g_command = command, g_expiry = w_now W + 300 * time_Second\<rparr>)\<rparr>, out'), e)))
      else ((s, out), Some (Errorf PermissionDenied ''agent policy denies destructive command %q'' [command])))"
proof -
  have keep: "s\<lparr>as_grants := as_grants s\<rparr> = s" by simp
  have deny: "er_Command req \<in> set (Deny (srv_policy srv)) \<Longrightarrow>
      Policy_Evaluate (srv_policy srv) (er_Command req) = DecisionDeny"
    by (simp add: Policy_Evaluate_def)
  show ?thesis
    using deny
    by (auto simp: Server_Deploy_def Let_def Grants_Consume_def Grants_Issue_def approvalTTL_def
        time_Minute_def keep algebra_simps split: option.splits sum.splits Decision.splits prod.splits)
qed

text \<open>
  Fact: \<^verbatim>\<open>Deploy\<close> touches the machine only with permission: if the outcome of a call depends on
  what the machine's commands do, the request carried the id of a pending approval for this very
  command that has not expired, and that approval is gone afterwards, or the policy allows the
  command.
\<close>

theorem deploy_runs_only_if_permitted:
  assumes "Server_Deploy W srv req ss st \<noteq> Server_Deploy (W\<lparr>w_exec := ex\<rparr>) srv req ss st"
  shows "(\<exists>g. as_grants (fst st) (er_ApprovalId req) = Some g \<and> g_command g = er_Command req \<and>
      w_now W \<le> g_expiry g \<and>
      as_grants (fst (fst (Server_Deploy W srv req ss st))) = (as_grants (fst st))(er_ApprovalId req := None)) \<or>
    Policy_Evaluate (srv_policy srv) (er_Command req) = DecisionAllow"
  using assms
proof (cases rule: Server_Deploy_runs)
  case (approved g)
  then show ?thesis by (auto split: prod.splits)
qed simp

text \<open>
  Fact: the approval flow. When the policy asks, the first call sends one message, a request for
  approval with a fresh id; a second call with that id and the same command within five minutes
  runs the command, whatever its arguments, environment and directory are; a third call with it
  is refused.
\<close>

theorem approval_flow:
  assumes "ss_fail ss = (\<lambda>_. None)" "er_ApprovalId req = []"
    and "Policy_Evaluate (srv_policy srv) (er_Command req) = DecisionAsk"
    and "policy_randID (w_rnd W) = Inr fresh" "fresh \<noteq> []"
    and "er_Command req2 = er_Command req" "er_ApprovalId req2 = fresh"
    and "w_now W2 \<le> w_now W + 5 * time_Minute"
  shows "\<exists>s1. Server_Deploy W srv req ss (s, nothing_sent) = ((s1, \<lparr>sent_msgs = [ExecChunk_NeedsApproval
      \<lparr>Operation = strings_TrimSpace (er_Command req @ '' '' @ strings_Join (er_Args req) '' ''),
       Reason = approval_reason, ar_ApprovalId = fresh\<rparr>], sent_tries = 1\<rparr>), None) \<and>
    snd (Server_Deploy W2 srv req2 ss2 (s1, out2)) = snd (runStream W2 req2 ss2 out2) \<and>
    snd (fst (Server_Deploy W2 srv req2 ss2 (s1, out2))) = fst (runStream W2 req2 ss2 out2) \<and>
    Server_Deploy W3 srv req2 ss3 (fst (fst (Server_Deploy W2 srv req2 ss2 (s1, out2))), out3) =
      ((fst (fst (Server_Deploy W2 srv req2 ss2 (s1, out2))), out3),
       Some (Errorf PermissionDenied ''approval: %v'' [grants_error_text ErrNoGrant]))"
proof -
  let ?g = "\<lparr>g_command = er_Command req, g_expiry = w_now W + approvalTTL\<rparr>"
  let ?s1 = "s\<lparr>as_grants := (as_grants s)(fresh \<mapsto> ?g)\<rparr>"
  have one: "Server_Deploy W srv req ss (s, nothing_sent) = ((?s1, \<lparr>sent_msgs = [ExecChunk_NeedsApproval
      \<lparr>Operation = strings_TrimSpace (er_Command req @ '' '' @ strings_Join (er_Args req) '' ''),
       Reason = approval_reason, ar_ApprovalId = fresh\<rparr>], sent_tries = 1\<rparr>), None)"
    using assms by (simp add: Server_Deploy_def Grants_Issue_def stream_Send_good nothing_sent_def Let_def)
  have "Grants_Consume fresh (er_Command req) (w_now W2) (as_grants ?s1) = ((as_grants s)(fresh := None), None)"
    using assms(8) by (simp add: Grants_Consume_ok approvalTTL_def)
  then have two: "Server_Deploy W2 srv req2 ss2 (?s1, out2) =
      (case runStream W2 req2 ss2 out2 of (out', e) \<Rightarrow> ((s\<lparr>as_grants := (as_grants s)(fresh := None)\<rparr>, out'), e))"
    using assms(5-7) by (simp add: Server_Deploy_def Let_def)
  have three: "Server_Deploy W3 srv req2 ss3 (s\<lparr>as_grants := (as_grants s)(fresh := None)\<rparr>, out3) =
      ((s\<lparr>as_grants := (as_grants s)(fresh := None)\<rparr>, out3),
       Some (Errorf PermissionDenied ''approval: %v'' [grants_error_text ErrNoGrant]))"
    using assms(5-7) by (simp add: Server_Deploy_def Grants_Consume_def Let_def)
  show ?thesis
    using one two three by (intro exI [of _ ?s1]) (simp add: split_def)
qed

section \<open>The properties at concrete inputs\<close>

definition demo_world :: "os_exec \<Rightarrow> instant \<Rightarrow> world" where
  "demo_world ex now = \<lparr>w_x509 = plain_x509, w_json = plain_json, w_faults = no_faults, w_now = now,
     w_rnd = demo_rnd, w_exec = ex, w_environ = [''PATH=/bin''], w_GOOS = ''linux'', w_GOARCH = ''amd64'',
     w_enroll_text = (\<lambda>_. ''enroll''), w_exec_text = (\<lambda>_. ''exec''), w_status_text = (\<lambda>_. ''status'')\<rparr>"

lemma demo_world_simps [simp]:
  "w_x509 (demo_world ex now) = plain_x509" "w_json (demo_world ex now) = plain_json"
  "w_faults (demo_world ex now) = no_faults" "w_now (demo_world ex now) = now"
  "w_rnd (demo_world ex now) = demo_rnd" "w_exec (demo_world ex now) = ex"
  by (simp_all add: demo_world_def)

definition demo_server :: "Policy \<Rightarrow> Server" where
  "demo_server pol = \<lparr>srv_enroller = NewService \<lparr>ca_cert = zero_certificate, ca_key = ''k''\<rparr> ''pem'' ''agent'' DefaultLeafValidity,
     srv_tokens = demo_store, srv_agentID = ''agent'', srv_fingerprint = ''fp'', srv_hostname = ''host'',
     srv_version = ''dev'', srv_policy = pol\<rparr>"

abbreviation ask_policy :: Policy where
  "ask_policy \<equiv> \<lparr>Destructive = ModeAsk, Allow = [], Deny = [''rm'']\<rparr>"

abbreviation exec_request :: "string \<Rightarrow> string list \<Rightarrow> string \<Rightarrow> ExecRequest" where
  "exec_request command args aid \<equiv> \<lparr>er_Command = command, er_Args = args, er_WorkingDir = '''',
     er_Env = [], er_ApprovalId = aid\<rparr>"

definition one_liner :: os_exec where
  "one_liner c args d env = Started [(False, ''ok'')] 0 None"

definition demo_approval :: string where
  "demo_approval = ''eHh4eHh4eHh4eHh4eHh4eHh4''"

lemma demo_randID: "policy_randID demo_rnd = Inr demo_approval"
  unfolding demo_approval_def by code_simp

lemma demo_asks: "Policy_Evaluate (srv_policy (demo_server ask_policy)) ''kubectl'' = DecisionAsk"
  by (simp add: demo_server_def Policy_Evaluate_def)

theorem run_stream_spec_witness:
  "sent_msgs (fst (runStream (demo_world one_liner 0) (exec_request ''ls'' [] []) (good_stream None) nothing_sent)) =
     [ExecChunk_Stdout ''ok'', ExecChunk_ExitCode 0]"
  using run_stream_spec [of "good_stream None" "exec_request ''ls'' [] []" "demo_world one_liner 0"]
  by (simp add: behaviour_def one_liner_def wire_def to_int32_def)

theorem approval_flow_witness:
  "\<exists>s1. snd (Server_Deploy (demo_world one_liner 299) (demo_server ask_policy)
        (exec_request ''kubectl'' [''delete'', ''ns'', ''prod''] demo_approval) (good_stream None) (s1, nothing_sent)) = None \<and>
     Server_Deploy (demo_world one_liner 0) (demo_server ask_policy) (exec_request ''kubectl'' [''get'', ''pods''] [])
       (good_stream None) (\<lparr>as_os = empty_os, as_grants = NewGrants\<rparr>, nothing_sent) =
     ((s1, \<lparr>sent_msgs = [ExecChunk_NeedsApproval \<lparr>Operation = ''kubectl get pods'', Reason = approval_reason,
        ar_ApprovalId = demo_approval\<rparr>], sent_tries = 1\<rparr>), None)"
proof -
  have op: "strings_TrimSpace (''kubectl'' @ '' '' @ strings_Join [''get'', ''pods''] '' '') = ''kubectl get pods''"
    by code_simp
  have run: "snd (runStream (demo_world one_liner 299) (exec_request ''kubectl'' [''delete'', ''ns'', ''prod''] demo_approval)
      (good_stream None) nothing_sent) = None"
    by (subst runStream_good) (simp_all add: behaviour_def one_liner_def)
  from approval_flow [of "good_stream None" "exec_request ''kubectl'' [''get'', ''pods''] []" "demo_server ask_policy"
      "demo_world one_liner 0" demo_approval "exec_request ''kubectl'' [''delete'', ''ns'', ''prod''] demo_approval"
      "demo_world one_liner 299" "\<lparr>as_os = empty_os, as_grants = NewGrants\<rparr>" "good_stream None" nothing_sent
      "demo_world one_liner 300" "good_stream None" nothing_sent]
  show ?thesis
    using demo_asks demo_randID op run by (auto simp: demo_approval_def time_Minute_def time_Second_def)
qed

theorem deploy_runs_only_if_permitted_witness:
  "Policy_Evaluate (srv_policy (demo_server \<lparr>Destructive = ModeAllow, Allow = [], Deny = []\<rparr>)) ''helm'' = DecisionAllow"
proof -
  let ?srv = "demo_server \<lparr>Destructive = ModeAllow, Allow = [], Deny = []\<rparr>"
  let ?s = "\<lparr>as_os = empty_os, as_grants = NewGrants\<rparr>"
  let ?ex = "\<lambda>_ _ _ _. StartError ''not found''"
  have run: "snd (Server_Deploy W ?srv (exec_request ''helm'' [] []) (good_stream None) (?s, nothing_sent)) =
      snd (runStream W (exec_request ''helm'' [] []) (good_stream None) nothing_sent)" for W
    by (simp add: Server_Deploy_def Let_def demo_server_def Policy_Evaluate_def split_def)
  have "Server_Deploy (demo_world one_liner 0) ?srv (exec_request ''helm'' [] []) (good_stream None) (?s, nothing_sent) \<noteq>
      Server_Deploy ((demo_world one_liner 0)\<lparr>w_exec := ?ex\<rparr>) ?srv (exec_request ''helm'' [] []) (good_stream None) (?s, nothing_sent)"
    using run [of "demo_world one_liner 0"] run [of "(demo_world one_liner 0)\<lparr>w_exec := ?ex\<rparr>"]
    by (auto simp: runStream_good behaviour_def one_liner_def)
  from deploy_runs_only_if_permitted [OF this] show ?thesis by (simp add: NewGrants_def)
qed

end
