(* ===== verification/Agent_Rpc.thy ===== *)
theory Agent_Rpc
  imports Agentserver
begin

text \<open>
  The Agent service behind its gates: the method handlers of the generated
  \<^verbatim>\<open>internal/proto/rexec/v1/agent_grpc.pb.go\<close>, called through the interceptors that
  \<^verbatim>\<open>transport.NewServer\<close> chains in front of them. A call carries its own world; a history of calls
  is a list. The message decoding of gRPC is left out: a call arrives with its decoded request.
\<close>

section \<open>Calls\<close>

datatype rpc =
    RpcEnroll EnrollRequest
  | RpcIdentity
  | RpcInfo
  | RpcRun ExecRequest
  | RpcDeploy ExecRequest

datatype answer =
    AnsEnroll "status + EnrollResponse"
  | AnsIdentity "status + IdentityResponse"
  | AnsInfo "status + InfoResponse"
  | AnsStream "ExecChunk list" "status option"

text \<open>The registered methods: \<^verbatim>\<open>Agent_ServiceDesc\<close>.\<close>

fun full_method :: "rpc \<Rightarrow> string" where
  "full_method (RpcEnroll r) = m_Enroll"
| "full_method RpcIdentity = m_Identity"
| "full_method RpcInfo = m_Info"
| "full_method (RpcRun r) = m_Run"
| "full_method (RpcDeploy r) = m_Deploy"

record call =
  call_world :: world
  call_stream :: server_stream
  call_rpc :: rpc

abbreviation call_ctx :: "call \<Rightarrow> grpc_context" where
  "call_ctx c \<equiv> ss_Context (call_stream c)"

section \<open>Handlers behind the interceptors\<close>

definition Agent_Enroll_Handler ::
  "Table \<Rightarrow> world \<Rightarrow> Server \<Rightarrow> grpc_context \<Rightarrow> EnrollRequest \<Rightarrow> agent_state \<Rightarrow>
   agent_state \<times> (status + EnrollResponse)" where
  "Agent_Enroll_Handler table W srv ctx req s =
     UnaryInterceptor table ctx req m_Enroll (\<lambda>ctx req. Server_Enroll W srv req) s"

definition Agent_Identity_Handler ::
  "Table \<Rightarrow> world \<Rightarrow> Server \<Rightarrow> grpc_context \<Rightarrow> agent_state \<Rightarrow> agent_state \<times> (status + IdentityResponse)" where
  "Agent_Identity_Handler table W srv ctx s =
     UnaryInterceptor table ctx () m_Identity (\<lambda>ctx req. Server_Identity W srv req) s"

definition Agent_Info_Handler ::
  "Table \<Rightarrow> world \<Rightarrow> Server \<Rightarrow> grpc_context \<Rightarrow> agent_state \<Rightarrow> agent_state \<times> (status + InfoResponse)" where
  "Agent_Info_Handler table W srv ctx s =
     UnaryInterceptor table ctx () m_Info (\<lambda>ctx req. Server_Info W srv req) s"

definition Agent_Run_Handler ::
  "Table \<Rightarrow> world \<Rightarrow> Server \<Rightarrow> server_stream \<Rightarrow> ExecRequest \<Rightarrow> agent_state \<times> sent \<Rightarrow>
   (agent_state \<times> sent) \<times> status option" where
  "Agent_Run_Handler table W srv ss req st =
     StreamInterceptor table ss_Context ss m_Run (\<lambda>ss. Server_Run W srv req ss) st"

definition Agent_Deploy_Handler ::
  "Table \<Rightarrow> world \<Rightarrow> Server \<Rightarrow> server_stream \<Rightarrow> ExecRequest \<Rightarrow> agent_state \<times> sent \<Rightarrow>
   (agent_state \<times> sent) \<times> status option" where
  "Agent_Deploy_Handler table W srv ss req st =
     StreamInterceptor table ss_Context ss m_Deploy (\<lambda>ss. Server_Deploy W srv req ss) st"

text \<open>The answer of a stream call: the messages it sent and its status.\<close>

fun stream_answer :: "(agent_state \<times> sent) \<times> status option \<Rightarrow> agent_state \<times> answer" where
  "stream_answer ((s, out), e) = (s, AnsStream (sent_msgs out) e)"

definition serve_call :: "Table \<Rightarrow> Server \<Rightarrow> call \<Rightarrow> agent_state \<Rightarrow> agent_state \<times> answer" where
  "serve_call table srv c s =
     (case call_rpc c of
        RpcEnroll req \<Rightarrow>
          map_prod id AnsEnroll (Agent_Enroll_Handler table (call_world c) srv (call_ctx c) req s)
      | RpcIdentity \<Rightarrow>
          map_prod id AnsIdentity (Agent_Identity_Handler table (call_world c) srv (call_ctx c) s)
      | RpcInfo \<Rightarrow>
          map_prod id AnsInfo (Agent_Info_Handler table (call_world c) srv (call_ctx c) s)
      | RpcRun req \<Rightarrow>
          stream_answer (Agent_Run_Handler table (call_world c) srv (call_stream c) req (s, nothing_sent))
      | RpcDeploy req \<Rightarrow>
          stream_answer (Agent_Deploy_Handler table (call_world c) srv (call_stream c) req (s, nothing_sent)))"

definition serve_all :: "Table \<Rightarrow> Server \<Rightarrow> call list \<Rightarrow> agent_state \<Rightarrow> agent_state" where
  "serve_all table srv cs s = run_ops (\<lambda>c s. fst (serve_call table srv c s)) cs s"

text \<open>The same call on a machine with other commands.\<close>

definition with_exec :: "os_exec \<Rightarrow> call \<Rightarrow> call" where
  "with_exec ex c = c\<lparr>call_world := (call_world c)\<lparr>w_exec := ex\<rparr>\<rparr>"

section \<open>Lemmas\<close>

lemma handlers_via_gate:
  "Agent_Run_Handler table W srv ss req st =
     (case gate_verdict table (ss_Context ss) m_Run of
        None \<Rightarrow> Server_Run W srv req ss st | Some e \<Rightarrow> (st, Some e))"
  "Agent_Deploy_Handler table W srv ss req st =
     (case gate_verdict table (ss_Context ss) m_Deploy of
        None \<Rightarrow> Server_Deploy W srv req ss st | Some e \<Rightarrow> (st, Some e))"
  "Agent_Enroll_Handler table W srv ctx ereq s =
     (case gate_verdict table ctx m_Enroll of
        None \<Rightarrow> Server_Enroll W srv ereq s | Some e \<Rightarrow> (s, Inl e))"
  "Agent_Identity_Handler table W srv ctx s =
     (case gate_verdict table ctx m_Identity of
        None \<Rightarrow> Server_Identity W srv () s | Some e \<Rightarrow> (s, Inl e))"
  "Agent_Info_Handler table W srv ctx s =
     (case gate_verdict table ctx m_Info of
        None \<Rightarrow> Server_Info W srv () s | Some e \<Rightarrow> (s, Inl e))"
  by (auto simp: Agent_Run_Handler_def Agent_Deploy_Handler_def Agent_Enroll_Handler_def
      Agent_Identity_Handler_def Agent_Info_Handler_def
      StreamInterceptor_def UnaryInterceptor_def gate_verdict_def split: option.splits sum.splits)

lemma with_exec_simps [simp]:
  "call_rpc (with_exec ex c) = call_rpc c" "call_stream (with_exec ex c) = call_stream c"
  "call_world (with_exec ex c) = (call_world c)\<lparr>w_exec := ex\<rparr>"
  by (simp_all add: with_exec_def)

text \<open>Enroll, Identity and Info do not look at the machine's commands.\<close>

lemma unary_no_exec:
  "Server_Enroll (W\<lparr>w_exec := ex\<rparr>) srv req s = Server_Enroll W srv req s"
  "Server_Identity (W\<lparr>w_exec := ex\<rparr>) srv u s = Server_Identity W srv u s"
  "Server_Info (W\<lparr>w_exec := ex\<rparr>) srv u s = Server_Info W srv u s"
  by (auto simp: Server_Enroll_def Server_Identity_def Server_Info_def split: prod.splits sum.splits)

lemma serve_call_exec:
  assumes "serve_call table srv c s \<noteq> serve_call table srv (with_exec ex c) s"
  shows "gate_verdict table (call_ctx c) (full_method (call_rpc c)) = None \<and>
    ((\<exists>req. call_rpc c = RpcRun req) \<or>
     (\<exists>req. call_rpc c = RpcDeploy req \<and>
        Server_Deploy (call_world c) srv req (call_stream c) (s, nothing_sent) \<noteq>
        Server_Deploy ((call_world c)\<lparr>w_exec := ex\<rparr>) srv req (call_stream c) (s, nothing_sent)))"
proof (cases "call_rpc c")
  case (RpcDeploy req)
  with assms show ?thesis
    by (auto simp: serve_call_def handlers_via_gate split: option.splits)
next
  case (RpcRun req)
  with assms show ?thesis
    by (auto simp: serve_call_def handlers_via_gate split: option.splits)
qed (use assms in \<open>auto simp: serve_call_def handlers_via_gate unary_no_exec split: option.splits\<close>)

text \<open>The pending approvals after a history are those of the operations the history makes.\<close>

definition call_grants_ops :: "Table \<Rightarrow> Server \<Rightarrow> call \<Rightarrow> grants_op list" where
  "call_grants_ops table srv c =
     (case call_rpc c of
        RpcDeploy req \<Rightarrow>
          if gate_verdict table (call_ctx c) m_Deploy = None then deploy_grants_ops (call_world c) srv req else []
      | _ \<Rightarrow> [])"

lemma fst_stream_answer: "fst (stream_answer r) = fst (fst r)"
  by (cases r rule: stream_answer.cases) simp

lemma serve_call_grants:
  "as_grants (fst (serve_call table srv c s)) =
     run_ops grants_step (call_grants_ops table srv c) (as_grants s)"
proof (cases "call_rpc c")
  case (RpcEnroll req)
  then show ?thesis
    by (auto simp: serve_call_def call_grants_ops_def handlers_via_gate split: option.splits)
next
  case (RpcRun req)
  then show ?thesis
    by (auto simp: serve_call_def call_grants_ops_def handlers_via_gate fst_stream_answer Server_Run_def
        split: option.splits prod.splits)
next
  case (RpcDeploy req)
  then show ?thesis
    using Server_Deploy_grants [of "call_world c" srv req "call_stream c" "(s, nothing_sent)"]
    by (auto simp: serve_call_def call_grants_ops_def handlers_via_gate fst_stream_answer split: option.splits)
qed (auto simp: serve_call_def call_grants_ops_def handlers_via_gate Server_Identity_def Server_Info_def
       split: option.splits)

lemma serve_all_grants:
  "as_grants (serve_all table srv cs s) =
     run_ops grants_step (concat (map (call_grants_ops table srv) cs)) (as_grants s)"
  unfolding serve_all_def
  by (induction cs arbitrary: s) (auto simp: run_ops_append serve_call_grants)

section \<open>Properties\<close>

text \<open>
  Fact: the registered methods and the production table fit: every method of the service has an
  entry whose role is public or known, so none is denied by default or falls open, and exactly
  the enrollment is public.
\<close>

theorem service_table_complete:
  "\<exists>need. AgentTable (full_method r) = Some need \<and>
     need \<in> {RolePublic, RoleReader, RoleOperator, RoleAdmin} \<and>
     (need = RolePublic \<longleftrightarrow> (\<exists>req. r = RpcEnroll req))"
  by (cases r) (simp_all add: role_defs)

lemma admitted_roles:
  "gate_verdict AgentTable ctx m_Run = None \<longleftrightarrow> caller_role ctx \<in> {RoleOperator, RoleAdmin}"
  "gate_verdict AgentTable ctx m_Deploy = None \<longleftrightarrow> caller_role ctx = RoleAdmin"
  using caller_role_known [of ctx]
  by (auto simp: caller_role_admits [of RoleOperator AgentTable] caller_role_admits [of RoleAdmin AgentTable]
      Allowed_iff role_defs) (auto simp: rank_of_def rank_table_def role_defs map_read_def)

lemma machine_needs_operator_core:
  assumes "serve_call AgentTable srv c s \<noteq> serve_call AgentTable srv (with_exec ex c) s"
  shows "(\<exists>req. call_rpc c = RpcRun req) \<and> caller_role (call_ctx c) \<in> {RoleOperator, RoleAdmin} \<or>
    (\<exists>req. call_rpc c = RpcDeploy req) \<and> caller_role (call_ctx c) = RoleAdmin"
  using serve_call_exec [OF assms] admitted_roles [of "call_ctx c"] by auto

text \<open>
  Fact: only operators and admins reach the machine: a call whose outcome depends on what the
  machine's commands do is a \<^verbatim>\<open>Run\<close> by an operator or admin, or a \<^verbatim>\<open>Deploy\<close> by an admin. No other
  call, and no caller with another role or without a certificate, executes anything.
\<close>

theorem machine_needs_operator:
  assumes "serve_call AgentTable srv c s \<noteq> serve_call AgentTable srv (with_exec ex c) s"
  shows "(\<exists>req. call_rpc c = RpcRun req) \<and> caller_role (call_ctx c) \<in> {RoleOperator, RoleAdmin} \<or>
    (\<exists>req. call_rpc c = RpcDeploy req) \<and> caller_role (call_ctx c) = RoleAdmin"
  by (rule machine_needs_operator_core [OF assms])

text \<open>
  Fact: only an enrollment and an admin's \<^verbatim>\<open>Deploy\<close> change the state of the agent; in particular a
  caller without a certificate can change nothing but the token store, a reader or operator
  nothing at all once enrolled.
\<close>

theorem state_changes_only:
  assumes "fst (serve_call AgentTable srv c s) \<noteq> s"
  shows "(\<exists>req. call_rpc c = RpcEnroll req) \<and>
      as_grants (fst (serve_call AgentTable srv c s)) = as_grants s \<or>
    (\<exists>req. call_rpc c = RpcDeploy req) \<and> caller_role (call_ctx c) = RoleAdmin \<and>
      as_os (fst (serve_call AgentTable srv c s)) = as_os s"
proof (cases "call_rpc c")
  case (RpcEnroll req)
  then show ?thesis
    using serve_call_grants [of AgentTable srv c s] by (simp add: call_grants_ops_def)
next
  case (RpcDeploy req)
  have "caller_role (call_ctx c) = RoleAdmin"
    using assms RpcDeploy admitted_roles(2) [of "call_ctx c"]
    by (auto simp: serve_call_def handlers_via_gate split: option.splits)
  moreover have "as_os (fst (serve_call AgentTable srv c s)) = as_os s"
    using RpcDeploy Server_Deploy_os
    by (auto simp: serve_call_def handlers_via_gate fst_stream_answer split: option.splits)
  ultimately show ?thesis using RpcDeploy by simp
next
  case (RpcRun req)
  with assms show ?thesis
    by (auto simp: serve_call_def handlers_via_gate fst_stream_answer Server_Run_def split: option.splits prod.splits)
qed (use assms in \<open>auto simp: serve_call_def handlers_via_gate Server_Identity_def Server_Info_def
       split: option.splits\<close>)

text \<open>
  Fact: the pending approvals of the daemon refine the abstract one-time store: over any history
  of calls they are what the issue and consume operations of its admitted deploys, in order,
  make of them; no other call touches them.
\<close>

theorem approvals_refine_store:
  "as_grants (serve_all AgentTable srv cs s) =
     run_ops grants_step
       (concat (map (\<lambda>c. case call_rpc c of
            RpcDeploy req \<Rightarrow>
              if caller_role (call_ctx c) = RoleAdmin then deploy_grants_ops (call_world c) srv req else []
          | _ \<Rightarrow> []) cs))
       (as_grants s)"
proof -
  have "call_grants_ops AgentTable srv = (\<lambda>c. case call_rpc c of
      RpcDeploy req \<Rightarrow>
        if caller_role (call_ctx c) = RoleAdmin then deploy_grants_ops (call_world c) srv req else []
    | _ \<Rightarrow> [])"
    by (auto simp: fun_eq_iff call_grants_ops_def admitted_roles split: rpc.splits)
  with serve_all_grants [of AgentTable srv cs s] show ?thesis by simp
qed

lemma grants_issued_GIssue:
  "grants_issued b m = Some (aid, command, e) \<Longrightarrow>
     \<exists>rnd ttl t. b = GIssue rnd command ttl t \<and> policy_randID rnd = Inr aid \<and> e = t + ttl"
  by (cases b) (auto simp: Grants_Issue_def split: sum.splits)

lemma approval_was_issued:
  assumes "grants_redeemed (GConsume aid command now) (run_ops grants_step ops NewGrants) = Some (aid, command)"
  shows "\<exists>rnd ttl t. GIssue rnd command ttl t \<in> set ops \<and> policy_randID rnd = Inr aid \<and> now \<le> t + ttl"
proof -
  from gr.redeemed_was_issued [OF _ _ _ _ assms]
  obtain before b after e where "ops = before @ b # after"
      "grants_issued b (run_ops grants_step before NewGrants) = Some (aid, command, e)" "now \<le> e"
    by (auto simp: grants_entry_def NewGrants_def list_all_iff)
  then show ?thesis using grants_issued_GIssue by fastforce
qed

lemma deploy_end_to_end_core:
  assumes "as_grants s0 = NewGrants" "call_rpc c = RpcDeploy req"
    and "serve_call AgentTable srv c (serve_all AgentTable srv cs s0) \<noteq>
      serve_call AgentTable srv (with_exec ex c) (serve_all AgentTable srv cs s0)"
  shows "caller_role (call_ctx c) = RoleAdmin \<and>
    (Policy_Evaluate (srv_policy srv) (er_Command req) = DecisionAllow \<or>
     Policy_Evaluate (srv_policy srv) (er_Command req) = DecisionAsk \<and>
     (\<exists>before d after req'. cs = before @ d # after \<and> call_rpc d = RpcDeploy req' \<and>
        caller_role (call_ctx d) = RoleAdmin \<and> er_Command req' = er_Command req \<and>
        er_ApprovalId req' = [] \<and> policy_randID (w_rnd (call_world d)) = Inr (er_ApprovalId req) \<and>
        w_now (call_world c) \<le> w_now (call_world d) + 5 * time_Minute))"
proof -
  let ?s = "serve_all AgentTable srv cs s0" and ?W = "call_world c"
  from serve_call_exec [OF assms(3)] assms(2)
  have gate: "gate_verdict AgentTable (call_ctx c) m_Deploy = None"
    and runs: "Server_Deploy ?W srv req (call_stream c) (?s, nothing_sent) \<noteq>
      Server_Deploy (?W\<lparr>w_exec := ex\<rparr>) srv req (call_stream c) (?s, nothing_sent)"
    by auto
  have admin: "caller_role (call_ctx c) = RoleAdmin"
    using gate admitted_roles by blast
  from runs show ?thesis
  proof (cases rule: Server_Deploy_runs)
    case allowed
    with admin show ?thesis by simp
  next
    case (approved g)
    let ?aid = "er_ApprovalId req" and ?cmd = "er_Command req"
    let ?ops = "concat (map (call_grants_ops AgentTable srv) cs)"
    have "Grants_Consume ?aid ?cmd (w_now ?W) (as_grants ?s) = ((as_grants ?s)(?aid := None), None)"
      using approved by (simp add: Grants_Consume_ok)
    then have "grants_redeemed (GConsume ?aid ?cmd (w_now ?W)) (run_ops grants_step ?ops NewGrants) = Some (?aid, ?cmd)"
      using serve_all_grants [of AgentTable srv cs s0] assms(1) by simp
    from approval_was_issued [OF this] obtain rnd ttl t where issue: "GIssue rnd ?cmd ttl t \<in> set ?ops"
        "policy_randID rnd = Inr ?aid" "w_now ?W \<le> t + ttl" by blast
    then obtain d where d: "d \<in> set cs" "GIssue rnd ?cmd ttl t \<in> set (call_grants_ops AgentTable srv d)" by auto
    then obtain req' where r: "call_rpc d = RpcDeploy req'" "caller_role (call_ctx d) = RoleAdmin"
        "GIssue rnd ?cmd ttl t \<in> set (deploy_grants_ops (call_world d) srv req')"
      by (cases "call_rpc d") (auto simp: call_grants_ops_def admitted_roles split: if_splits)
    then have q: "er_ApprovalId req' = []" "Policy_Evaluate (srv_policy srv) ?cmd = DecisionAsk"
        "er_Command req' = ?cmd" "rnd = w_rnd (call_world d)" "ttl = approvalTTL" "t = w_now (call_world d)"
      by (auto simp: deploy_grants_ops_def split: if_splits)
    obtain before after where "cs = before @ d # after"
      using d(1) by (meson split_list)
    with admin q r issue show ?thesis
      unfolding approvalTTL_def by blast
  qed
qed

text \<open>
  Fact: a destructive command runs only by the agent's leave. Take any history of calls to a fresh
  daemon and then a \<^verbatim>\<open>Deploy\<close> whose outcome depends on the machine: its caller is an admin, and
  the policy allows the command, or the policy asks about it and an earlier \<^verbatim>\<open>Deploy\<close> of the same
  command by an admin, at most five minutes old, drew the approval id the request carries.
\<close>

theorem deploy_end_to_end:
  assumes "as_grants s0 = NewGrants" "call_rpc c = RpcDeploy req"
    and "serve_call AgentTable srv c (serve_all AgentTable srv cs s0) \<noteq>
      serve_call AgentTable srv (with_exec ex c) (serve_all AgentTable srv cs s0)"
  shows "caller_role (call_ctx c) = RoleAdmin \<and>
    (Policy_Evaluate (srv_policy srv) (er_Command req) = DecisionAllow \<or>
     Policy_Evaluate (srv_policy srv) (er_Command req) = DecisionAsk \<and>
     (\<exists>before d after req'. cs = before @ d # after \<and> call_rpc d = RpcDeploy req' \<and>
        caller_role (call_ctx d) = RoleAdmin \<and> er_Command req' = er_Command req \<and>
        er_ApprovalId req' = [] \<and> policy_randID (w_rnd (call_world d)) = Inr (er_ApprovalId req) \<and>
        w_now (call_world c) \<le> w_now (call_world d) + 5 * time_Minute))"
  by (rule deploy_end_to_end_core [OF assms])

section \<open>The properties at concrete inputs\<close>

text \<open>A caller with a certificate of one role, and a call by it.\<close>

definition role_ctx :: "string \<Rightarrow> grpc_context" where
  "role_ctx r = Some (TLSInfo [zero_certificate\<lparr>Subject := \<lparr>CommonName = ''ctl'', Organization = [r]\<rparr>\<rparr>])"

lemma role_ctx_role: "rank_of r \<noteq> 0 \<Longrightarrow> caller_role (role_ctx r) = r"
  by (simp add: caller_role_def role_ctx_def RoleFromCert_def rank_table_rank)

lemma role_ctx_admin [simp]: "caller_role (role_ctx RoleAdmin) = RoleAdmin"
  by (simp add: role_ctx_role)

definition demo_call :: "string \<Rightarrow> instant \<Rightarrow> rpc \<Rightarrow> call" where
  "demo_call role now r = \<lparr>call_world = demo_world one_liner now, call_stream = good_stream (role_ctx role), call_rpc = r\<rparr>"

abbreviation fresh_agent :: agent_state where
  "fresh_agent \<equiv> \<lparr>as_os = empty_os, as_grants = NewGrants\<rparr>"

abbreviation failing_exec :: os_exec where
  "failing_exec \<equiv> \<lambda>_ _ _ _. StartError ''not found''"

lemma demo_stream_differs:
  "runStream (demo_world one_liner now) (exec_request ''kubectl'' args aid) (good_stream ctx) nothing_sent =
     (\<lparr>sent_msgs = [ExecChunk_Stdout ''ok'', ExecChunk_ExitCode 0], sent_tries = 2\<rparr>, None)"
  "runStream ((demo_world one_liner now)\<lparr>w_exec := failing_exec\<rparr>) (exec_request ''kubectl'' args aid) (good_stream ctx) nothing_sent =
     (nothing_sent, Some (Errorf Internal ''exec: %v'' [''exec'']))"
  by (subst runStream_good; simp add: behaviour_def one_liner_def wire_def to_int32_def)
     (subst runStream_good; simp add: behaviour_def demo_world_def)

theorem machine_needs_operator_witness:
  "caller_role (role_ctx RoleOperator) \<in> {RoleOperator, RoleAdmin}"
proof -
  let ?c = "demo_call RoleOperator 0 (RpcRun (exec_request ''kubectl'' [] []))"
  have "gate_verdict AgentTable (role_ctx RoleOperator) m_Run = None"
    by (simp add: admitted_roles role_ctx_role)
  then have "serve_call AgentTable (demo_server ask_policy) ?c fresh_agent \<noteq>
      serve_call AgentTable (demo_server ask_policy) (with_exec failing_exec ?c) fresh_agent"
    by (simp add: serve_call_def demo_call_def handlers_via_gate Server_Run_def demo_stream_differs)
  from machine_needs_operator [OF this] show ?thesis by (simp add: demo_call_def)
qed

lemma demo_first_deploy:
  "serve_call AgentTable (demo_server ask_policy) (demo_call RoleAdmin 0 (RpcDeploy (exec_request ''kubectl'' [] []))) fresh_agent =
     (fresh_agent\<lparr>as_grants := [demo_approval \<mapsto> \<lparr>g_command = ''kubectl'', g_expiry = 300 * time_Second\<rparr>]\<rparr>,
      AnsStream [ExecChunk_NeedsApproval \<lparr>Operation = strings_TrimSpace (''kubectl'' @ '' ''), Reason = approval_reason,
        ar_ApprovalId = demo_approval\<rparr>] None)"
proof -
  have "gate_verdict AgentTable (role_ctx RoleAdmin) m_Deploy = None" by (simp add: admitted_roles)
  then show ?thesis
    by (simp add: serve_call_def demo_call_def handlers_via_gate Server_Deploy_def demo_asks Grants_Issue_def
        demo_randID stream_Send_good nothing_sent_def approvalTTL_def time_Minute_def NewGrants_def)
qed

theorem state_changes_only_witness:
  "as_os (fst (serve_call AgentTable (demo_server ask_policy)
     (demo_call RoleAdmin 0 (RpcDeploy (exec_request ''kubectl'' [] []))) fresh_agent)) = empty_os"
proof -
  have "fst (serve_call AgentTable (demo_server ask_policy)
     (demo_call RoleAdmin 0 (RpcDeploy (exec_request ''kubectl'' [] []))) fresh_agent) \<noteq> fresh_agent"
    unfolding demo_first_deploy by (simp add: NewGrants_def fun_eq_iff)
  from state_changes_only [OF this] show ?thesis by (simp add: demo_call_def)
qed

theorem deploy_end_to_end_witness:
  "\<exists>before d after req'. [demo_call RoleAdmin 0 (RpcDeploy (exec_request ''kubectl'' [] []))] = before @ d # after \<and>
     call_rpc d = RpcDeploy req' \<and> caller_role (call_ctx d) = RoleAdmin"
proof -
  let ?c = "demo_call RoleAdmin 100 (RpcDeploy (exec_request ''kubectl'' [''delete''] demo_approval))"
  let ?cs = "[demo_call RoleAdmin 0 (RpcDeploy (exec_request ''kubectl'' [] []))]"
  let ?s = "fresh_agent\<lparr>as_grants := [demo_approval \<mapsto> \<lparr>g_command = ''kubectl'', g_expiry = 300 * time_Second\<rparr>]\<rparr>"
  have s: "serve_all AgentTable (demo_server ask_policy) ?cs fresh_agent = ?s"
    by (simp add: serve_all_def demo_first_deploy)
  have gate: "gate_verdict AgentTable (role_ctx RoleAdmin) m_Deploy = None" by (simp add: admitted_roles)
  have aid: "demo_approval \<noteq> []" by (simp add: demo_approval_def)
  have "serve_call AgentTable (demo_server ask_policy) ?c ?s \<noteq>
      serve_call AgentTable (demo_server ask_policy) (with_exec failing_exec ?c) ?s"
    using gate aid
    by (simp add: serve_call_def demo_call_def handlers_via_gate Server_Deploy_def Grants_Consume_def
        time_Second_def demo_stream_differs)
  then have "serve_call AgentTable (demo_server ask_policy) ?c (serve_all AgentTable (demo_server ask_policy) ?cs fresh_agent) \<noteq>
      serve_call AgentTable (demo_server ask_policy) (with_exec failing_exec ?c)
        (serve_all AgentTable (demo_server ask_policy) ?cs fresh_agent)"
    unfolding s .
  from deploy_end_to_end [OF _ _ this, of "exec_request ''kubectl'' [''delete''] demo_approval"]
  show ?thesis
    using demo_asks by (simp add: demo_call_def) blast
qed

end
