(* ===== verification/Clientconfig.thy ===== *)
theory Clientconfig
  imports Pki Go_OS
begin

text \<open>
  \<^verbatim>\<open>internal/clientconfig/clientconfig.go\<close>: the credential of a controller, saved to a YAML file
  and turned into a TLS configuration. The YAML codec is third-party code and a parameter;
  \<open>yaml_laws\<close> states what the program relies on: a saved credential decodes to itself.
  \<open>X509KeyPair\<close> and \<open>AppendCertsFromPEM\<close> are what the program uses of \<^verbatim>\<open>crypto/tls\<close> and
  \<^verbatim>\<open>crypto/x509\<close>, for private keys in the PKCS#8 form the program writes.
\<close>

section \<open>TLS building blocks\<close>

datatype tls_version = VersionTLS12 | VersionTLS13
datatype client_auth = NoClientCert | VerifyClientCertIfGiven | RequireAndVerifyClientCert

record tls_certificate =
  tls_chain :: "bytes list"
  tls_leaf :: certificate
  tls_key :: bytes

record tls_config =
  Certificates :: "tls_certificate list"
  RootCAs :: "certificate list option"
  ClientCAs :: "certificate list option"
  ClientAuth :: client_auth
  ServerName :: string
  InsecureSkipVerify :: bool
  MinVersion :: tls_version

text \<open>The zero value of \<^verbatim>\<open>tls.Config\<close>.\<close>

definition zero_tls :: tls_config where
  "zero_tls = \<lparr>Certificates = [], RootCAs = None, ClientCAs = None, ClientAuth = NoClientCert,
     ServerName = [], InsecureSkipVerify = False, MinVersion = VersionTLS12\<rparr>"

datatype tls_error = TlsNoCertificate | TlsNoKey | TlsParse string | TlsKeyMismatch

text \<open>\<^verbatim>\<open>PRIVATE KEY\<close>, or a type that ends in it after a space.\<close>

definition key_type :: "string \<Rightarrow> bool" where
  "key_type t \<longleftrightarrow> t = blockKey \<or> drop (length t - 12) t = '' '' @ blockKey"

definition X509KeyPair :: "x509_env \<Rightarrow> bytes \<Rightarrow> bytes \<Rightarrow> tls_error + tls_certificate" where
  "X509KeyPair X certPEM keyPEM =
     (case filter (\<lambda>b. pem_Type b = blockCert) (x_pem_Blocks X certPEM) of
        [] \<Rightarrow> Inl TlsNoCertificate
      | b # bs \<Rightarrow>
          (case find (\<lambda>kb. key_type (pem_Type kb)) (x_pem_Blocks X keyPEM) of
             None \<Rightarrow> Inl TlsNoKey
           | Some kb \<Rightarrow>
               and_then (wrap_error TlsParse (x_ParseCertificate X (pem_Bytes b))) (\<lambda>leaf.
                 and_then (wrap_error TlsParse (x_ParsePKCS8 X (pem_Bytes kb))) (\<lambda>key.
                   case key of
                     OtherKey k \<Rightarrow> Inl TlsKeyMismatch
                   | Ed25519 k \<Rightarrow>
                       if PublicKey leaf \<noteq> x_Public X k then Inl TlsKeyMismatch
                       else Inr \<lparr>tls_chain = map pem_Bytes (b # bs), tls_leaf = leaf, tls_key = k\<rparr>))))"

text \<open>
  The certificates of a text, those blocks of another type and those that do not parse left out;
  and the pool after adding one text, or none when it holds no certificate.
\<close>

definition pem_pool :: "x509_env \<Rightarrow> bytes \<Rightarrow> certificate list" where
  "pem_pool X pemText =
     concat (map (\<lambda>b. if pem_Type b \<noteq> blockCert then []
         else case x_ParseCertificate X (pem_Bytes b) of Inl e \<Rightarrow> [] | Inr c \<Rightarrow> [c])
       (x_pem_Blocks X pemText))"

definition AppendCertsFromPEM :: "x509_env \<Rightarrow> bytes \<Rightarrow> certificate list option" where
  "AppendCertsFromPEM X pemText = (if pem_pool X pemText = [] then None else Some (pem_pool X pemText))"

section \<open>The credential\<close>

datatype config_error =
    ErrIncomplete | ConfigRead os_error | ConfigDecode string | ConfigEncode string
  | ConfigMkdir os_error | ConfigWrite os_error | ConfigKeyPair tls_error | ConfigInvalidCA

record Config =
  cfg_CA :: string
  cfg_ClientCert :: string
  cfg_ClientKey :: string
  cfg_Endpoints :: "string list"
  cfg_AgentID :: string
  cfg_Fingerprint :: string

record yaml_codec =
  yaml_Marshal :: "Config \<Rightarrow> string + bytes"
  yaml_Unmarshal :: "bytes \<Rightarrow> string + Config"

definition yaml_laws :: "yaml_codec \<Rightarrow> bool" where
  "yaml_laws Y \<longleftrightarrow> (\<forall>c d. yaml_Marshal Y c = Inr d \<longrightarrow> yaml_Unmarshal Y d = Inr c)"

definition Config_Load :: "faults \<Rightarrow> yaml_codec \<Rightarrow> string \<Rightarrow> os \<Rightarrow> config_error + Config" where
  "Config_Load F Y path s =
     (case os_ReadFile F path s of
        (data, Some err) \<Rightarrow> Inl (ConfigRead err)
      | (data, None) \<Rightarrow> wrap_error ConfigDecode (yaml_Unmarshal Y data))"

definition Config_Save ::
  "faults \<Rightarrow> yaml_codec \<Rightarrow> Config \<Rightarrow> string \<Rightarrow> os \<Rightarrow> os \<times> config_error option" where
  "Config_Save F Y c path s =
     (case yaml_Marshal Y c of
        Inl e \<Rightarrow> (s, Some (ConfigEncode e))
      | Inr data \<Rightarrow>
          (case os_MkdirAll F (filepath_Dir path) s of
             (s1, Some e) \<Rightarrow> (s1, Some (ConfigMkdir e))
           | (s1, None) \<Rightarrow>
               (case os_WriteFile F path data perm_0600 s1 of
                  (s2, Some e) \<Rightarrow> (s2, Some (ConfigWrite e))
                | (s2, None) \<Rightarrow> (s2, None))))"

definition Config_ClientTLS :: "x509_env \<Rightarrow> Config \<Rightarrow> config_error + tls_config" where
  "Config_ClientTLS X c =
     (if cfg_CA c = [] \<or> cfg_ClientCert c = [] \<or> cfg_ClientKey c = [] then Inl ErrIncomplete
      else and_then (wrap_error ConfigKeyPair (X509KeyPair X (cfg_ClientCert c) (cfg_ClientKey c))) (\<lambda>cert.
        case AppendCertsFromPEM X (cfg_CA c) of
          None \<Rightarrow> Inl ConfigInvalidCA
        | Some roots \<Rightarrow>
            Inr (zero_tls\<lparr>Certificates := [cert], RootCAs := Some roots, MinVersion := VersionTLS13\<rparr>)))"

section \<open>Lemmas\<close>

lemma X509KeyPair_ok:
  assumes "x_pem_Blocks X certPEM = [\<lparr>pem_Type = blockCert, pem_Bytes = der\<rparr>]"
    and "x_ParseCertificate X der = Inr leaf"
    and "x_pem_Blocks X keyPEM = [\<lparr>pem_Type = blockKey, pem_Bytes = kd\<rparr>]"
    and "x_ParsePKCS8 X kd = Inr (Ed25519 k)" "PublicKey leaf = x_Public X k"
  shows "X509KeyPair X certPEM keyPEM = Inr \<lparr>tls_chain = [der], tls_leaf = leaf, tls_key = k\<rparr>"
  using assms by (simp add: X509KeyPair_def key_type_def)

lemma X509KeyPair_Inr:
  assumes "X509KeyPair X certPEM keyPEM = Inr t"
  shows "x_ParseCertificate X (hd (tls_chain t)) = Inr (tls_leaf t)"
    and "PublicKey (tls_leaf t) = x_Public X (tls_key t)"
proof -
  from assms obtain b bs where b: "filter (\<lambda>b. pem_Type b = blockCert) (x_pem_Blocks X certPEM) = b # bs"
    by (cases "filter (\<lambda>b. pem_Type b = blockCert) (x_pem_Blocks X certPEM)") (simp_all add: X509KeyPair_def)
  from assms obtain kb where kb: "find (\<lambda>kb. key_type (pem_Type kb)) (x_pem_Blocks X keyPEM) = Some kb"
    by (cases "find (\<lambda>kb. key_type (pem_Type kb)) (x_pem_Blocks X keyPEM)") (simp_all add: X509KeyPair_def b)
  from assms obtain leaf key where leaf: "x_ParseCertificate X (pem_Bytes b) = Inr leaf"
    and key: "(case key of OtherKey k \<Rightarrow> Inl TlsKeyMismatch
      | Ed25519 k \<Rightarrow> if PublicKey leaf \<noteq> x_Public X k then Inl TlsKeyMismatch
          else Inr \<lparr>tls_chain = map pem_Bytes (b # bs), tls_leaf = leaf, tls_key = k\<rparr>) = Inr t"
    unfolding X509KeyPair_def b kb by simp blast
  from key leaf show "x_ParseCertificate X (hd (tls_chain t)) = Inr (tls_leaf t)"
    and "PublicKey (tls_leaf t) = x_Public X (tls_key t)"
    by (cases key; auto split: if_splits)+
qed

text \<open>A key drawn by \<open>NewCSR\<close> and the leaf signed for its request are a key pair.\<close>

lemma signed_pair:
  assumes "x509_laws X" "NewCSR X rnd cn = Inr (CSRPEM req, keyPEM)" "Sign X rnd' now ca req = Inr p"
  shows "\<exists>cert serial. X509KeyPair X p keyPEM = Inr cert \<and> ParseCert X p = Inr (tls_leaf cert) \<and>
    tls_chain cert = [Raw (tls_leaf cert)] \<and>
    matches_template (leaf_template serial cn req now) (x_Public X (tls_key cert)) (tls_leaf cert) \<and>
    (ca_wf X ca \<longrightarrow> x_CheckSignatureFrom X (ca_cert ca) (tls_leaf cert)) \<and> p \<noteq> [] \<and> keyPEM \<noteq> [] \<and>
    x_GenerateKey X rnd = Inr (PublicKey (tls_leaf cert), tls_key cert)"
proof -
  from NewCSR_key [OF assms(1,2)] obtain priv kd block csr where k:
    "x_GenerateKey X rnd = Inr (x_Public X priv, priv)" "x_pem_Blocks X keyPEM = [\<lparr>pem_Type = blockKey, pem_Bytes = kd\<rparr>]"
    "x_ParsePKCS8 X kd = Inr (Ed25519 priv)" "keyPEM \<noteq> []" "x_pem_Decode X (CSRPEM req) = Some block"
    "x_ParseRequest X (pem_Bytes block) = Inr csr" "csr_PublicKey csr = x_Public X priv"
    "CommonName (csr_Subject csr) = cn"
    by blast
  from Sign_Inr [OF assms(1,3)] k obtain serial c where c: "ParseCert X p = Inr c"
    "matches_template (leaf_template serial cn req now) (x_Public X priv) c"
    "ca_wf X ca \<longrightarrow> x_CheckSignatureFrom X (ca_cert ca) c"
    by auto
  note b = Sign_block [OF assms(1,3) c(1)]
  have "PublicKey c = x_Public X priv" using c(2) by (simp add: matches_template_def)
  with X509KeyPair_ok [OF b(1,2) k(2,3) this] b(3) c k(1,4) show ?thesis
    by (intro exI [of _ "\<lparr>tls_chain = [Raw c], tls_leaf = c, tls_key = priv\<rparr>"] exI [of _ serial]) simp
qed

lemma AppendCerts_CertPEM:
  "x509_laws X \<Longrightarrow> x_ParseCertificate X (Raw (ca_cert c)) = Inr (ca_cert c) \<Longrightarrow>
     AppendCertsFromPEM X (CertPEM X c) = Some [ca_cert c]"
  by (simp add: AppendCertsFromPEM_def pem_pool_def CertPEM_def pem_blocks_again)

lemma pem_pool_CertPEM:
  "x509_laws X \<Longrightarrow> ca_wf X c \<Longrightarrow> pem_pool X (CertPEM X c) = [ca_cert c]"
  by (simp add: pem_pool_def CertPEM_def pem_blocks_again ca_wf_def)

lemma CertPEM_ne: "x509_laws X \<Longrightarrow> CertPEM X c \<noteq> []"
  unfolding CertPEM_def using x509_lawsD(7) by fastforce

lemma ClientTLS_Inr:
  assumes "Config_ClientTLS X c = Inr t"
  shows "InsecureSkipVerify t = False \<and> MinVersion t = VersionTLS13 \<and>
    (\<exists>cert roots. Certificates t = [cert] \<and> RootCAs t = Some roots \<and>
       X509KeyPair X (cfg_ClientCert c) (cfg_ClientKey c) = Inr cert \<and>
       AppendCertsFromPEM X (cfg_CA c) = Some roots)"
  using assms by (auto simp: Config_ClientTLS_def zero_tls_def split: if_splits option.splits)

section \<open>Properties\<close>

lemma credential_save_load_core:
  assumes "yaml_laws Y" "Config_Save F Y c path s = (s', None)"
  shows "Config_Load no_faults Y path s' = Inr c \<and>
    (os_files s path = None \<longrightarrow> map_option f_mode (os_files s' path) = Some perm_0600)"
proof -
  obtain data where d: "yaml_Marshal Y c = Inr data"
    using assms(2) by (auto simp: Config_Save_def split: sum.splits)
  obtain s1 where k: "os_MkdirAll F (filepath_Dir path) s = (s1, None)"
      and w: "os_WriteFile F path data perm_0600 s1 = (s', None)"
    using assms(2) d by (auto simp: Config_Save_def split: prod.splits option.splits)
  have "file_data s' path = Some data" using w by (auto simp: os_WriteFile_ok)
  moreover have "yaml_Unmarshal Y data = Inr c"
    using assms(1) d unfolding yaml_laws_def by blast
  moreover have "os_files s1 = os_files s" using k by (rule os_MkdirAll_files)
  then have "os_files s path = None \<longrightarrow> map_option f_mode (os_files s' path) = Some perm_0600"
    using w by (auto simp: os_WriteFile_def put_file_def split: if_splits option.splits)
  ultimately show ?thesis by (simp add: Config_Load_def)
qed

text \<open>
  C35: a credential that \<^verbatim>\<open>Save\<close> reports as written is read back unchanged by \<^verbatim>\<open>Load\<close>, whatever
  faults were about, and a file that did not exist before is readable by its owner only; a
  failed save is always reported.
\<close>

theorem credential_save_load:
  assumes "yaml_laws Y" "Config_Save F Y c path s = (s', None)"
  shows "Config_Load no_faults Y path s' = Inr c \<and>
    (os_files s path = None \<longrightarrow> map_option f_mode (os_files s' path) = Some perm_0600)"
  by (rule credential_save_load_core [OF assms])

text \<open>
  Fact: a TLS configuration made from a credential authenticates both ways: it is built only from a
  complete credential, presents the credential's certificate with the matching private key,
  trusts the certificates of the credential's CA text and nothing else, never skips the
  verification of the server, and asks for TLS 1.3.
\<close>

theorem client_tls_spec:
  "(case Config_ClientTLS X c of
      Inl e \<Rightarrow> (e = ErrIncomplete \<longleftrightarrow> [] \<in> {cfg_CA c, cfg_ClientCert c, cfg_ClientKey c}) \<and>
        e \<in> {ErrIncomplete, ConfigInvalidCA} \<union> range ConfigKeyPair
    | Inr t \<Rightarrow> [] \<notin> {cfg_CA c, cfg_ClientCert c, cfg_ClientKey c} \<and>
        \<not> InsecureSkipVerify t \<and> MinVersion t = VersionTLS13 \<and>
        (\<exists>cert. Certificates t = [cert] \<and> RootCAs t = Some (pem_pool X (cfg_CA c)) \<and>
           x_ParseCertificate X (hd (tls_chain cert)) = Inr (tls_leaf cert) \<and>
           PublicKey (tls_leaf cert) = x_Public X (tls_key cert)))"
proof (cases "Config_ClientTLS X c")
  case (Inl e)
  then show ?thesis
    by (auto simp: Config_ClientTLS_def split: if_splits option.splits)
next
  case (Inr t)
  from ClientTLS_Inr [OF Inr] obtain cert roots where t: "\<not> InsecureSkipVerify t"
      "MinVersion t = VersionTLS13" "Certificates t = [cert]" "RootCAs t = Some roots"
      "X509KeyPair X (cfg_ClientCert c) (cfg_ClientKey c) = Inr cert"
      "AppendCertsFromPEM X (cfg_CA c) = Some roots"
    by blast
  from t(6) have "roots = pem_pool X (cfg_CA c)" by (simp add: AppendCertsFromPEM_def split: if_splits)
  moreover have "[] \<notin> {cfg_CA c, cfg_ClientCert c, cfg_ClientKey c}"
    using Inr by (auto simp: Config_ClientTLS_def)
  ultimately show ?thesis
    unfolding Inr using t X509KeyPair_Inr [OF t(5)] by auto
qed

text \<open>A codec with the law: the fields in order, each with its length.\<close>

definition config_coder :: "Config coder" where
  "config_coder = via
     (\<lambda>c. (cfg_CA c, cfg_ClientCert c, cfg_ClientKey c, cfg_Endpoints c, cfg_AgentID c, cfg_Fingerprint c))
     (\<lambda>(a, b, k, e, i, f). \<lparr>cfg_CA = a, cfg_ClientCert = b, cfg_ClientKey = k, cfg_Endpoints = e,
        cfg_AgentID = i, cfg_Fingerprint = f\<rparr>)
     (pair_coder string_coder (pair_coder string_coder (pair_coder string_coder
       (pair_coder strings_coder (pair_coder string_coder string_coder)))))"

definition plain_yaml :: yaml_codec where
  "plain_yaml = \<lparr>yaml_Marshal = (\<lambda>c. Inr (fst config_coder c)),
     yaml_Unmarshal = (\<lambda>d. case whole config_coder d of None \<Rightarrow> Inl ''yaml: invalid'' | Some c \<Rightarrow> Inr c)\<rparr>"

lemma good_config_coder [simp]: "good_coder config_coder"
  unfolding config_coder_def by (rule good_via) auto

lemma plain_yaml_laws: "yaml_laws plain_yaml"
  by (auto simp: yaml_laws_def plain_yaml_def)

theorem credential_save_load_witness:
  "\<exists>s'. Config_Save no_faults plain_yaml \<lparr>cfg_CA = ''ca'', cfg_ClientCert = ''crt'', cfg_ClientKey = ''key'',
        cfg_Endpoints = [''host:50000''], cfg_AgentID = ''id'', cfg_Fingerprint = ''fp''\<rparr> ''/home/u/.rexec/config.yaml''
       \<lparr>os_files = Map.empty, os_dirs = {}\<rparr> = (s', None) \<and>
     map_option f_mode (os_files s' ''/home/u/.rexec/config.yaml'') = Some perm_0600"
proof -
  let ?c = "\<lparr>cfg_CA = ''ca'', cfg_ClientCert = ''crt'', cfg_ClientKey = ''key'',
        cfg_Endpoints = [''host:50000''], cfg_AgentID = ''id'', cfg_Fingerprint = ''fp''\<rparr>"
  let ?p = "''/home/u/.rexec/config.yaml''" and ?s = "\<lparr>os_files = Map.empty, os_dirs = {}\<rparr>"
  have "filepath_Dir ?p = ''/home/u/.rexec''" "filepath_Clean ''/home/u/.rexec'' = ''/home/u/.rexec''"
    by code_simp+
  then obtain s' where s': "Config_Save no_faults plain_yaml ?c ?p ?s = (s', None)"
    by (simp add: Config_Save_def plain_yaml_def os_MkdirAll_def os_WriteFile_def dir_exists_def)
  from credential_save_load [OF plain_yaml_laws s'] s' show ?thesis by auto
qed

end
