(* ===== verification/Transport.thy ===== *)
theory Transport
  imports Agent_Rpc Clientconfig
begin

text \<open>
  \<^verbatim>\<open>internal/transport/transport.go\<close>: the TLS configurations of both ends, the enrollment over the
  bootstrap channel, and the assembly of the server (whose interceptors and registration are
  \<^verbatim>\<open>serve_call\<close> of theory \<^verbatim>\<open>Agent_Rpc\<close>). What \<^verbatim>\<open>crypto/tls\<close> does with a server configuration
  when a client connects is \<open>server_peer\<close>. A connection is a function that sends a request to
  the far end; how gRPC opens one is the parameter \<open>newClient\<close>.
\<close>

section \<open>Credentials\<close>

datatype transport_error =
    TrCSR pki_error | TrDial string | TrEnroll status | TrConfig config_error
  | TrServerKeyPair tls_error | TrInvalidCA

definition ServerCreds :: "x509_env \<Rightarrow> bytes \<Rightarrow> bytes \<Rightarrow> bytes \<Rightarrow> transport_error + tls_config" where
  "ServerCreds X caPEM serverCert serverKey =
     and_then (wrap_error TrServerKeyPair (X509KeyPair X serverCert serverKey)) (\<lambda>cert.
       case AppendCertsFromPEM X caPEM of
         None \<Rightarrow> Inl TrInvalidCA
       | Some roots \<Rightarrow>
           Inr (zero_tls\<lparr>Certificates := [cert], ClientCAs := Some roots,
             ClientAuth := VerifyClientCertIfGiven, MinVersion := VersionTLS13\<rparr>))"

definition ClientCreds :: "x509_env \<Rightarrow> Config \<Rightarrow> string \<Rightarrow> transport_error + tls_config" where
  "ClientCreds X cfg serverName =
     and_then (wrap_error TrConfig (Config_ClientTLS X cfg)) (\<lambda>tlsCfg.
       Inr (if serverName \<noteq> [] then tlsCfg\<lparr>ServerName := serverName\<rparr> else tlsCfg))"

definition bootstrapCreds :: tls_config where
  "bootstrapCreds = zero_tls\<lparr>InsecureSkipVerify := True, MinVersion := VersionTLS13\<rparr>"

definition Dial ::
  "x509_env \<Rightarrow> (string \<Rightarrow> tls_config \<Rightarrow> string + 'conn) \<Rightarrow> Config \<Rightarrow> string \<Rightarrow> transport_error + 'conn" where
  "Dial X newClient cfg endpoint =
     and_then (ClientCreds X cfg []) (\<lambda>creds. wrap_error TrDial (newClient endpoint creds))"

definition dialBootstrap ::
  "(string \<Rightarrow> tls_config \<Rightarrow> string + 'conn) \<Rightarrow> (string \<Rightarrow> string + 'conn) option \<Rightarrow> string \<Rightarrow>
   transport_error + 'conn" where
  "dialBootstrap newClient dialer endpoint =
     (case dialer of
        Some d \<Rightarrow> wrap_error TrDial (d endpoint)
      | None \<Rightarrow> wrap_error TrDial (newClient endpoint bootstrapCreds))"

text \<open>The server behind a connection: one enrollment call on its state.\<close>

type_synonym 's enroll_conn = "EnrollRequest \<Rightarrow> 's \<Rightarrow> 's \<times> (status + EnrollResponse)"

definition transport_Enroll ::
  "x509_env \<Rightarrow> entropy \<Rightarrow> (string \<Rightarrow> tls_config \<Rightarrow> string + 's enroll_conn) \<Rightarrow>
   (string \<Rightarrow> string + 's enroll_conn) option \<Rightarrow> string \<Rightarrow> string \<Rightarrow> string \<Rightarrow>
   's \<Rightarrow> 's \<times> (transport_error + Config)" where
  "transport_Enroll X rnd newClient dialer endpoint token commonName s =
     (case NewCSR X rnd commonName of
        Inl e \<Rightarrow> (s, Inl (TrCSR e))
      | Inr (csrPEM, keyPEM) \<Rightarrow>
          (case dialBootstrap newClient dialer endpoint of
             Inl e \<Rightarrow> (s, Inl e)
           | Inr conn \<Rightarrow>
               (case conn \<lparr>Token = token, CsrPem = csrPEM\<rparr> s of
                  (s', Inl err) \<Rightarrow> (s', Inl (TrEnroll err))
                | (s', Inr resp) \<Rightarrow>
                    (s', Inr \<lparr>cfg_CA = CaPem resp, cfg_ClientCert = ClientCertPem resp,
                       cfg_ClientKey = keyPEM, cfg_Endpoints = [endpoint],
                       cfg_AgentID = AgentId resp, cfg_Fingerprint = er_Fingerprint resp\<rparr>))))"

section \<open>The server side of a handshake\<close>

text \<open>
  A presented certificate is verified against the pool: signed by one of its certificates, both
  valid at the time, and both usable for client authentication, which a certificate without
  extended key usages is. (A CA of this program has path length zero, so a verified chain is one
  certificate under the CA. Go would also build chains through intermediate certificates under a
  CA of another origin that allows them.) None: the handshake fails.
\<close>

definition valid_at :: "instant \<Rightarrow> certificate \<Rightarrow> bool" where
  "valid_at now c \<longleftrightarrow> NotBefore c \<le> now \<and> now \<le> NotAfter c"

definition client_usage :: "certificate \<Rightarrow> bool" where
  "client_usage c \<longleftrightarrow>
     ExtKeyUsage c = [] \<or> list_ex (\<lambda>u. u = ExtKeyUsageAny \<or> u = ExtKeyUsageClientAuth) (ExtKeyUsage c)"

definition verify_client :: "x509_env \<Rightarrow> certificate list \<Rightarrow> instant \<Rightarrow> certificate \<Rightarrow> bool" where
  "verify_client X pool now c \<longleftrightarrow>
     client_usage c \<and> valid_at now c \<and>
     list_ex (\<lambda>ca. client_usage ca \<and> valid_at now ca \<and> x_CheckSignatureFrom X ca c) pool"

definition server_peer :: "x509_env \<Rightarrow> tls_config \<Rightarrow> instant \<Rightarrow> certificate list \<Rightarrow> auth_info option" where
  "server_peer X cfg now certs =
     (case ClientAuth cfg of
        NoClientCert \<Rightarrow> Some (TLSInfo [])
      | VerifyClientCertIfGiven \<Rightarrow>
          (case certs of
             [] \<Rightarrow> Some (TLSInfo [])
           | c # cs \<Rightarrow>
               if verify_client X (case ClientCAs cfg of None \<Rightarrow> [] | Some pool \<Rightarrow> pool) now c
               then Some (TLSInfo certs) else None)
      | RequireAndVerifyClientCert \<Rightarrow>
          (case certs of
             [] \<Rightarrow> None
           | c # cs \<Rightarrow>
               if verify_client X (case ClientCAs cfg of None \<Rightarrow> [] | Some pool \<Rightarrow> pool) now c
               then Some (TLSInfo certs) else None))"

lemma ServerCreds_Inr:
  assumes "ServerCreds X caPEM sc sk = Inr cfg"
  shows "ClientAuth cfg = VerifyClientCertIfGiven \<and>
    ClientCAs cfg = Some (pem_pool X caPEM) \<and> pem_pool X caPEM \<noteq> [] \<and> MinVersion cfg = VersionTLS13 \<and>
    (\<exists>cert. Certificates cfg = [cert] \<and> X509KeyPair X sc sk = Inr cert)"
  using assms
  by (auto simp: ServerCreds_def AppendCertsFromPEM_def split: option.splits if_splits)

lemma server_peer_cases:
  assumes "ServerCreds X caPEM sc sk = Inr cfg"
  shows "server_peer X cfg now certs =
    (case certs of [] \<Rightarrow> Some (TLSInfo [])
     | c # cs \<Rightarrow> if verify_client X (pem_pool X caPEM) now c then Some (TLSInfo certs) else None)"
  using ServerCreds_Inr [OF assms]
  by (auto simp: server_peer_def split: list.splits)

text \<open>The program's own CAs restrict no usage.\<close>

lemma NewCA_usage: "x509_laws X \<Longrightarrow> NewCA X kr sr now cn validity = Inr c \<Longrightarrow> client_usage (ca_cert c)"
  by (drule (1) NewCA_Inr) (auto simp: matches_template_def client_usage_def)

section \<open>Properties\<close>

lemma peer_role_needs_ca_signature_core:
  assumes "ServerCreds X caPEM sc sk = Inr cfg" "server_peer X cfg now certs = Some info"
    and "caller_role (Some info) \<noteq> RolePublic"
  shows "\<exists>c cs ca. certs = c # cs \<and> ca \<in> set (pem_pool X caPEM) \<and> x_CheckSignatureFrom X ca c \<and>
    valid_at now ca \<and> client_usage c \<and> valid_at now c \<and>
    caller_role (Some info) \<in> set (Organization (Subject c)) \<inter> {RoleReader, RoleOperator, RoleAdmin}"
proof -
  note peer = server_peer_cases [OF assms(1), of now certs]
  show ?thesis
  proof (cases certs)
    case Nil
    with peer assms(2) have "info = TLSInfo []" by simp
    with assms(3) show ?thesis by (simp add: caller_role_def)
  next
    case (Cons c cs)
    with peer assms(2) have v: "verify_client X (pem_pool X caPEM) now c" "info = TLSInfo (c # cs)"
      by (auto split: if_splits)
    then have "caller_role (Some info) = RoleFromCert c" by (simp add: caller_role_def)
    with RoleFromCert_origin [of c] assms(3) v Cons show ?thesis
      by (auto simp: verify_client_def list_ex_iff)
  qed
qed

text \<open>
  Fact: who a connection can speak for. On a server built by \<^verbatim>\<open>ServerCreds\<close> any caller may connect
  without a certificate and then has no role; a caller that gets a role has presented a
  certificate that is valid now, may be used for client authentication and is signed by a CA of the
  pool that is valid now, and the role is one of the certificate's organizations.
\<close>

theorem peer_role_needs_ca_signature:
  assumes "ServerCreds X caPEM sc sk = Inr cfg" "server_peer X cfg now certs = Some info"
    and "caller_role (Some info) \<noteq> RolePublic"
  shows "\<exists>c cs ca. certs = c # cs \<and> ca \<in> set (pem_pool X caPEM) \<and> x_CheckSignatureFrom X ca c \<and>
    valid_at now ca \<and> client_usage c \<and> valid_at now c \<and>
    caller_role (Some info) \<in> set (Organization (Subject c)) \<inter> {RoleReader, RoleOperator, RoleAdmin}"
  by (rule peer_role_needs_ca_signature_core [OF assms])

lemma enrolled_controller_authenticated_core:
  assumes "x509_laws X" "ca_wf X (svc_ca svc)"
    and "Service_Enroll X rnd t Consume svc csr tok s = (s', Inr res)"
    and "ServerCreds X (CertPEM X (svc_ca svc)) sc sk = Inr cfg"
    and "to_second (t - time_Minute) \<le> now" "now \<le> to_second (t + leafValidity svc)"
    and "valid_at now (ca_cert (svc_ca svc))" "client_usage (ca_cert (svc_ca svc))"
  shows "\<exists>role c. Consume tok s = (s', Inr role) \<and> ParseCert X (ClientCertPEM res) = Inr c \<and>
    server_peer X cfg now [c] = Some (TLSInfo [c]) \<and>
    caller_role (Some (TLSInfo [c])) = (if rank_of role = 0 then RolePublic else role)"
proof -
  from assms(3) obtain role where e: "Consume tok s = (s', Inr role)"
      "Sign X rnd t (svc_ca svc) (client_request svc csr role) = Inr (ClientCertPEM res)"
    unfolding Service_Enroll_Inr by blast
  from Sign_Inr [OF assms(1) e(2)] assms(2) obtain r :: certificate_request and serial c where c:
      "ParseCert X (ClientCertPEM res) = Inr c"
      "matches_template (leaf_template serial (CommonName (csr_Subject r)) (client_request svc csr role) t)
        (csr_PublicKey r) c"
      "x_CheckSignatureFrom X (ca_cert (svc_ca svc)) c"
    by blast
  have "set (Organization (Subject c)) = {role}"
    using c(2) by (simp add: matches_template_def)
  note role = RoleFromCert_only [OF this]
  have "verify_client X [ca_cert (svc_ca svc)] now c"
    using c assms(5-8) by (simp add: verify_client_def client_usage_def valid_at_def matches_template_def)
  then have "server_peer X cfg now [c] = Some (TLSInfo [c])"
    using server_peer_cases [OF assms(4)] pem_pool_CertPEM [OF assms(1,2)] by simp
  with e(1) c(1) role show ?thesis by (auto simp: caller_role_def)
qed

text \<open>
  C38: an enrolled controller is let in under its role: the client certificate of a successful
  enrollment is accepted by the agent's server at any time within its validity and the CA's (of a CA
  that is not restricted to another use, as the program's own is not), and the caller then has exactly the role of the token (or none, if that is not a known role).
\<close>

theorem enrolled_controller_authenticated:
  assumes "x509_laws X" "ca_wf X (svc_ca svc)"
    and "Service_Enroll X rnd t Consume svc csr tok s = (s', Inr res)"
    and "ServerCreds X (CertPEM X (svc_ca svc)) sc sk = Inr cfg"
    and "to_second (t - time_Minute) \<le> now" "now \<le> to_second (t + leafValidity svc)"
    and "valid_at now (ca_cert (svc_ca svc))" "client_usage (ca_cert (svc_ca svc))"
  shows "\<exists>role c. Consume tok s = (s', Inr role) \<and> ParseCert X (ClientCertPEM res) = Inr c \<and>
    server_peer X cfg now [c] = Some (TLSInfo [c]) \<and>
    caller_role (Some (TLSInfo [c])) = (if rank_of role = 0 then RolePublic else role)"
  by (rule enrolled_controller_authenticated_core [OF assms])

text \<open>
  C39: a server certificate does not open the door: a leaf signed for server use, such as the
  agent's own, is rejected as a client certificate, whatever its organizations are.
\<close>

theorem server_leaf_not_a_client:
  assumes "x509_laws X" "Sign X rnd t ca req = Inr p" "\<not> Client req" "ParseCert X p = Inr c"
    and "ServerCreds X caPEM sc sk = Inr cfg"
  shows "server_peer X cfg now (c # cs) = None"
proof -
  have "ExtKeyUsage c = [ExtKeyUsageServerAuth]"
    using Sign_Inr [OF assms(1,2)] assms(3,4) by (auto simp: matches_template_def)
  then have "\<not> client_usage c" by (simp add: client_usage_def)
  then show ?thesis using server_peer_cases [OF assms(5)] by (simp add: verify_client_def)
qed

lemma enroll_gives_usable_credential_core:
  assumes "x509_laws X" "ca_wf X (svc_ca svc)"
    and "newClient endpoint bootstrapCreds = Inr (\<lambda>req s.
      case Service_Enroll X rnd2 t Consume svc (CsrPem req) (Token req) s of
        (s', Inl e) \<Rightarrow> (s', Inl (Errorf PermissionDenied ''%s'' [etext e]))
      | (s', Inr res) \<Rightarrow> (s', Inr \<lparr>ClientCertPem = ClientCertPEM res, CaPem = CAPEM res,
          AgentId = res_AgentID res, er_Fingerprint = res_Fingerprint res\<rparr>))"
    and "transport_Enroll X rnd newClient None endpoint token cn s = (s', Inr cfg)"
  shows "\<exists>role cert serial csr. Consume token s = (s', Inr role) \<and> cfg_Endpoints cfg = [endpoint] \<and>
    cfg_AgentID cfg = svc_agentID svc \<and>
    FingerprintPEM X (serverCertPEM svc) = Inr (cfg_Fingerprint cfg) \<and>
    Config_ClientTLS X cfg = Inr (zero_tls\<lparr>Certificates := [cert],
      RootCAs := Some [ca_cert (svc_ca svc)], MinVersion := VersionTLS13\<rparr>) \<and>
    matches_template (leaf_template serial cn (client_request svc csr role) t) (x_Public X (tls_key cert)) (tls_leaf cert) \<and>
    x_CheckSignatureFrom X (ca_cert (svc_ca svc)) (tls_leaf cert) \<and>
    x_GenerateKey X rnd = Inr (PublicKey (tls_leaf cert), tls_key cert) \<and>
    X509KeyPair X (cfg_ClientCert cfg) (cfg_ClientKey cfg) = Inr cert"
proof -
  obtain csrPEM keyPEM where csr: "NewCSR X rnd cn = Inr (csrPEM, keyPEM)"
    using assms(4) by (auto simp: transport_Enroll_def split: sum.splits)
  obtain res where run: "Service_Enroll X rnd2 t Consume svc csrPEM token s = (s', Inr res)"
    and cfg: "cfg = \<lparr>cfg_CA = CAPEM res, cfg_ClientCert = ClientCertPEM res, cfg_ClientKey = keyPEM,
      cfg_Endpoints = [endpoint], cfg_AgentID = res_AgentID res, cfg_Fingerprint = res_Fingerprint res\<rparr>"
    using assms(3,4) csr
    by (auto simp: transport_Enroll_def dialBootstrap_def split: prod.splits sum.splits)
  from run obtain role where e: "Consume token s = (s', Inr role)"
      "Sign X rnd2 t (svc_ca svc) (client_request svc csrPEM role) = Inr (ClientCertPEM res)"
      "FingerprintPEM X (serverCertPEM svc) = Inr (res_Fingerprint res)"
      "CAPEM res = CertPEM X (svc_ca svc)" "res_AgentID res = svc_agentID svc"
    unfolding Service_Enroll_Inr by blast
  have csr': "NewCSR X rnd cn = Inr (CSRPEM (client_request svc csrPEM role), keyPEM)"
    using csr by simp
  from signed_pair [OF assms(1) csr' e(2)] obtain cert serial where pair:
      "X509KeyPair X (ClientCertPEM res) keyPEM = Inr cert"
      "matches_template (leaf_template serial cn (client_request svc csrPEM role) t) (x_Public X (tls_key cert)) (tls_leaf cert)"
      "ClientCertPEM res \<noteq> []" "keyPEM \<noteq> []" "x_GenerateKey X rnd = Inr (PublicKey (tls_leaf cert), tls_key cert)"
      "x_CheckSignatureFrom X (ca_cert (svc_ca svc)) (tls_leaf cert)"
    using assms(2) by blast
  have "Config_ClientTLS X cfg = Inr (zero_tls\<lparr>Certificates := [cert],
      RootCAs := Some [ca_cert (svc_ca svc)], MinVersion := VersionTLS13\<rparr>)"
    using assms(1,2) pair e(4) AppendCerts_CertPEM [OF assms(1), of "svc_ca svc"] CertPEM_ne [OF assms(1)]
    by (simp add: Config_ClientTLS_def cfg ca_wf_def)
  with e cfg pair(1,2,5,6) show ?thesis by auto
qed

text \<open>
  Fact: the credential the client keeps is exactly what the far end answered, with the key it drew
  itself: the request it sends carries the token and a well-formed signing request for that key.
  If the far end is the agent's enrollment service, the credential is complete and gives a TLS
  configuration that trusts the agent's CA.
\<close>

theorem enroll_gives_usable_credential:
  assumes "x509_laws X" "ca_wf X (svc_ca svc)"
    and "newClient endpoint bootstrapCreds = Inr (\<lambda>req s.
      case Service_Enroll X rnd2 t Consume svc (CsrPem req) (Token req) s of
        (s', Inl e) \<Rightarrow> (s', Inl (Errorf PermissionDenied ''%s'' [etext e]))
      | (s', Inr res) \<Rightarrow> (s', Inr \<lparr>ClientCertPem = ClientCertPEM res, CaPem = CAPEM res,
          AgentId = res_AgentID res, er_Fingerprint = res_Fingerprint res\<rparr>))"
    and "transport_Enroll X rnd newClient None endpoint token cn s = (s', Inr cfg)"
  shows "\<exists>role cert. Consume token s = (s', Inr role) \<and> cfg_Endpoints cfg = [endpoint] \<and>
    cfg_AgentID cfg = svc_agentID svc \<and>
    FingerprintPEM X (serverCertPEM svc) = Inr (cfg_Fingerprint cfg) \<and>
    Config_ClientTLS X cfg = Inr (zero_tls\<lparr>Certificates := [cert],
      RootCAs := Some [ca_cert (svc_ca svc)], MinVersion := VersionTLS13\<rparr>) \<and>
    set (Organization (Subject (tls_leaf cert))) = {role} \<and> CommonName (Subject (tls_leaf cert)) = cn \<and>
    x_GenerateKey X rnd = Inr (PublicKey (tls_leaf cert), tls_key cert)"
  using enroll_gives_usable_credential_core [OF assms] by (auto simp: matches_template_def)

section \<open>The properties at concrete inputs\<close>

lemma to_second_bounds: "to_second t \<le> t" "t - time_Second < to_second t"
  using div_mult_mod_eq [of t time_Second] pos_mod_bound [of time_Second t] pos_mod_sign [of time_Second t]
  by (simp_all add: to_second_def time_Second_def)

text \<open>A CA, an enrollment service on it that answers with a role, a request, and the server's credentials.\<close>

lemma demo_stack:
  obtains svc :: Service and csr key sc sk cfg where "ca_wf plain_x509 (svc_ca svc)" "valid_at 0 (ca_cert (svc_ca svc))"
    "client_usage (ca_cert (svc_ca svc))"
    and "NewCSR plain_x509 (Inr (\<lambda>_. CHR ''k'')) ''rexec@host'' = Inr (csr, key)"
    and "ServerCreds plain_x509 (CertPEM plain_x509 (svc_ca svc)) sc sk = Inr cfg"
    and "\<forall>rnd t req. CSRPEM req = csr \<longrightarrow> (\<exists>p. Sign plain_x509 (Inr rnd) t (svc_ca svc) req = Inr p)"
    and "\<exists>fp. FingerprintPEM plain_x509 (serverCertPEM svc) = Inr fp"
    and "leafValidity svc = DefaultLeafValidity"
proof -
  obtain ca where ca: "NewCA plain_x509 (Inr (\<lambda>_. CHR ''c'')) (Inr (\<lambda>_. CHR ''n'')) 0 ''CA'' DefaultCAValidity = Inr ca"
    using plain_NewCA by blast
  obtain csr key where csr: "NewCSR plain_x509 (Inr (\<lambda>_. CHR ''k'')) ''rexec@host'' = Inr (csr, key)"
    using plain_NewCSR by blast
  let ?req = "\<lparr>CSRPEM = csr, Roles = [], Validity = 1, Client = False, sr_DNSNames = [], IPs = []\<rparr>"
  have sign: "\<exists>p. Sign plain_x509 (Inr rnd) t ca req = Inr p" if "CSRPEM req = csr" for rnd t req
    using plain_Sign [of "Inr (\<lambda>_. CHR ''k'')" "''rexec@host''" req key] csr that by blast
  obtain sc where sc: "Sign plain_x509 (Inr (\<lambda>_. CHR ''s'')) 0 ca ?req = Inr sc"
    using sign [of ?req] by auto
  have csr': "NewCSR plain_x509 (Inr (\<lambda>_. CHR ''k'')) ''rexec@host'' = Inr (CSRPEM ?req, key)"
    using csr by simp
  from signed_pair [OF plain_x509_laws csr' sc] obtain cert where
    pair: "X509KeyPair plain_x509 sc key = Inr cert" "ParseCert plain_x509 sc = Inr (tls_leaf cert)" by blast
  note wf = NewCA_wf [OF plain_x509_laws ca]
  have "AppendCertsFromPEM plain_x509 (CertPEM plain_x509 ca) = Some [ca_cert ca]"
    using AppendCerts_CertPEM [OF plain_x509_laws] wf by (simp add: ca_wf_def)
  with pair obtain cfg where cfg: "ServerCreds plain_x509 (CertPEM plain_x509 ca) sc key = Inr cfg"
    by (simp add: ServerCreds_def)
  have "valid_at 0 (ca_cert ca)"
    using NewCA_Inr [OF plain_x509_laws ca] to_second_bounds(1) [of "- time_Minute"]
      to_second_bounds(2) [of DefaultCAValidity]
    by (auto simp: valid_at_def matches_template_def DefaultCAValidity_def time_units)
  moreover note NewCA_usage [OF plain_x509_laws ca]
  ultimately show thesis
    using wf csr cfg sign pair
    by (intro that [of "NewService ca sc ''agent'' DefaultLeafValidity" csr key sc key cfg])
       (auto simp: NewService_def FingerprintPEM_def)
qed

lemma demo_stack_enroll:
  fixes svc :: Service
  assumes "\<forall>rnd t req. CSRPEM req = csr \<longrightarrow> (\<exists>p. Sign plain_x509 (Inr rnd) t (svc_ca svc) req = Inr p)"
    and "\<exists>fp. FingerprintPEM plain_x509 (serverCertPEM svc) = Inr fp" "Consume tok s = (s', Inr role)"
  shows "\<exists>res. Service_Enroll plain_x509 (Inr rnd) t Consume svc csr tok s = (s', Inr res)"
proof -
  obtain p where "Sign plain_x509 (Inr rnd) t (svc_ca svc) (client_request svc csr role) = Inr p"
    using assms(1) by fastforce
  with assms(2,3) show ?thesis by (auto simp: Service_Enroll_def)
qed

theorem enrolled_controller_authenticated_witness:
  "\<exists>cfg c. server_peer plain_x509 cfg 0 [c] = Some (TLSInfo [c]) \<and>
     caller_role (Some (TLSInfo [c])) = RoleOperator"
proof (rule demo_stack)
  fix svc :: Service and csr key sc sk cfg
  assume wf: "ca_wf plain_x509 (svc_ca svc)" and v: "valid_at 0 (ca_cert (svc_ca svc))" "client_usage (ca_cert (svc_ca svc))"
    and cfg: "ServerCreds plain_x509 (CertPEM plain_x509 (svc_ca svc)) sc sk = Inr cfg"
    and sign: "\<forall>rnd t req. CSRPEM req = csr \<longrightarrow> (\<exists>p. Sign plain_x509 (Inr rnd) t (svc_ca svc) req = Inr p)"
    and fp: "\<exists>fp. FingerprintPEM plain_x509 (serverCertPEM svc) = Inr fp"
    and lv: "leafValidity svc = DefaultLeafValidity"
  obtain res where res: "Service_Enroll plain_x509 (Inr (\<lambda>_. CHR ''z'')) 0 (\<lambda>v s. (s, Inr RoleOperator)) svc csr ''t'' ()
      = ((), Inr res)"
    using demo_stack_enroll [OF sign fp, where Consume = "\<lambda>v s. (s, Inr RoleOperator)"
        and tok = "''t''" and s = "()" and s' = "()" and role = RoleOperator
        and rnd = "\<lambda>_. CHR ''z''" and t = 0] by auto
  have t: "to_second (0 - time_Minute) \<le> 0" "0 \<le> to_second (0 + leafValidity svc)"
    by (simp_all add: lv to_second_def DefaultLeafValidity_def time_units)
  have known: "rank_of RoleOperator \<noteq> 0" by simp
  from enrolled_controller_authenticated [OF plain_x509_laws wf res cfg t v] known
  show ?thesis by fastforce
qed

theorem peer_role_needs_ca_signature_witness:
  "\<exists>caPEM sc sk cfg c. ServerCreds plain_x509 caPEM sc sk = Inr cfg \<and>
     server_peer plain_x509 cfg 0 [c] = Some (TLSInfo [c]) \<and> client_usage c"
proof (rule demo_stack)
  fix svc :: Service and csr key sc sk cfg
  assume wf: "ca_wf plain_x509 (svc_ca svc)" and v: "valid_at 0 (ca_cert (svc_ca svc))" "client_usage (ca_cert (svc_ca svc))"
    and cfg: "ServerCreds plain_x509 (CertPEM plain_x509 (svc_ca svc)) sc sk = Inr cfg"
  let ?c = "zero_certificate\<lparr>Subject := \<lparr>CommonName = ''c'', Organization = [RoleAdmin]\<rparr>,
      ExtKeyUsage := [ExtKeyUsageClientAuth]\<rparr>"
  have "verify_client plain_x509 [ca_cert (svc_ca svc)] 0 ?c"
    using wf v by (simp add: verify_client_def client_usage_def valid_at_def zero_certificate_def plain_x509_def ca_wf_def)
  then have peer: "server_peer plain_x509 cfg 0 [?c] = Some (TLSInfo [?c])"
    using server_peer_cases [OF cfg] pem_pool_CertPEM [OF plain_x509_laws wf] by simp
  have "caller_role (Some (TLSInfo [?c])) = RoleAdmin"
    by (simp add: caller_role_def RoleFromCert_def rank_table_rank)
  then have "caller_role (Some (TLSInfo [?c])) \<noteq> RolePublic" by (simp add: role_defs)
  from peer_role_needs_ca_signature [OF cfg peer this] cfg peer show ?thesis by blast
qed

theorem server_leaf_not_a_client_witness:
  "\<exists>cfg c. server_peer plain_x509 cfg 0 [c] = None"
proof (rule demo_stack)
  fix svc :: Service and csr key sc sk cfg
  assume cfg: "ServerCreds plain_x509 (CertPEM plain_x509 (svc_ca svc)) sc sk = Inr cfg"
    and sign: "\<forall>rnd t req. CSRPEM req = csr \<longrightarrow> (\<exists>p. Sign plain_x509 (Inr rnd) t (svc_ca svc) req = Inr p)"
  let ?req = "\<lparr>CSRPEM = csr, Roles = [RoleAdmin], Validity = 1, Client = False, sr_DNSNames = [], IPs = []\<rparr>"
  obtain p where p: "Sign plain_x509 (Inr (\<lambda>_. CHR ''s'')) 0 (svc_ca svc) ?req = Inr p"
    using sign by fastforce
  obtain c where "ParseCert plain_x509 p = Inr c" using Sign_Inr [OF plain_x509_laws p] by blast
  from server_leaf_not_a_client [OF plain_x509_laws p _ this cfg] show ?thesis by auto
qed

theorem enroll_gives_usable_credential_witness:
  "\<exists>cfg cert root. cfg_Endpoints cfg = [''agent:50000''] \<and>
     Config_ClientTLS plain_x509 cfg = Inr (zero_tls\<lparr>Certificates := [cert], RootCAs := Some [root],
       MinVersion := VersionTLS13\<rparr>) \<and> CommonName (Subject (tls_leaf cert)) = ''rexec@host''"
proof (rule demo_stack)
  fix svc :: Service and csr key sc sk cfg
  assume wf: "ca_wf plain_x509 (svc_ca svc)"
    and csr: "NewCSR plain_x509 (Inr (\<lambda>_. CHR ''k'')) ''rexec@host'' = Inr (csr, key)"
    and sign: "\<forall>rnd t req. CSRPEM req = csr \<longrightarrow> (\<exists>p. Sign plain_x509 (Inr rnd) t (svc_ca svc) req = Inr p)"
    and fp: "\<exists>fp. FingerprintPEM plain_x509 (serverCertPEM svc) = Inr fp"
  let ?C = "\<lambda>v s. (s, Inr RoleReader)"
  let ?conn = "\<lambda>req s. case Service_Enroll plain_x509 (Inr (\<lambda>_. CHR ''z'')) 0 ?C svc (CsrPem req) (Token req) s of
      (s', Inl e) \<Rightarrow> (s', Inl (Errorf PermissionDenied ''%s'' [''enroll'']))
    | (s', Inr res) \<Rightarrow> (s', Inr \<lparr>ClientCertPem = ClientCertPEM res, CaPem = CAPEM res,
        AgentId = res_AgentID res, er_Fingerprint = res_Fingerprint res\<rparr>)"
  obtain res where "Service_Enroll plain_x509 (Inr (\<lambda>_. CHR ''z'')) 0 ?C svc csr ''tok'' () = ((), Inr res)"
    using demo_stack_enroll [OF sign fp, where Consume = ?C and tok = "''tok''" and s = "()" and s' = "()"
        and role = RoleReader and rnd = "\<lambda>_. CHR ''z''" and t = 0] by auto
  then have conn: "?conn \<lparr>Token = ''tok'', CsrPem = csr\<rparr> () = ((), Inr \<lparr>ClientCertPem = ClientCertPEM res,
      CaPem = CAPEM res, AgentId = res_AgentID res, er_Fingerprint = res_Fingerprint res\<rparr>)"
    by simp
  obtain out where out: "transport_Enroll plain_x509 (Inr (\<lambda>_. CHR ''k'')) (\<lambda>_ _. Inr ?conn) None ''agent:50000'' ''tok''
      ''rexec@host'' () = ((), Inr out)"
    unfolding transport_Enroll_def dialBootstrap_def csr
    by (simp only: conn option.case sum.case prod.case wrap_error.simps)
  from enroll_gives_usable_credential [where newClient = "\<lambda>_ _. Inr ?conn" and etext = "\<lambda>_. ''enroll''",
      OF plain_x509_laws wf refl out]
  show ?thesis by blast
qed

end
