(* ===== verification/Identity.thy ===== *)
theory Identity
  imports Go_OS
begin

text \<open>
  \<^verbatim>\<open>internal/identity/identity.go\<close>: the agent's identifier, read from a file or generated and
  written to it. The new identifier comes from the package \<^verbatim>\<open>google/uuid\<close> and is an argument;
  \<open>uuid_text\<close> is what its documentation promises of the text.
\<close>

section \<open>Operations\<close>

datatype identity_error =
    IdentityEmpty string | IdentityRead os_error | IdentityMkdir os_error | IdentityWrite os_error

definition identity_generate ::
  "faults \<Rightarrow> string \<Rightarrow> string \<Rightarrow> os \<Rightarrow> os \<times> (identity_error + string)" where
  "identity_generate F uuid path s =
     (case os_MkdirAll F (filepath_Dir path) s of
        (s1, Some e) \<Rightarrow> (s1, Inl (IdentityMkdir e))
      | (s1, None) \<Rightarrow>
          (case os_WriteFile F path (uuid @ [CHR 0x0A]) perm_0600 s1 of
             (s2, Some e) \<Rightarrow> (s2, Inl (IdentityWrite e))
           | (s2, None) \<Rightarrow> (s2, Inr uuid)))"

definition AgentID :: "faults \<Rightarrow> string \<Rightarrow> string \<Rightarrow> os \<Rightarrow> os \<times> (identity_error + string)" where
  "AgentID F uuid path s =
     (case os_ReadFile F path s of
        (data, None) \<Rightarrow>
          (let aid = strings_TrimSpace data in
           if aid = [] then (s, Inl (IdentityEmpty path)) else (s, Inr aid))
      | (data, Some err) \<Rightarrow>
          if is_ErrNotExist (Some err) then identity_generate F uuid path s
          else (s, Inl (IdentityRead err)))"

text \<open>The text of a UUID: hexadecimal digits and dashes.\<close>

definition uuid_text :: "string \<Rightarrow> bool" where
  "uuid_text u \<longleftrightarrow> length u = 36 \<and> list_all (\<lambda>c. c \<in> set ''0123456789abcdef-'') u"

lemma printing_uuid: "c \<in> set ''0123456789abcdef-'' \<Longrightarrow> printing c"
  by (auto simp: printing_def byte_in_def)

lemma solid_uuid: "uuid_text u \<Longrightarrow> solid u"
proof -
  assume u: "uuid_text u"
  then have "u \<noteq> []" by (auto simp: uuid_text_def)
  then have "hd u \<in> set u" "last u \<in> set u" by simp_all
  with u have "printing (hd u)" "printing (last u)"
    using printing_uuid unfolding uuid_text_def list_all_iff by blast+
  with \<open>u \<noteq> []\<close> show ?thesis by (simp add: solid_def)
qed

lemma identity_generate_Inr:
  "identity_generate F uuid path s = (s', Inr aid) \<Longrightarrow>
     aid = uuid \<and> file_data s' path = Some (uuid @ [CHR 0x0A])"
  by (auto simp: identity_generate_def os_WriteFile_ok split: prod.splits option.splits)

lemma AgentID_read:
  assumes "file_data s path = Some d" "strings_TrimSpace d \<noteq> []"
  shows "AgentID no_faults uuid path s = (s, Inr (strings_TrimSpace d))"
  using assms by (simp add: AgentID_def Let_def)

lemma AgentID_frame:
  "AgentID F uuid path s = (s', r) \<Longrightarrow> q \<noteq> path \<Longrightarrow> os_files s' q = os_files s q"
  by (auto simp: AgentID_def identity_generate_def Let_def os_WriteFile_other os_MkdirAll_files
      split: prod.splits option.splits if_splits)

lemma AgentID_file:
  assumes "uuid_text uuid" "AgentID F uuid path s = (s', Inr aid)"
  shows "\<exists>d. file_data s' path = Some d \<and> strings_TrimSpace d = aid \<and> aid \<noteq> []"
proof (cases "os_ReadFile F path s")
  case (Pair data err)
  show ?thesis
  proof (cases err)
    case None
    with assms(2) Pair have "s' = s" "aid = strings_TrimSpace data" "strings_TrimSpace data \<noteq> []"
      by (auto simp: AgentID_def Let_def split: if_splits)
    moreover have "file_data s path = Some data"
      using Pair None by (simp add: os_ReadFile_ok)
    ultimately show ?thesis by simp
  next
    case (Some e)
    with assms(2) Pair have "identity_generate F uuid path s = (s', Inr aid)"
      by (auto simp: AgentID_def split: if_splits)
    then have "aid = uuid" "file_data s' path = Some (uuid @ [CHR 0x0A])"
      by (auto dest: identity_generate_Inr)
    moreover have "strings_TrimSpace (uuid @ [CHR 0x0A]) = uuid" "uuid \<noteq> []"
      using solid_uuid [OF assms(1)] by (auto simp: strings_TrimSpace_newline solid_def)
    ultimately show ?thesis by simp
  qed
qed

section \<open>Properties\<close>

text \<open>
  Fact: the identifier is stable: once \<^verbatim>\<open>AgentID\<close> has returned an identifier, under whatever
  faults, a later undisturbed call returns the same one, whatever UUID it might draw, and leaves
  the file system alone.
\<close>

theorem agent_id_stable:
  assumes "uuid_text uuid" "AgentID F uuid path s = (s', Inr aid)"
  shows "AgentID no_faults uuid' path s' = (s', Inr aid)"
  using AgentID_file [OF assms] AgentID_read by blast

definition sample_uuid :: string where
  "sample_uuid = ''6f1d2c3b-0a9e-4b7c-8d55-1e2f3a4b5c6d''"

theorem agent_id_stable_witness:
  "\<exists>s. AgentID no_faults sample_uuid ''/d/agent.id'' \<lparr>os_files = Map.empty, os_dirs = {}\<rparr> = (s, Inr sample_uuid) \<and>
     AgentID no_faults ''other'' ''/d/agent.id'' s = (s, Inr sample_uuid)"
proof -
  have u: "uuid_text sample_uuid" by (simp add: uuid_text_def sample_uuid_def)
  have "filepath_Dir ''/d/agent.id'' = ''/d''" "filepath_Clean ''/d'' = ''/d''" by code_simp+
  then obtain s where s: "AgentID no_faults sample_uuid ''/d/agent.id''
      \<lparr>os_files = Map.empty, os_dirs = {}\<rparr> = (s, Inr sample_uuid)"
    by (simp add: AgentID_def identity_generate_def os_MkdirAll_def os_WriteFile_def dir_exists_def
        is_ErrNotExist_def file_data_def)
  from agent_id_stable [OF u s] s show ?thesis by blast
qed

text \<open>
  Fact: an existing identifier is never replaced: whatever fails, \<^verbatim>\<open>AgentID\<close> writes only when the
  file does not exist, and a file that is there (even one holding only white space, which is
  reported as an error) stays as it is.
\<close>

theorem agent_id_never_replaced:
  assumes "os_files s path = Some f"
  shows "fst (AgentID F uuid path s) = s \<and>
    (case snd (AgentID F uuid path s) of
       Inr aid \<Rightarrow> aid = strings_TrimSpace (f_data f) \<and> aid \<noteq> []
     | Inl e \<Rightarrow> e = IdentityEmpty path \<and> strings_TrimSpace (f_data f) = [] \<or>
         (\<exists>x. e = IdentityRead (OsError x)))"
  using assms
  by (auto simp: AgentID_def os_ReadFile_def is_ErrNotExist_def Let_def split: option.splits prod.splits)

theorem agent_id_never_replaced_witness:
  "fst (AgentID no_faults ''u'' ''p'' \<lparr>os_files = [''p'' \<mapsto> \<lparr>f_data = ''x'', f_mode = 0\<rparr>], os_dirs = {}\<rparr>) =
     \<lparr>os_files = [''p'' \<mapsto> \<lparr>f_data = ''x'', f_mode = 0\<rparr>], os_dirs = {}\<rparr>"
  using agent_id_never_replaced [of "\<lparr>os_files = [''p'' \<mapsto> \<lparr>f_data = ''x'', f_mode = 0\<rparr>], os_dirs = {}\<rparr>" "''p''"]
  by simp

end
