(* ===== verification/Agentcmds.thy ===== *)
theory Agentcmds
  imports Transport Identity
begin

text \<open>
  \<^verbatim>\<open>cmd/rexec-agentd/agentcmds.go\<close>: the commands of the agent's side. \<^verbatim>\<open>ca init\<close> mints the CA and
  the server certificate into the data directory, \<^verbatim>\<open>token new\<close> puts a join token into the store
  there, and \<^verbatim>\<open>serveAgent\<close> loads all of it and serves until it is stopped. A command gets the flags and everything it
  reads of the machine in a record; the clock and the entropy are indexed by the order of reads.
\<close>

section \<open>Paths\<close>

record dataLayout =
  dl_dir :: string

definition dl_caCert :: "dataLayout \<Rightarrow> string" where
  "dl_caCert d = filepath_Join [dl_dir d, ''ca.crt'']"
definition dl_caKey :: "dataLayout \<Rightarrow> string" where
  "dl_caKey d = filepath_Join [dl_dir d, ''ca.key'']"
definition dl_serverCert :: "dataLayout \<Rightarrow> string" where
  "dl_serverCert d = filepath_Join [dl_dir d, ''server.crt'']"
definition dl_serverKey :: "dataLayout \<Rightarrow> string" where
  "dl_serverKey d = filepath_Join [dl_dir d, ''server.key'']"
definition dl_agentID :: "dataLayout \<Rightarrow> string" where
  "dl_agentID d = filepath_Join [dl_dir d, ''agent.id'']"
definition dl_tokens :: "dataLayout \<Rightarrow> string" where
  "dl_tokens d = filepath_Join [dl_dir d, ''tokens.json'']"
definition dl_policy :: "dataLayout \<Rightarrow> string" where
  "dl_policy d = filepath_Join [dl_dir d, ''policy.yaml'']"

lemmas layout_defs = dl_caCert_def dl_caKey_def dl_serverCert_def dl_serverKey_def dl_agentID_def
  dl_tokens_def dl_policy_def

lemma plain_names [simp]:
  "plain_name ''ca.crt''" "plain_name ''ca.key''" "plain_name ''server.crt''" "plain_name ''server.key''"
  "plain_name ''agent.id''" "plain_name ''tokens.json''" "plain_name ''policy.yaml''"
  by (simp_all add: plain_name_def)

text \<open>The files are seven different ones, whatever the directory.\<close>

lemma layout_distinct:
  "distinct [dl_caCert d, dl_caKey d, dl_serverCert d, dl_serverKey d, dl_agentID d, dl_tokens d, dl_policy d]"
  by (simp add: layout_defs filepath_Join_inject)

section \<open>Flags and machine\<close>

record agentd =
  ad_data_dir :: string
  ad_listen :: string
  ad_UserConfigDir :: "string option"
  ad_hostname :: string
  ad_faults :: faults
  ad_x509 :: x509_env
  ad_json :: json_codec
  ad_yaml :: "bytes \<Rightarrow> string + Policy"
  ad_now :: "nat \<Rightarrow> instant"
  ad_rnd :: "nat \<Rightarrow> entropy"
  ad_uuid :: string
  ad_swap :: "nat \<Rightarrow> bool"

datatype agentd_error =
    AdCAExists string | AdMkdir os_error | AdIdentity identity_error | AdPki pki_error
  | AdWrite string os_error | AdToken token_error | AdReadCA os_error | AdReadCAKey os_error
  | AdReadServerCert os_error | AdReadServerKey os_error | AdPolicy policy_error
  | AdTransport transport_error | AdListen string | AdServe string

definition defaultDataDir :: "agentd \<Rightarrow> string" where
  "defaultDataDir A =
     (case ad_UserConfigDir A of
        None \<Rightarrow> ''rexec-agentd-data''
      | Some base \<Rightarrow> if base = [] then ''rexec-agentd-data'' else filepath_Join [base, ''rexec-agentd''])"

definition dataDirOf :: "agentd \<Rightarrow> string" where
  "dataDirOf A = (if ad_data_dir A \<noteq> [] then ad_data_dir A else defaultDataDir A)"

definition listenOf :: "agentd \<Rightarrow> string" where
  "listenOf A = (if ad_listen A \<noteq> [] then ad_listen A else ''127.0.0.1:50000'')"

section \<open>ca init\<close>

text \<open>
  A Go map is walked in an unspecified order: the two entries come as written or swapped.
\<close>

definition map_order :: "bool \<Rightarrow> (string \<times> bytes) list \<Rightarrow> (string \<times> bytes) list" where
  "map_order swap files = (if swap then rev files else files)"

fun writeFiles :: "faults \<Rightarrow> (string \<times> bytes) list \<Rightarrow> os \<Rightarrow> os \<times> (agentd_error + unit)" where
  "writeFiles F [] s = (s, Inr ())"
| "writeFiles F ((path, data) # files) s =
     (case os_WriteFile F path data perm_0600 s of
        (s', Some err) \<Rightarrow> (s', Inl (AdWrite path err))
      | (s', None) \<Rightarrow> writeFiles F files s')"

definition server_request :: "agentd \<Rightarrow> bytes \<Rightarrow> SignRequest" where
  "server_request A csrPEM =
     \<lparr>CSRPEM = csrPEM, Roles = [], Validity = 365 * 24 * time_Hour, Client = False,
      sr_DNSNames = (if ad_hostname A \<noteq> [] then [''localhost''] @ [ad_hostname A] else [''localhost'']),
      IPs = [replicate 10 (CHR 0x00) @ [CHR 0xFF, CHR 0xFF, CHR 0x7F, CHR 0x00, CHR 0x00, CHR 0x01],
             replicate 15 (CHR 0x00) @ [CHR 0x01]]\<rparr>"

definition mintServerCert :: "agentd \<Rightarrow> CA \<Rightarrow> pki_error + bytes \<times> bytes" where
  "mintServerCert A ca =
     and_then (NewCSR (ad_x509 A) (ad_rnd A 2) ''rexec-agentd'') (\<lambda>(csrPEM, keyPEM).
     and_then (Sign (ad_x509 A) (ad_rnd A 3) (ad_now A 1) ca (server_request A csrPEM)) (\<lambda>certPEM.
     Inr (certPEM, keyPEM)))"

text \<open>
  What the command prints is its result: the agent's identifier and its fingerprint. A pure call
  \<open>r\<close> in state \<open>s\<close> is \<open>(s, r)\<close>.
\<close>

definition ca_init :: "agentd \<Rightarrow> bool \<Rightarrow> os \<Rightarrow> os \<times> (agentd_error + string \<times> string)" where
  "ca_init A force s0 =
     (let d = \<lparr>dl_dir = dataDirOf A\<rparr>; F = ad_faults A; X = ad_x509 A in
      if os_Stat F (dl_caKey d) s0 = None \<and> \<not> force then (s0, Inl (AdCAExists (dl_caKey d)))
      else
        and_then_st (map_prod id (wrap_error AdMkdir \<circ> check_error) (os_MkdirAll F (dl_dir d) s0)) (\<lambda>_ s.
        and_then_st (map_prod id (wrap_error AdIdentity) (AgentID F (ad_uuid A) (dl_agentID d) s)) (\<lambda>aid s.
        and_then_st (s, wrap_error AdPki (NewCA X (ad_rnd A 0) (ad_rnd A 1) (ad_now A 0)
            (''rexec-agentd CA '' @ aid) DefaultCAValidity)) (\<lambda>ca s.
        and_then_st (s, wrap_error AdPki (KeyPEM X ca)) (\<lambda>caKey s.
        and_then_st (writeFiles F (map_order (ad_swap A 0)
            [(dl_caCert d, CertPEM X ca), (dl_caKey d, caKey)]) s) (\<lambda>_ s.
        and_then_st (s, wrap_error AdPki (mintServerCert A ca)) (\<lambda>(serverCertPEM, serverKeyPEM) s.
        and_then_st (writeFiles F (map_order (ad_swap A 1)
            [(dl_serverCert d, serverCertPEM), (dl_serverKey d, serverKeyPEM)]) s) (\<lambda>_ s.
        and_then_st (s, wrap_error AdPki (FingerprintPEM X serverCertPEM)) (\<lambda>fp s.
        (s, Inr (aid, fp)))))))))))"

section \<open>token new\<close>

definition token_new :: "agentd \<Rightarrow> string \<Rightarrow> duration \<Rightarrow> os \<Rightarrow> os \<times> (agentd_error + string)" where
  "token_new A role ttl s =
     (let d = \<lparr>dl_dir = dataDirOf A\<rparr>; store = NewFileStore (dl_tokens d) in
      map_prod id (wrap_error AdToken)
        (FileStore_Issue (ad_faults A) (ad_json A) store (ad_rnd A 0) role ttl (ad_now A 0) s))"

section \<open>serveAgent\<close>

text \<open>\<^verbatim>\<open>os.ReadFile\<close> with the error a command makes of its failure.\<close>

definition read_or :: "(os_error \<Rightarrow> agentd_error) \<Rightarrow> faults \<Rightarrow> string \<Rightarrow> os \<Rightarrow> os \<times> (agentd_error + bytes)" where
  "read_or f F path s =
     (s, case os_ReadFile F path s of (data, Some e) \<Rightarrow> Inl (f e) | (data, None) \<Rightarrow> Inr data)"

text \<open>
  What \<^verbatim>\<open>serveAgent\<close> assembles before it listens: the credentials and the server of the handlers.
  (The authorization table is \<open>AgentTable\<close>; the first state has no approvals.)
\<close>

definition serve_load ::
  "agentd \<Rightarrow> string \<Rightarrow> string \<Rightarrow> os \<Rightarrow> os \<times> (agentd_error + tls_config \<times> Server)" where
  "serve_load A dir version s0 =
     (let d = \<lparr>dl_dir = dir\<rparr>; F = ad_faults A; X = ad_x509 A in
      and_then_st (read_or AdReadCA F (dl_caCert d) s0) (\<lambda>caCert s.
      and_then_st (read_or AdReadCAKey F (dl_caKey d) s) (\<lambda>caKey s.
      and_then_st (s, wrap_error AdPki (LoadCA X caCert caKey)) (\<lambda>ca s.
      and_then_st (read_or AdReadServerCert F (dl_serverCert d) s) (\<lambda>serverCert s.
      and_then_st (read_or AdReadServerKey F (dl_serverKey d) s) (\<lambda>serverKey s.
      and_then_st (map_prod id (wrap_error AdIdentity) (AgentID F (ad_uuid A) (dl_agentID d) s)) (\<lambda>aid s.
      and_then_st (s, wrap_error AdPki (FingerprintPEM X serverCert)) (\<lambda>fp s.
      let tokens = NewFileStore (dl_tokens d);
          svc = NewService ca serverCert aid DefaultLeafValidity in
      and_then_st (s, wrap_error AdPolicy (policy_Load F (ad_yaml A) (dl_policy d) s)) (\<lambda>pol s.
      let agent = \<lparr>srv_enroller = svc, srv_tokens = tokens, srv_agentID = aid, srv_fingerprint = fp,
            srv_hostname = ad_hostname A, srv_version = version, srv_policy = pol\<rparr> in
      and_then_st (s, wrap_error AdTransport (ServerCreds X caCert serverCert serverKey)) (\<lambda>creds s.
      (s, Inr (creds, agent))))))))))))"

text \<open>
  Serving: the events the daemon sees are the calls that connections make, in the order in which
  they take effect, the cancellation of its context, the return of \<^verbatim>\<open>srv.GracefulStop\<close>, and the end
  of \<^verbatim>\<open>srv.Serve\<close>. The credentials decide what peer a connection has. After the cancellation
  (\<open>serve_drain\<close>) the calls that the server had accepted run on and take effect, an end of
  \<^verbatim>\<open>srv.Serve\<close> goes to a channel that nobody reads any more, and the function returns when
  \<^verbatim>\<open>GracefulStop\<close> does. \<open>Some\<close> of an error (or nil) is the return of the function; \<open>None\<close> that it
  is still serving, or still waiting for its calls. That the calls overlap, that their effects come
  in one order nevertheless, and when \<^verbatim>\<open>GracefulStop\<close> returns, are theories
  \<^verbatim>\<open>Concurrent_Deploys\<close> and \<^verbatim>\<open>Graceful_Stop\<close>.
\<close>

datatype serve_event = Incoming "certificate list" call | CtxDone | GracefulStopped | ServeErr "string option"

definition tls_call :: "x509_env \<Rightarrow> tls_config \<Rightarrow> Server \<Rightarrow> certificate list \<Rightarrow> call \<Rightarrow> agent_state \<Rightarrow>
    agent_state \<times> answer option" where
  "tls_call X creds srv certs c st =
     (case server_peer X creds (w_now (call_world c)) certs of
        None \<Rightarrow> (st, None)
      | Some info \<Rightarrow>
          map_prod id Some (serve_call AgentTable srv
            (c\<lparr>call_stream := (call_stream c)\<lparr>ss_Context := Some info\<rparr>\<rparr>) st))"

fun serve_drain ::
  "x509_env \<Rightarrow> tls_config \<Rightarrow> Server \<Rightarrow> serve_event list \<Rightarrow> agent_state \<Rightarrow> agent_state \<times> string option option" where
  "serve_drain X creds srv [] st = (st, None)"
| "serve_drain X creds srv (Incoming certs c # es) st =
     serve_drain X creds srv es (fst (tls_call X creds srv certs c st))"
| "serve_drain X creds srv (GracefulStopped # es) st = (st, Some None)"
| "serve_drain X creds srv (CtxDone # es) st = serve_drain X creds srv es st"
| "serve_drain X creds srv (ServeErr e # es) st = serve_drain X creds srv es st"

fun serve_loop ::
  "x509_env \<Rightarrow> tls_config \<Rightarrow> Server \<Rightarrow> serve_event list \<Rightarrow> agent_state \<Rightarrow> agent_state \<times> string option option" where
  "serve_loop X creds srv [] st = (st, None)"
| "serve_loop X creds srv (Incoming certs c # es) st =
     serve_loop X creds srv es (fst (tls_call X creds srv certs c st))"
| "serve_loop X creds srv (CtxDone # es) st = serve_drain X creds srv es st"
| "serve_loop X creds srv (GracefulStopped # es) st = serve_loop X creds srv es st"
| "serve_loop X creds srv (ServeErr e # es) st = (st, Some e)"

definition serveAgent ::
  "agentd \<Rightarrow> (string \<Rightarrow> string option) \<Rightarrow> string \<Rightarrow> string \<Rightarrow> string \<Rightarrow> serve_event list \<Rightarrow>
   os \<Rightarrow> os \<times> agentd_error option option" where
  "serveAgent A net_Listen dir listen version es s =
     (case serve_load A dir version s of
        (s, Inl err) \<Rightarrow> (s, Some (Some err))
      | (s, Inr (creds, agent)) \<Rightarrow>
          (case net_Listen listen of
             Some e \<Rightarrow> (s, Some (Some (AdListen e)))
           | None \<Rightarrow>
               (case serve_loop (ad_x509 A) creds agent es \<lparr>as_os = s, as_grants = NewGrants\<rparr> of
                  (st, r) \<Rightarrow> (as_os st, map_option (map_option AdServe) r))))"

section \<open>Lemmas\<close>

lemma writeFiles_Inr:
  assumes "writeFiles F files s = (s', Inr u)" "distinct (map fst files)"
  shows "file_data s' p = (case map_of files p of Some d \<Rightarrow> Some d | None \<Rightarrow> file_data s p)"
  using assms
proof (induction files arbitrary: s)
  case (Cons f files)
  obtain q d where f: "f = (q, d)" by fastforce
  with Cons.prems obtain s1 where s1: "os_WriteFile F q d perm_0600 s = (s1, None)" "writeFiles F files s1 = (s', Inr u)"
    by (auto split: prod.splits option.splits)
  then have "s1 = put_file q d perm_0600 s" by (simp add: os_WriteFile_ok)
  moreover have "map_of files q = None" using Cons.prems(2) f by (simp add: map_of_eq_None_iff)
  ultimately show ?case using Cons.IH [OF s1(2)] Cons.prems(2) f by (auto split: option.splits)
qed simp

lemma writeFiles_frame:
  "writeFiles F files s = (s', r) \<Longrightarrow> p \<notin> fst ` set files \<Longrightarrow> os_files s' p = os_files s p"
proof (induction files arbitrary: s)
  case (Cons f files)
  obtain q d where f: "f = (q, d)" by fastforce
  obtain s1 e where s1: "os_WriteFile F q d perm_0600 s = (s1, e)" by fastforce
  with os_WriteFile_other [OF s1] Cons f show ?case by (auto split: option.splits)
qed simp

lemma map_order_set [simp]: "set (map_order sw files) = set files"
  by (simp add: map_order_def)

lemma map_order_map_of [simp]: "distinct (map fst files) \<Longrightarrow> map_of (map_order sw files) = map_of files"
  by (auto simp: map_order_def map_of_rev_distinct)

lemma map_order_distinct [simp]: "distinct (map fst (map_order sw files)) \<longleftrightarrow> distinct (map fst files)"
  by (simp add: map_order_def rev_map [symmetric])

lemma read_or_no_faults [simp]:
  "file_data s p = Some d \<Longrightarrow> read_or f no_faults p s = (s, Inr d)"
  by (simp add: read_or_def)

text \<open>The key pair of the server, from whichever CA signed it.\<close>

lemma mintServerCert_pair:
  assumes "x509_laws (ad_x509 A)" "mintServerCert A ca = Inr (sc, sk)"
  shows "\<exists>cert serial. X509KeyPair (ad_x509 A) sc sk = Inr cert \<and> ParseCert (ad_x509 A) sc = Inr (tls_leaf cert) \<and>
    matches_template (leaf_template serial ''rexec-agentd'' (server_request A []) (ad_now A 1))
      (x_Public (ad_x509 A) (tls_key cert)) (tls_leaf cert) \<and>
    (ca_wf (ad_x509 A) ca \<longrightarrow> x_CheckSignatureFrom (ad_x509 A) (ca_cert ca) (tls_leaf cert))"
proof -
  from assms(2) obtain csr where csr: "NewCSR (ad_x509 A) (ad_rnd A 2) ''rexec-agentd'' = Inr (csr, sk)"
      and sign: "Sign (ad_x509 A) (ad_rnd A 3) (ad_now A 1) ca (server_request A csr) = Inr sc"
    by (auto simp: mintServerCert_def)
  have "NewCSR (ad_x509 A) (ad_rnd A 2) ''rexec-agentd'' = Inr (CSRPEM (server_request A csr), sk)"
    using csr by (simp add: server_request_def)
  from signed_pair [OF assms(1) this sign] obtain cert serial where
    "X509KeyPair (ad_x509 A) sc sk = Inr cert" "ParseCert (ad_x509 A) sc = Inr (tls_leaf cert)"
    "matches_template (leaf_template serial ''rexec-agentd'' (server_request A csr) (ad_now A 1))
      (x_Public (ad_x509 A) (tls_key cert)) (tls_leaf cert)"
    "ca_wf (ad_x509 A) ca \<longrightarrow> x_CheckSignatureFrom (ad_x509 A) (ca_cert ca) (tls_leaf cert)"
    by blast
  moreover have "leaf_template serial cn (server_request A csr) now = leaf_template serial cn (server_request A []) now" for serial cn now
    by (simp add: leaf_template_def server_request_def)
  ultimately show ?thesis by auto
qed

text \<open>What a successful \<^verbatim>\<open>ca init\<close> has written.\<close>

lemma ca_init_Inr:
  assumes "ca_init A force s = (s', Inr (aid, fp))" "uuid_text (ad_uuid A)" "d = \<lparr>dl_dir = dataDirOf A\<rparr>"
  obtains ca caKey sc sk where
    "NewCA (ad_x509 A) (ad_rnd A 0) (ad_rnd A 1) (ad_now A 0) (''rexec-agentd CA '' @ aid) DefaultCAValidity = Inr ca"
    "KeyPEM (ad_x509 A) ca = Inr caKey" "mintServerCert A ca = Inr (sc, sk)"
    "FingerprintPEM (ad_x509 A) sc = Inr fp"
    "file_data s' (dl_caCert d) = Some (CertPEM (ad_x509 A) ca)" "file_data s' (dl_caKey d) = Some caKey"
    "file_data s' (dl_serverCert d) = Some sc" "file_data s' (dl_serverKey d) = Some sk"
    "AgentID no_faults uuid (dl_agentID d) s' = (s', Inr aid)"
    "os_files s' (dl_policy d) = os_files s (dl_policy d)" "os_files s' (dl_tokens d) = os_files s (dl_tokens d)"
proof -
  have dist: "distinct [dl_caCert d, dl_caKey d, dl_serverCert d, dl_serverKey d, dl_agentID d, dl_tokens d, dl_policy d]"
    by (rule layout_distinct)
  from assms(1) obtain s1 s2 s3 ca caKey sc sk where w:
      "os_MkdirAll (ad_faults A) (dl_dir d) s = (s1, None)"
      "AgentID (ad_faults A) (ad_uuid A) (dl_agentID d) s1 = (s2, Inr aid)"
      "NewCA (ad_x509 A) (ad_rnd A 0) (ad_rnd A 1) (ad_now A 0) (''rexec-agentd CA '' @ aid) DefaultCAValidity = Inr ca"
      "KeyPEM (ad_x509 A) ca = Inr caKey"
      "writeFiles (ad_faults A) (map_order (ad_swap A 0)
        [(dl_caCert d, CertPEM (ad_x509 A) ca), (dl_caKey d, caKey)]) s2 = (s3, Inr ())"
      "mintServerCert A ca = Inr (sc, sk)"
      "writeFiles (ad_faults A) (map_order (ad_swap A 1) [(dl_serverCert d, sc), (dl_serverKey d, sk)]) s3 = (s', Inr ())"
      "FingerprintPEM (ad_x509 A) sc = Inr fp"
    by (auto simp: ca_init_def Let_def assms(3) map_prod_def split: if_splits prod.splits)
  have d3: "file_data s3 p = (case [dl_caCert d \<mapsto> CertPEM (ad_x509 A) ca, dl_caKey d \<mapsto> caKey] p of
      Some x \<Rightarrow> Some x | None \<Rightarrow> file_data s2 p)" for p
    using writeFiles_Inr [OF w(5)] dist by auto
  have d4: "file_data s' p = (case [dl_serverCert d \<mapsto> sc, dl_serverKey d \<mapsto> sk] p of
      Some x \<Rightarrow> Some x | None \<Rightarrow> file_data s3 p)" for p
    using writeFiles_Inr [OF w(7)] dist by auto
  obtain x where x: "file_data s2 (dl_agentID d) = Some x" "strings_TrimSpace x = aid" "aid \<noteq> []"
    using AgentID_file [OF assms(2) w(2)] by blast
  then have "file_data s' (dl_agentID d) = Some x" using d3 d4 dist by auto
  then have id: "AgentID no_faults uuid (dl_agentID d) s' = (s', Inr aid)"
    using AgentID_read x by simp
  have frame: "os_files s' p = os_files s p" if "p \<notin> set [dl_caCert d, dl_caKey d, dl_serverCert d, dl_serverKey d, dl_agentID d]" for p
    using that os_MkdirAll_files [OF w(1)] AgentID_frame [OF w(2)] writeFiles_frame [OF w(5)] writeFiles_frame [OF w(7)]
    by simp
  show thesis
    by (rule that [OF w(3,4,6,8) _ _ _ _ id]) (use d3 d4 dist frame in auto)
qed

text \<open>The daemon on a directory that \<^verbatim>\<open>ca init\<close> has filled.\<close>

lemma init_then_load:
  assumes "x509_laws (ad_x509 A)" "uuid_text (ad_uuid A)" "ca_init A force s = (s', Inr (aid, fp))"
    and "ad_x509 B = ad_x509 A" "ad_faults B = no_faults" "dir = dataDirOf A"
    and "policy_Load no_faults (ad_yaml B) (dl_policy \<lparr>dl_dir = dir\<rparr>) s = Inr pol"
  shows "\<exists>creds srv. serve_load B dir version s' = (s', Inr (creds, srv)) \<and>
    srv_agentID srv = aid \<and> srv_fingerprint srv = fp \<and> srv_policy srv = pol \<and>
    srv_tokens srv = NewFileStore (dl_tokens \<lparr>dl_dir = dir\<rparr>) \<and>
    ca_wf (ad_x509 A) (svc_ca (srv_enroller srv)) \<and> svc_agentID (srv_enroller srv) = aid \<and>
    NewCA (ad_x509 A) (ad_rnd A 0) (ad_rnd A 1) (ad_now A 0) (''rexec-agentd CA '' @ aid) DefaultCAValidity =
      Inr (svc_ca (srv_enroller srv)) \<and>
    FingerprintPEM (ad_x509 A) (serverCertPEM (srv_enroller srv)) = Inr fp \<and>
    leafValidity (srv_enroller srv) = DefaultLeafValidity \<and>
    (\<exists>sk cert. ServerCreds (ad_x509 A) (CertPEM (ad_x509 A) (svc_ca (srv_enroller srv)))
      (serverCertPEM (srv_enroller srv)) sk = Inr creds \<and>
      Certificates creds = [cert] \<and> ParseCert (ad_x509 A) (serverCertPEM (srv_enroller srv)) = Inr (tls_leaf cert) \<and>
      x_CheckSignatureFrom (ad_x509 A) (ca_cert (svc_ca (srv_enroller srv))) (tls_leaf cert) \<and>
      PublicKey (tls_leaf cert) = x_Public (ad_x509 A) (tls_key cert))"
proof -
  let ?d = "\<lparr>dl_dir = dir\<rparr>" and ?X = "ad_x509 A"
  obtain ca caKey sc sk where c:
    "NewCA ?X (ad_rnd A 0) (ad_rnd A 1) (ad_now A 0) (''rexec-agentd CA '' @ aid) DefaultCAValidity = Inr ca"
    "KeyPEM ?X ca = Inr caKey" "mintServerCert A ca = Inr (sc, sk)" "FingerprintPEM ?X sc = Inr fp"
    "file_data s' (dl_caCert ?d) = Some (CertPEM ?X ca)" "file_data s' (dl_caKey ?d) = Some caKey"
    "file_data s' (dl_serverCert ?d) = Some sc" "file_data s' (dl_serverKey ?d) = Some sk"
    "AgentID no_faults (ad_uuid B) (dl_agentID ?d) s' = (s', Inr aid)"
    "os_files s' (dl_policy ?d) = os_files s (dl_policy ?d)"
    using ca_init_Inr [OF assms(3,2), of ?d "ad_uuid B"] assms(6) by metis
  have wf: "ca_wf ?X ca" using NewCA_wf [OF assms(1) c(1)] .
  then have load: "LoadCA ?X (CertPEM ?X ca) caKey = Inr ca"
    using LoadCA_saved [OF assms(1) _ c(2)] by (simp add: ca_wf_def)
  have pol: "policy_Load no_faults (ad_yaml B) (dl_policy ?d) s' = Inr pol"
    using assms(7) c(10) by (simp add: policy_Load_def os_ReadFile_def)
  obtain cert where cert: "X509KeyPair ?X sc sk = Inr cert" "ParseCert ?X sc = Inr (tls_leaf cert)"
    "x_CheckSignatureFrom ?X (ca_cert ca) (tls_leaf cert)"
    using mintServerCert_pair [OF assms(1) c(3)] wf by blast
  then obtain creds where creds: "ServerCreds ?X (CertPEM ?X ca) sc sk = Inr creds" "Certificates creds = [cert]"
    using AppendCerts_CertPEM [OF assms(1), of ca] wf by (auto simp: ServerCreds_def ca_wf_def)
  show ?thesis
    using c load pol creds wf cert X509KeyPair_Inr(2) [OF cert(1)] assms(4,5)
    by (auto simp: serve_load_def Let_def NewService_def)
qed

text \<open>Only the files of the layout change.\<close>

lemma ca_init_frame:
  assumes "ca_init A force s = (s', r)" "d = \<lparr>dl_dir = dataDirOf A\<rparr>"
    and "p \<notin> {dl_caCert d, dl_caKey d, dl_serverCert d, dl_serverKey d, dl_agentID d}"
  shows "os_files s' p = os_files s p"
proof -
  let ?P = "\<lambda>t. os_files t p = os_files s p"
  have mk: "?P (fst (os_MkdirAll (ad_faults A) (dl_dir d) s))"
    using os_MkdirAll_files by (metis prod.collapse)
  have wf: "?P (fst (writeFiles (ad_faults A) (map_order sw [(q1, d1), (q2, d2)]) t))"
    if "?P t" "q1 \<noteq> p" "q2 \<noteq> p" for sw q1 d1 q2 d2 t
    using that writeFiles_frame [of "ad_faults A" "map_order sw [(q1, d1), (q2, d2)]" t] by (metis (no_types, lifting)
        empty_iff fst_conv image_empty image_insert insert_iff list.set(1) list.set(2) map_order_set prod.collapse)
  have id: "?P t'" if "?P t" "AgentID (ad_faults A) (ad_uuid A) (dl_agentID d) t = (t', r')" for t t' r'
    using that(1) AgentID_frame [OF that(2)] assms(3) by simp
  have st: "?P (fst (and_then_st r k))" if "?P (fst r)" "\<And>t x. ?P t \<Longrightarrow> ?P (fst (k x t))"
    for r :: "os \<times> (agentd_error + 'x)" and k :: "'x \<Rightarrow> os \<Rightarrow> os \<times> (agentd_error + 'y)"
    using that by (cases "(r, k)" rule: and_then_st.cases) auto
  have "?P (fst (ca_init A force s))"
    unfolding ca_init_def Let_def assms(2) [symmetric]
    using assms(3) mk
    by (auto intro!: st wf intro: id simp: map_prod_def split: prod.split)
  with assms(1) show ?thesis by simp
qed

section \<open>Properties\<close>

text \<open>
  C27: after \<^verbatim>\<open>ca init\<close>, \<^verbatim>\<open>serve\<close> works: when the command has reported success (under whatever faults,
  in either order of writing its files, with or without \<^verbatim>\<open>--force\<close>), the daemon on that directory
  loads, and what it serves with is what was minted: the CA it signs with is exactly the new one
  that \<^verbatim>\<open>NewCA\<close> made from the command's entropy and clock under the reported identifier; that CA is
  the whole pool client certificates are verified against; the one certificate it presents is the
  stored server certificate, which verifies under that CA, whose fingerprint is the reported one,
  and whose private key it holds; with the policy of the directory and the token file there.
\<close>

theorem ca_init_then_serve:
  assumes "x509_laws (ad_x509 A)" "uuid_text (ad_uuid A)" "ca_init A force s = (s', Inr (aid, fp))"
    and "ad_x509 B = ad_x509 A" "ad_faults B = no_faults" "dir = dataDirOf A"
    and "policy_Load no_faults (ad_yaml B) (dl_policy \<lparr>dl_dir = dir\<rparr>) s = Inr pol"
  shows "\<exists>creds srv ca cert. serve_load B dir version s' = (s', Inr (creds, srv)) \<and>
    srv_agentID srv = aid \<and> srv_fingerprint srv = fp \<and> srv_policy srv = pol \<and>
    srv_tokens srv = NewFileStore (dl_tokens \<lparr>dl_dir = dir\<rparr>) \<and>
    svc_ca (srv_enroller srv) = ca \<and> svc_agentID (srv_enroller srv) = aid \<and>
    leafValidity (srv_enroller srv) = DefaultLeafValidity \<and>
    NewCA (ad_x509 A) (ad_rnd A 0) (ad_rnd A 1) (ad_now A 0) (''rexec-agentd CA '' @ aid) DefaultCAValidity = Inr ca \<and>
    ca_wf (ad_x509 A) ca \<and> ClientCAs creds = Some [ca_cert ca] \<and>
    ClientAuth creds = VerifyClientCertIfGiven \<and> MinVersion creds = VersionTLS13 \<and>
    Certificates creds = [cert] \<and>
    ParseCert (ad_x509 A) (serverCertPEM (srv_enroller srv)) = Inr (tls_leaf cert) \<and>
    Fingerprint (ad_x509 A) (tls_leaf cert) = fp \<and>
    x_CheckSignatureFrom (ad_x509 A) (ca_cert ca) (tls_leaf cert) \<and>
    PublicKey (tls_leaf cert) = x_Public (ad_x509 A) (tls_key cert)"
proof -
  from init_then_load [OF assms, of version] obtain creds srv sk cert where l:
    "serve_load B dir version s' = (s', Inr (creds, srv))" "srv_agentID srv = aid" "srv_fingerprint srv = fp"
    "srv_policy srv = pol" "srv_tokens srv = NewFileStore (dl_tokens \<lparr>dl_dir = dir\<rparr>)"
    "ca_wf (ad_x509 A) (svc_ca (srv_enroller srv))"
    "FingerprintPEM (ad_x509 A) (serverCertPEM (srv_enroller srv)) = Inr fp"
    "ServerCreds (ad_x509 A) (CertPEM (ad_x509 A) (svc_ca (srv_enroller srv)))
      (serverCertPEM (srv_enroller srv)) sk = Inr creds"
    "NewCA (ad_x509 A) (ad_rnd A 0) (ad_rnd A 1) (ad_now A 0) (''rexec-agentd CA '' @ aid) DefaultCAValidity =
      Inr (svc_ca (srv_enroller srv))" "svc_agentID (srv_enroller srv) = aid"
    "leafValidity (srv_enroller srv) = DefaultLeafValidity"
    "Certificates creds = [cert]" "ParseCert (ad_x509 A) (serverCertPEM (srv_enroller srv)) = Inr (tls_leaf cert)"
    "x_CheckSignatureFrom (ad_x509 A) (ca_cert (svc_ca (srv_enroller srv))) (tls_leaf cert)"
    "PublicKey (tls_leaf cert) = x_Public (ad_x509 A) (tls_key cert)"
    by blast
  have "ClientCAs creds = Some [ca_cert (svc_ca (srv_enroller srv))]"
    using ServerCreds_Inr [OF l(8)] pem_pool_CertPEM [OF assms(1) l(6)] by simp
  moreover have "Fingerprint (ad_x509 A) (tls_leaf cert) = fp"
    using l(7,13) by (simp add: FingerprintPEM_def)
  ultimately show ?thesis using l ServerCreds_Inr [OF l(8)] by blast
qed

text \<open>
  C28: the guard of \<^verbatim>\<open>ca init\<close>: without \<^verbatim>\<open>--force\<close> and with a CA key that \<^verbatim>\<open>Stat\<close> can see, the command
  changes nothing and names the key; in every other case, and so also when the key is there but
  \<^verbatim>\<open>Stat\<close> fails, it does what it does with \<^verbatim>\<open>--force\<close>. It never touches a file outside the five it
  owns, and in particular neither the tokens nor the policy.
\<close>

theorem ca_init_guard:
  "ca_init A force s =
     (if os_files s (dl_caKey \<lparr>dl_dir = dataDirOf A\<rparr>) \<noteq> None \<and>
         fp_stat (ad_faults A) (dl_caKey \<lparr>dl_dir = dataDirOf A\<rparr>) = None \<and> \<not> force
      then (s, Inl (AdCAExists (dl_caKey \<lparr>dl_dir = dataDirOf A\<rparr>))) else ca_init A True s) \<and>
   {p. os_files (fst (ca_init A force s)) p \<noteq> os_files s p} \<subseteq>
     {f \<lparr>dl_dir = dataDirOf A\<rparr> | f. f \<in> {dl_caCert, dl_caKey, dl_serverCert, dl_serverKey, dl_agentID}}"
proof
  have "os_Stat (ad_faults A) p s = None \<longleftrightarrow> os_files s p \<noteq> None \<and> fp_stat (ad_faults A) p = None" for p
    by (auto simp: os_Stat_def split: option.splits)
  then show "ca_init A force s =
     (if os_files s (dl_caKey \<lparr>dl_dir = dataDirOf A\<rparr>) \<noteq> None \<and>
         fp_stat (ad_faults A) (dl_caKey \<lparr>dl_dir = dataDirOf A\<rparr>) = None \<and> \<not> force
      then (s, Inl (AdCAExists (dl_caKey \<lparr>dl_dir = dataDirOf A\<rparr>))) else ca_init A True s)"
    by (simp add: ca_init_def Let_def)
  show "{p. os_files (fst (ca_init A force s)) p \<noteq> os_files s p} \<subseteq>
     {f \<lparr>dl_dir = dataDirOf A\<rparr> | f. f \<in> {dl_caCert, dl_caKey, dl_serverCert, dl_serverKey, dl_agentID}}"
    using ca_init_frame [OF surjective_pairing refl, where A = A and force = force and s = s] by auto
qed

section \<open>The properties at concrete inputs\<close>

text \<open>An agent's machine where nothing fails, with the concrete algorithms.\<close>

definition demo_agentd :: agentd where
  "demo_agentd = \<lparr>ad_data_dir = ''/d'', ad_listen = '''', ad_UserConfigDir = None, ad_hostname = ''host'',
     ad_faults = no_faults, ad_x509 = plain_x509, ad_json = plain_json, ad_yaml = (\<lambda>_. Inl ''yaml: invalid''),
     ad_now = (\<lambda>_. 100), ad_rnd = (\<lambda>_. demo_rnd), ad_uuid = sample_uuid, ad_swap = (\<lambda>_. True)\<rparr>"

lemma demo_agentd_simps [simp]:
  "dataDirOf demo_agentd = ''/d''" "ad_faults demo_agentd = no_faults" "ad_x509 demo_agentd = plain_x509"
  "ad_json demo_agentd = plain_json" "ad_rnd demo_agentd i = demo_rnd" "ad_now demo_agentd i = 100"
  "ad_uuid demo_agentd = sample_uuid" "ad_yaml demo_agentd d = Inl ''yaml: invalid''"
  by (simp_all add: demo_agentd_def dataDirOf_def)

lemma writeFiles_ok:
  "list_all (\<lambda>(p, d). dir_exists s p) files \<Longrightarrow> \<exists>s'. writeFiles no_faults files s = (s', Inr ()) \<and> os_dirs s' = os_dirs s"
proof (induction files arbitrary: s)
  case (Cons f files)
  obtain p d where f: "f = (p, d)" by fastforce
  with Cons.prems have "os_WriteFile no_faults p d perm_0600 s = (put_file p d perm_0600 s, None)"
    by (simp add: os_WriteFile_ok)
  moreover have "list_all (\<lambda>(q, d'). dir_exists (put_file p d perm_0600 s) q) files"
    using Cons.prems by (simp add: list_all_iff)
  ultimately show ?case using Cons.IH [of "put_file p d perm_0600 s"] f by auto
qed simp

lemma demo_mint:
  obtains ca caKey sc sk fp where
    "NewCA plain_x509 demo_rnd demo_rnd 100 (''rexec-agentd CA '' @ sample_uuid) DefaultCAValidity = Inr ca"
    "KeyPEM plain_x509 ca = Inr caKey" "mintServerCert demo_agentd ca = Inr (sc, sk)"
    "FingerprintPEM plain_x509 sc = Inr fp"
proof -
  obtain ca where ca: "NewCA plain_x509 demo_rnd demo_rnd 100 (''rexec-agentd CA '' @ sample_uuid) DefaultCAValidity = Inr ca"
    using plain_NewCA by blast
  obtain k where k: "KeyPEM plain_x509 ca = Inr k" using plain_KeyPEM by blast
  obtain csr sk where csr: "NewCSR plain_x509 demo_rnd ''rexec-agentd'' = Inr (csr, sk)" using plain_NewCSR by blast
  then have "NewCSR plain_x509 demo_rnd ''rexec-agentd'' = Inr (CSRPEM (server_request demo_agentd csr), sk)"
    by (simp add: server_request_def)
  from plain_Sign [OF this] obtain sc where sc: "Sign plain_x509 demo_rnd 100 ca (server_request demo_agentd csr) = Inr sc"
    by blast
  then have mint: "mintServerCert demo_agentd ca = Inr (sc, sk)" using csr by (simp add: mintServerCert_def)
  obtain c where "ParseCert plain_x509 sc = Inr c" using Sign_Inr [OF plain_x509_laws sc] by blast
  then have "FingerprintPEM plain_x509 sc = Inr (Fingerprint plain_x509 c)" by (simp add: FingerprintPEM_def)
  with ca k mint show thesis by (rule that)
qed

lemma demo_init:
  obtains s' fp where "ca_init demo_agentd False empty_os = (s', Inr (sample_uuid, fp))"
proof (rule demo_mint)
  fix ca caKey sc sk fp
  assume m: "NewCA plain_x509 demo_rnd demo_rnd 100 (''rexec-agentd CA '' @ sample_uuid) DefaultCAValidity = Inr ca"
    "KeyPEM plain_x509 ca = Inr caKey" "mintServerCert demo_agentd ca = Inr (sc, sk)"
    "FingerprintPEM plain_x509 sc = Inr fp"
  let ?d = "\<lparr>dl_dir = ''/d''\<rparr>"
  have clean: "filepath_Clean ''/d'' = ''/d''" by code_simp
  obtain s1 where s1: "os_MkdirAll no_faults ''/d'' empty_os = (s1, None)" "''/d'' \<in> os_dirs s1" "os_files s1 = Map.empty"
    using clean by (simp add: os_MkdirAll_def empty_os_def)
  have dirs: "dir_exists s (dl_caCert ?d)" "dir_exists s (dl_caKey ?d)" "dir_exists s (dl_serverCert ?d)"
      "dir_exists s (dl_serverKey ?d)" "dir_exists s (dl_agentID ?d)" if "''/d'' \<in> os_dirs s" for s
    using that clean by (simp_all add: dir_exists_def layout_defs filepath_Dir_file)
  obtain s2 where s2: "AgentID no_faults sample_uuid (dl_agentID ?d) s1 = (s2, Inr sample_uuid)" "''/d'' \<in> os_dirs s2"
    using s1 dirs(5) by (auto simp: AgentID_def identity_generate_def file_data_def is_ErrNotExist_def
        os_MkdirAll_def os_WriteFile_def)
  obtain s3 where s3: "writeFiles no_faults (map_order (ad_swap demo_agentd 0)
      [(dl_caCert ?d, CertPEM plain_x509 ca), (dl_caKey ?d, caKey)]) s2 = (s3, Inr ())" "''/d'' \<in> os_dirs s3"
    using writeFiles_ok [of s2 "map_order (ad_swap demo_agentd 0)
      [(dl_caCert ?d, CertPEM plain_x509 ca), (dl_caKey ?d, caKey)]"] s2(2) dirs by (auto simp: list_all_iff)
  obtain s4 where s4: "writeFiles no_faults (map_order (ad_swap demo_agentd 1)
      [(dl_serverCert ?d, sc), (dl_serverKey ?d, sk)]) s3 = (s4, Inr ())"
    using writeFiles_ok [of s3 "map_order (ad_swap demo_agentd 1)
      [(dl_serverCert ?d, sc), (dl_serverKey ?d, sk)]"] s3(2) dirs by (auto simp: list_all_iff)
  have "os_Stat no_faults (dl_caKey ?d) empty_os \<noteq> None" by (simp add: os_Stat_def empty_os_def)
  then have "ca_init demo_agentd False empty_os = (s4, Inr (sample_uuid, fp))"
    using s1 s2 s3 s4 m by (simp add: ca_init_def Let_def)
  then show thesis by (rule that)
qed

lemma sample_uuid_text: "uuid_text sample_uuid"
  by (simp add: uuid_text_def sample_uuid_def)

theorem ca_init_then_serve_witness:
  "\<exists>s fp creds srv. ca_init demo_agentd False empty_os = (s, Inr (sample_uuid, fp)) \<and>
     serve_load demo_agentd ''/d'' ''dev'' s = (s, Inr (creds, srv)) \<and> srv_fingerprint srv = fp \<and>
     srv_policy srv = policy_Default"
proof (rule demo_init)
  fix s fp
  assume s: "ca_init demo_agentd False empty_os = (s, Inr (sample_uuid, fp))"
  have "policy_Load no_faults (ad_yaml demo_agentd) (dl_policy \<lparr>dl_dir = ''/d''\<rparr>) empty_os = Inr policy_Default"
    by (simp add: policy_Load_def is_ErrNotExist_def file_data_def empty_os_def)
  with ca_init_then_serve [of demo_agentd False empty_os s sample_uuid fp demo_agentd "''/d''" policy_Default "''dev''"]
    s sample_uuid_text plain_x509_laws
  show ?thesis by auto
qed

end
