(* ===== verification/Controller.thy ===== *)
theory Controller
  imports Transport "HOL-Library.AList"
begin

text \<open>
  \<^verbatim>\<open>cmd/rexec/controllercmds.go\<close>: the commands of the controller. A command reads its flags and
  the credential file, opens a connection and drives the calls of the Agent service on it; the
  connection is a record of the service's methods over the state of the far end, so that the same
  commands can be run against an arbitrary peer or against the modelled agent. What a command
  prints is part of its result.
\<close>

section \<open>Environment flags\<close>

datatype cli_error =
    CliInvalidEnv string | CliConfig config_error | CliNoEndpoint string | CliTransport transport_error
  | CliEndpointRequired | CliStatus status | CliExit int | CliFingerprintMismatch string string
  | CliNeedsApproval ApprovalRequest | CliStillAsks

text \<open>
  \<^verbatim>\<open>parseEnv\<close>: nil for no pairs, otherwise a map that a later pair overwrites. A Go map whose
  pairs are sent on is the list of its pairs, without repeated keys.
\<close>

type_synonym env_map = "(string \<times> string) list"

fun parse_pairs :: "string list \<Rightarrow> env_map \<Rightarrow> cli_error + env_map" where
  "parse_pairs [] env = Inr env"
| "parse_pairs (pair # kv) env =
     (case strings_Cut pair (CHR ''='') of (k, v, ok) \<Rightarrow>
        if \<not> ok \<or> k = [] then Inl (CliInvalidEnv pair) else parse_pairs kv (AList.update k v env))"

definition parseEnv :: "string list \<Rightarrow> cli_error + env_map" where
  "parseEnv kv = (if length kv = 0 then Inr [] else parse_pairs kv [])"

section \<open>Streams\<close>

text \<open>What a client receives: messages, and then the end of the stream or a status.\<close>

type_synonym incoming = "ExecChunk list \<times> status option"

text \<open>
  \<^verbatim>\<open>consumeStream\<close>: the pieces printed (\<open>True\<close> for stderr), the exit code, a pending approval, and
  the error. The loop takes one message per round, so it follows the received messages.
\<close>

fun consume_loop ::
  "ExecChunk list \<Rightarrow> status option \<Rightarrow> int \<Rightarrow> (bool \<times> bytes) list \<Rightarrow>
   (bool \<times> bytes) list \<times> int \<times> ApprovalRequest option \<times> status option" where
  "consume_loop [] None exit out = (out, exit, None, None)"
| "consume_loop [] (Some err) exit out = (out, exit, None, Some err)"
| "consume_loop (ExecChunk_Stdout b # ms) e exit out = consume_loop ms e exit (out @ [(False, b)])"
| "consume_loop (ExecChunk_Stderr b # ms) e exit out = consume_loop ms e exit (out @ [(True, b)])"
| "consume_loop (ExecChunk_ExitCode c # ms) e exit out = consume_loop ms e (from_int32 c) out"
| "consume_loop (ExecChunk_NeedsApproval a # ms) e exit out = (out, exit, Some a, None)"
| "consume_loop (NoMsg # ms) e exit out = consume_loop ms e exit out"

definition consumeStream ::
  "incoming \<Rightarrow> (bool \<times> bytes) list \<times> int \<times> ApprovalRequest option \<times> status option" where
  "consumeStream inc = consume_loop (fst inc) (snd inc) 0 []"

section \<open>Connections\<close>

record 's agent_client =
  cl_Identity :: "'s \<Rightarrow> 's \<times> (status + IdentityResponse)"
  cl_Info :: "'s \<Rightarrow> 's \<times> (status + InfoResponse)"
  cl_Run :: "ExecRequest \<Rightarrow> 's \<Rightarrow> 's \<times> (status + incoming)"
  cl_Deploy :: "ExecRequest \<Rightarrow> 's \<Rightarrow> 's \<times> (status + incoming)"

text \<open>The flags of a command and what it finds on the controller's machine.\<close>

record cli =
  cli_credential :: string
  cli_endpoint :: string
  cli_home :: "string option"
  cli_hostname :: string
  cli_os :: os
  cli_faults :: faults
  cli_yaml :: yaml_codec
  cli_x509 :: x509_env
  cli_rnd :: entropy

definition defaultControllerConfig :: "cli \<Rightarrow> string" where
  "defaultControllerConfig C =
     (case cli_home C of
        None \<Rightarrow> filepath_Join [''.rexec'', ''config.yaml'']
      | Some home \<Rightarrow>
          if home = [] then filepath_Join [''.rexec'', ''config.yaml'']
          else filepath_Join [home, ''.rexec'', ''config.yaml''])"

definition credentialFlag :: "cli \<Rightarrow> string" where
  "credentialFlag C = (if cli_credential C = [] then defaultControllerConfig C else cli_credential C)"

definition endpointFlag :: "cli \<Rightarrow> string" where
  "endpointFlag C = cli_endpoint C"

definition dialAgent ::
  "cli \<Rightarrow> (string \<Rightarrow> tls_config \<Rightarrow> string + 'conn) \<Rightarrow> cli_error + 'conn" where
  "dialAgent C newClient =
     and_then (wrap_error CliConfig (Config_Load (cli_faults C) (cli_yaml C) (credentialFlag C) (cli_os C))) (\<lambda>cfg.
       let endpoint = endpointFlag C in
       if endpoint = [] then
         (case cfg_Endpoints cfg of
            [] \<Rightarrow> Inl (CliNoEndpoint (credentialFlag C))
          | e # _ \<Rightarrow> wrap_error CliTransport (Dial (cli_x509 C) newClient cfg e))
       else wrap_error CliTransport (Dial (cli_x509 C) newClient cfg endpoint))"

section \<open>agent enroll, agent identity, agent info\<close>

text \<open>The state pairs the far end with the controller's own file system.\<close>

definition agent_enroll ::
  "cli \<Rightarrow> (string \<Rightarrow> tls_config \<Rightarrow> string + 's enroll_conn) \<Rightarrow> string \<Rightarrow> string \<Rightarrow>
   's \<times> os \<Rightarrow> ('s \<times> os) \<times> (cli_error + Config)" where
  "agent_enroll C newClient token commonName st =
     (case st of (s, fs) \<Rightarrow>
        (let endpoint = endpointFlag C in
         if endpoint = [] then ((s, fs), Inl CliEndpointRequired)
         else
           (let cn = (if commonName = [] then ''rexec@'' @ cli_hostname C else commonName) in
            (case transport_Enroll (cli_x509 C) (cli_rnd C) newClient None endpoint token cn s of
               (s', Inl err) \<Rightarrow> ((s', fs), Inl (CliTransport err))
             | (s', Inr cfg) \<Rightarrow>
                 (case Config_Save (cli_faults C) (cli_yaml C) cfg (credentialFlag C) fs of
                    (fs', Some err) \<Rightarrow> ((s', fs'), Inl (CliConfig err))
                  | (fs', None) \<Rightarrow> ((s', fs'), Inr cfg))))))"

definition agent_identity ::
  "cli \<Rightarrow> (string \<Rightarrow> tls_config \<Rightarrow> string + 's agent_client) \<Rightarrow> 's \<Rightarrow> 's \<times> (cli_error + IdentityResponse)" where
  "agent_identity C newClient s =
     (case wrap_error CliConfig (Config_Load (cli_faults C) (cli_yaml C) (credentialFlag C) (cli_os C)) of
        Inl err \<Rightarrow> (s, Inl err)
      | Inr cfg \<Rightarrow>
          (case dialAgent C newClient of
             Inl err \<Rightarrow> (s, Inl err)
           | Inr conn \<Rightarrow>
               (case cl_Identity conn s of
                  (s', Inl err) \<Rightarrow> (s', Inl (CliStatus err))
                | (s', Inr resp) \<Rightarrow>
                    (s', if cfg_Fingerprint cfg \<noteq> [] \<and> ir_Fingerprint resp \<noteq> cfg_Fingerprint cfg
                         then Inl (CliFingerprintMismatch (cfg_Fingerprint cfg) (ir_Fingerprint resp))
                         else Inr resp))))"

definition agent_info ::
  "cli \<Rightarrow> (string \<Rightarrow> tls_config \<Rightarrow> string + 's agent_client) \<Rightarrow> 's \<Rightarrow> 's \<times> (cli_error + InfoResponse)" where
  "agent_info C newClient s =
     (case dialAgent C newClient of
        Inl err \<Rightarrow> (s, Inl err)
      | Inr conn \<Rightarrow>
          (case cl_Info conn s of
             (s', Inl err) \<Rightarrow> (s', Inl (CliStatus err))
           | (s', Inr resp) \<Rightarrow> (s', Inr resp)))"

section \<open>exec run, exec deploy\<close>

text \<open>
  The request for approval that \<^verbatim>\<open>exec deploy\<close> prints is the argument of its error.
  The arguments of a command line, of which cobra guarantees at least one. A command returns the
  state of the far end, what it printed of the remote output, and its error.
\<close>

definition exec_run ::
  "cli \<Rightarrow> (string \<Rightarrow> tls_config \<Rightarrow> string + 's agent_client) \<Rightarrow> string list \<Rightarrow> string \<Rightarrow> string list \<Rightarrow>
   's \<Rightarrow> 's \<times> (bool \<times> bytes) list \<times> cli_error option" where
  "exec_run C newClient args workDir envKV s =
     (case parseEnv envKV of
        Inl err \<Rightarrow> (s, [], Some err)
      | Inr env \<Rightarrow>
          (case dialAgent C newClient of
             Inl err \<Rightarrow> (s, [], Some err)
           | Inr conn \<Rightarrow>
               (case cl_Run conn \<lparr>er_Command = hd args, er_Args = tl args, er_WorkingDir = workDir,
                   er_Env = env, er_ApprovalId = []\<rparr> s of
                  (s', Inl err) \<Rightarrow> (s', [], Some (CliStatus err))
                | (s', Inr stream) \<Rightarrow>
                    (case consumeStream stream of
                       (out, exitCode, _, Some err) \<Rightarrow> (s', out, Some (CliStatus err))
                     | (out, exitCode, _, None) \<Rightarrow>
                         (s', out, if exitCode \<noteq> 0 then Some (CliExit exitCode) else None)))))"

text \<open>The closure \<^verbatim>\<open>send\<close> of the deploy command.\<close>

definition deploy_send ::
  "'s agent_client \<Rightarrow> ExecRequest \<Rightarrow> string \<Rightarrow> 's \<Rightarrow>
   's \<times> (bool \<times> bytes) list \<times> int \<times> ApprovalRequest option \<times> status option" where
  "deploy_send conn req aid s =
     (case cl_Deploy conn (req\<lparr>er_ApprovalId := aid\<rparr>) s of
        (s', Inl sErr) \<Rightarrow> (s', [], 0, None, Some sErr)
      | (s', Inr stream) \<Rightarrow> (s', consumeStream stream))"

definition exec_deploy ::
  "cli \<Rightarrow> (string \<Rightarrow> tls_config \<Rightarrow> string + 's agent_client) \<Rightarrow> string list \<Rightarrow> string \<Rightarrow> string list \<Rightarrow>
   string \<Rightarrow> bool \<Rightarrow> 's \<Rightarrow> 's \<times> (bool \<times> bytes) list \<times> cli_error option" where
  "exec_deploy C newClient args workDir envKV approvalID autoYes s =
     (case parseEnv envKV of
        Inl err \<Rightarrow> (s, [], Some err)
      | Inr env \<Rightarrow>
          (case dialAgent C newClient of
             Inl err \<Rightarrow> (s, [], Some err)
           | Inr conn \<Rightarrow>
               (let req = \<lparr>er_Command = hd args, er_Args = tl args, er_WorkingDir = workDir,
                    er_Env = env, er_ApprovalId = []\<rparr> in
                (case deploy_send conn req approvalID s of
                   (s1, out, exitCode, approval, Some err) \<Rightarrow> (s1, out, Some (CliStatus err))
                 | (s1, out, exitCode, None, None) \<Rightarrow>
                     (s1, out, if exitCode \<noteq> 0 then Some (CliExit exitCode) else None)
                 | (s1, out, exitCode, Some approval, None) \<Rightarrow>
                     if \<not> autoYes then (s1, out, Some (CliNeedsApproval approval))
                     else
                       (case deploy_send conn req (ar_ApprovalId approval) s1 of
                          (s2, out2, exitCode2, approval2, Some err) \<Rightarrow> (s2, out @ out2, Some (CliStatus err))
                        | (s2, out2, exitCode2, Some approval2, None) \<Rightarrow> (s2, out @ out2, Some CliStillAsks)
                        | (s2, out2, exitCode2, None, None) \<Rightarrow>
                            (s2, out @ out2, if exitCode2 \<noteq> 0 then Some (CliExit exitCode2) else None))))))"

section \<open>The modelled agent as the far end\<close>

text \<open>The n-th call on the connection happens in the n-th world; the caller's TLS identity is fixed.\<close>

fun stream_of :: "answer \<Rightarrow> incoming" where
  "stream_of (AnsStream ms e) = (ms, e)"
| "stream_of _ = ([], None)"

definition agent_stream_call ::
  "Server \<Rightarrow> (nat \<Rightarrow> world) \<Rightarrow> grpc_context \<Rightarrow> rpc \<Rightarrow> agent_state \<times> nat \<Rightarrow>
   (agent_state \<times> nat) \<times> (status + incoming)" where
  "agent_stream_call srv worlds ctx r st =
     (case serve_call AgentTable srv
         \<lparr>call_world = worlds (snd st), call_stream = good_stream ctx, call_rpc = r\<rparr> (fst st) of
        (s', ans) \<Rightarrow> ((s', snd st + 1), Inr (stream_of ans)))"

definition agent_unary_call ::
  "Server \<Rightarrow> (nat \<Rightarrow> world) \<Rightarrow> grpc_context \<Rightarrow> rpc \<Rightarrow> (answer \<Rightarrow> status + 'r) \<Rightarrow> agent_state \<times> nat \<Rightarrow>
   (agent_state \<times> nat) \<times> (status + 'r)" where
  "agent_unary_call srv worlds ctx r f st =
     (case serve_call AgentTable srv
         \<lparr>call_world = worlds (snd st), call_stream = good_stream ctx, call_rpc = r\<rparr> (fst st) of
        (s', ans) \<Rightarrow> ((s', snd st + 1), f ans))"

definition agent_conn ::
  "Server \<Rightarrow> (nat \<Rightarrow> world) \<Rightarrow> grpc_context \<Rightarrow> (agent_state \<times> nat) agent_client" where
  "agent_conn srv worlds ctx = \<lparr>
     cl_Identity = agent_unary_call srv worlds ctx RpcIdentity
       (\<lambda>a. case a of AnsIdentity r \<Rightarrow> r | _ \<Rightarrow> Inl (Errorf Internal [] [])),
     cl_Info = agent_unary_call srv worlds ctx RpcInfo
       (\<lambda>a. case a of AnsInfo r \<Rightarrow> r | _ \<Rightarrow> Inl (Errorf Internal [] [])),
     cl_Run = (\<lambda>req. agent_stream_call srv worlds ctx (RpcRun req)),
     cl_Deploy = (\<lambda>req. agent_stream_call srv worlds ctx (RpcDeploy req))\<rparr>"

lemma agent_conn_simps [simp]:
  "cl_Run (agent_conn srv worlds ctx) req = agent_stream_call srv worlds ctx (RpcRun req)"
  "cl_Deploy (agent_conn srv worlds ctx) req = agent_stream_call srv worlds ctx (RpcDeploy req)"
  by (simp_all add: agent_conn_def)

section \<open>Lemmas\<close>

lemma consume_wire:
  "consume_loop (map wire ps @ ms) e exit out = consume_loop ms e exit (out @ ps)"
  by (induction ps arbitrary: out) (auto simp: wire_def)

text \<open>What the terminal shows of a run on a working stream.\<close>

lemma consume_run:
  assumes "ss_fail ss = (\<lambda>_. None)" "er_Command req \<noteq> []" "behaviour W req = Started pieces code None"
  shows "(case runStream W req ss nothing_sent of (out, e) \<Rightarrow> consumeStream (sent_msgs out, e)) =
    (pieces, from_int32 (to_int32 code), None, None)"
  using runStream_good [OF assms(1,2), of W] assms(3)
  by (simp add: consumeStream_def consume_wire)

text \<open>Reading any answer of \<^verbatim>\<open>runStream\<close> on a working stream.\<close>

definition run_verdict :: "world \<Rightarrow> ExecRequest \<Rightarrow> (bool \<times> bytes) list \<times> int \<times> status option" where
  "run_verdict W req =
     (case behaviour W req of
        StartError e \<Rightarrow> ([], 0, Some (Errorf Internal ''exec: %v'' [w_exec_text W (ExecRun (er_Command req) e)]))
      | Started pieces code ctxErr \<Rightarrow>
          if code = 0 \<and> ctxErr \<noteq> None then
            (pieces, 0, Some (Errorf Internal ''exec: %v'' [w_exec_text W (ExecRun (er_Command req) (the ctxErr))]))
          else (pieces, signed_take_bit 31 code, None))"

text \<open>What a command reports of it: the output it prints, and its error.\<close>

definition reported :: "world \<Rightarrow> ExecRequest \<Rightarrow> (bool \<times> bytes) list \<times> cli_error option" where
  "reported W req =
     (case run_verdict W req of
        (pieces, code, Some err) \<Rightarrow> (pieces, Some (CliStatus err))
      | (pieces, code, None) \<Rightarrow> (pieces, if code \<noteq> 0 then Some (CliExit code) else None))"

lemma from_to_int32: "from_int32 (to_int32 code) = signed_take_bit 31 code"
  by (simp add: from_int32_def to_int32_def sint_sbintrunc')

lemma consume_runStream:
  assumes "er_Command req \<noteq> []" "runStream W req (good_stream ctx) nothing_sent = (out, e)"
  shows "consumeStream (sent_msgs out, e) =
    (fst (run_verdict W req), fst (snd (run_verdict W req)), None, snd (snd (run_verdict W req)))"
  using assms(2) consume_wire [where ms = "[]" and out = "[]"] unfolding runStream_good [OF good_stream_simps(2) assms(1)]
  by (auto simp: run_verdict_def consumeStream_def consume_wire from_to_int32 split: proc.splits option.splits if_splits bool.splits)

lemma parse_pairs_cons:
  "CHR ''='' \<notin> set k \<Longrightarrow> k \<noteq> [] \<Longrightarrow>
     parse_pairs ((k @ CHR ''='' # v) # kv) env = parse_pairs kv (AList.update k v env)"
  by simp

lemma parse_pairs_distinct:
  "parse_pairs kv env = Inr env' \<Longrightarrow> distinct (map fst env) \<Longrightarrow> distinct (map fst env')"
  by (induction kv arbitrary: env) (auto simp: distinct_update split: prod.splits if_splits)

lemma set_update_sub: "set (AList.update k v env) \<subseteq> insert (k, v) (set env)"
  by (induction env) auto

lemma parse_pairs_keys:
  "parse_pairs kv env = Inr env' \<Longrightarrow> (\<forall>(k, v) \<in> set env. k \<noteq> [] \<and> CHR ''='' \<notin> set k) \<Longrightarrow>
     (\<forall>(k, v) \<in> set env'. k \<noteq> [] \<and> CHR ''='' \<notin> set k)"
proof (induction kv arbitrary: env)
  case (Cons pair kv)
  obtain k v ok where cut: "strings_Cut pair (CHR ''='') = (k, v, ok)" by (metis prod_cases3)
  with Cons.prems have ok: "ok" "k \<noteq> []" by (auto split: if_splits)
  then have "CHR ''='' \<notin> set k" using cut strings_Cut_True(2) by simp
  moreover have "set (AList.update k v env) \<subseteq> insert (k, v) (set env)"
    by (rule set_update_sub)
  ultimately have "\<forall>(k, v) \<in> set (AList.update k v env). k \<noteq> [] \<and> CHR ''='' \<notin> set k"
    using Cons.prems(2) ok by fastforce
  with Cons cut ok show ?case by simp
qed simp

text \<open>A served deploy or run by an admin on a working stream, as the controller sees it.\<close>

lemma agent_stream_Run:
  assumes "caller_role ctx \<in> {RoleOperator, RoleAdmin}"
  shows "agent_stream_call srv worlds ctx (RpcRun req) (s, n) =
    (case runStream (worlds n) req (good_stream ctx) nothing_sent of
       (out, e) \<Rightarrow> ((s, n + 1), Inr (sent_msgs out, e)))"
  using assms admitted_roles(1) [of ctx]
  by (auto simp: agent_stream_call_def serve_call_def handlers_via_gate Server_Run_def split: prod.splits)

lemma agent_stream_Deploy:
  assumes "caller_role ctx = RoleAdmin"
  shows "agent_stream_call srv worlds ctx (RpcDeploy req) (s, n) =
    (case Server_Deploy (worlds n) srv req (good_stream ctx) (s, nothing_sent) of
       ((s', out), e) \<Rightarrow> ((s', n + 1), Inr (sent_msgs out, e)))"
  using assms admitted_roles(2) [of ctx]
  by (auto simp: agent_stream_call_def serve_call_def handlers_via_gate split: prod.splits)

section \<open>Properties\<close>

lemma parse_pairs_iff:
  "(case parse_pairs kv env of
      Inl e \<Rightarrow> \<exists>p \<in> set kv. e = CliInvalidEnv p \<and> (CHR ''='' \<notin> set p \<or> hd p = CHR ''='')
    | Inr env' \<Rightarrow>
        (\<forall>p \<in> set kv. CHR ''='' \<in> set p \<and> hd p \<noteq> CHR ''='') \<and>
        map_of env' = map_of env ++
          map_of (rev (map (\<lambda>p. (takeWhile (\<lambda>c. c \<noteq> CHR ''='') p, tl (dropWhile (\<lambda>c. c \<noteq> CHR ''='') p))) kv)))"
proof (induction kv arbitrary: env)
  case (Cons p kv)
  let ?k = "takeWhile (\<lambda>c. c \<noteq> CHR ''='') p" and ?v = "tl (dropWhile (\<lambda>c. c \<noteq> CHR ''='') p)"
  show ?case
  proof (cases "CHR ''='' \<in> set p \<and> ?k \<noteq> []")
    case True
    then have "hd p \<noteq> CHR ''=''" by (cases p) auto
    have upd: "map_of (AList.update ?k ?v env) ++ m = map_of env ++ (map_of [(?k, ?v)] ++ m)" for m
      by (auto simp: update_conv' fun_eq_iff map_add_def split: option.split)
    from True have "strings_Cut p (CHR ''='') = (?k, ?v, True)" by (simp add: strings_Cut_def)
    with True \<open>hd p \<noteq> CHR ''=''\<close> Cons.IH [of "AList.update ?k ?v env"] show ?thesis
      unfolding upd by (auto simp: map_of_append split: sum.splits)
  next
    case False
    then have "CHR ''='' \<notin> set p \<or> hd p = CHR ''=''" by (cases p) (auto split: if_splits)
    with False show ?thesis by (auto simp: strings_Cut_def)
  qed
qed simp

text \<open>
  Fact: the environment flags: a list of pairs is accepted exactly when each has an equals sign
  after a non-empty key, and then the variables sent are the pairs cut at their first equals
  sign, a later pair overwriting an earlier one; no key is repeated, empty, or contains an
  equals sign, so the agent's merge gives every one of them its value.
\<close>

theorem parse_env_spec:
  "(case parseEnv kv of
      Inl e \<Rightarrow> (\<exists>p. p \<in> set kv \<and> e = CliInvalidEnv p \<and> \<not> (CHR ''='' \<in> set p \<and> hd p \<noteq> CHR ''=''))
    | Inr env \<Rightarrow>
        list_all (\<lambda>p. CHR ''='' \<in> set p \<and> hd p \<noteq> CHR ''='') kv \<and>
        map_of env = map_of (rev (map (\<lambda>p. (takeWhile (\<lambda>c. c \<noteq> CHR ''='') p,
          tl (dropWhile (\<lambda>c. c \<noteq> CHR ''='') p))) kv)) \<and>
        distinct (map fst env) \<and> list_all (\<lambda>(k, v). k \<noteq> [] \<and> CHR ''='' \<notin> set k) env)"
proof (cases "kv = []")
  case True
  then show ?thesis by (simp add: parseEnv_def)
next
  case False
  then have "parseEnv kv = parse_pairs kv []" by (simp add: parseEnv_def)
  with parse_pairs_iff [of kv "[]"] parse_pairs_distinct [of kv "[]"] parse_pairs_keys [of kv "[]"]
  show ?thesis by (auto simp: list_all_iff split: sum.splits)
qed

text \<open>
  Fact: what the controller shows is what the command wrote. Reading the stream of a run that
  started, over a working connection, prints exactly the pieces of output, in order and on the
  right terminal stream, and yields the command's exit code (as 32 bits), no approval, no error.
\<close>

theorem consume_stream_of_run:
  assumes "er_Command req \<noteq> []" "behaviour W req = Started pieces code None"
  shows "(case runStream W req (good_stream ctx) nothing_sent of (out, e) \<Rightarrow> consumeStream (sent_msgs out, e)) =
    (pieces, signed_take_bit 31 code, None, None)"
  using consume_run [of "good_stream ctx" req W pieces code] assms
  by (simp add: from_int32_def to_int32_def sint_sbintrunc')

theorem consume_stream_of_run_witness:
  "(case runStream (demo_world one_liner 0) (exec_request ''ls'' [] []) (good_stream None) nothing_sent of
      (out, e) \<Rightarrow> consumeStream (sent_msgs out, e)) = ([(False, ''ok'')], 0, None, None)"
  using consume_stream_of_run [of "exec_request ''ls'' [] []" "demo_world one_liner 0"]
  by (simp add: behaviour_def one_liner_def)


lemma exit_code_zero: "signed_take_bit 31 (code :: int) = 0 \<longleftrightarrow> 2 ^ 32 dvd code"
  using to_int32_0 [of code] from_int32_0 [of "to_int32 code"] by (simp add: from_to_int32)

lemma exec_run_end_to_end_core:
  assumes "dialAgent C newClient = Inr (agent_conn srv worlds ctx)" "parseEnv envKV = Inr env"
    and "caller_role ctx \<in> {RoleOperator, RoleAdmin}" "args \<noteq> []" "hd args \<noteq> []"
  shows "exec_run C newClient args workDir envKV (s, n) =
    (let req = \<lparr>er_Command = hd args, er_Args = tl args, er_WorkingDir = workDir, er_Env = env, er_ApprovalId = []\<rparr>;
         failed = (\<lambda>e. Some (CliStatus (Errorf Internal ''exec: %v'' [w_exec_text (worlds n) (ExecRun (hd args) e)])))
     in case behaviour (worlds n) req of
       StartError e \<Rightarrow> ((s, n + 1), [], failed e)
     | Started pieces code ctxErr \<Rightarrow>
         ((s, n + 1), pieces,
          if code = 0 \<and> ctxErr \<noteq> None then failed (the ctxErr)
          else if 2 ^ 32 dvd code then None else Some (CliExit (signed_take_bit 31 code))))"
proof -
  let ?req = "\<lparr>er_Command = hd args, er_Args = tl args, er_WorkingDir = workDir, er_Env = env, er_ApprovalId = []\<rparr>"
  obtain out e where r: "runStream (worlds n) ?req (good_stream ctx) nothing_sent = (out, e)" by fastforce
  have "exec_run C newClient args workDir envKV (s, n) = ((s, n + 1), reported (worlds n) ?req)"
    using assms consume_runStream [OF _ r] agent_stream_Run [OF assms(3), of srv worlds ?req s n] r
    by (auto simp: exec_run_def reported_def split: prod.splits option.splits)
  then show ?thesis
    by (auto simp: reported_def run_verdict_def exit_code_zero Let_def split: proc.splits)
qed

text \<open>
  Fact: \<^verbatim>\<open>rexec exec run\<close> end to end. With a credential that dials an agent, an operator or admin gets
  the output of the command, all of it and in order, and a nil error exactly when the command
  started and its exit code is zero on the wire, the stream's context not having been cancelled;
  any other code is reported, and nothing of the agent's state changes.
\<close>

theorem exec_run_end_to_end:
  assumes "dialAgent C newClient = Inr (agent_conn srv worlds ctx)" "parseEnv envKV = Inr env"
    and "caller_role ctx \<in> {RoleOperator, RoleAdmin}" "args \<noteq> []" "hd args \<noteq> []"
  shows "exec_run C newClient args workDir envKV (s, n) =
    (let req = \<lparr>er_Command = hd args, er_Args = tl args, er_WorkingDir = workDir, er_Env = env, er_ApprovalId = []\<rparr>;
         failed = (\<lambda>e. Some (CliStatus (Errorf Internal ''exec: %v'' [w_exec_text (worlds n) (ExecRun (hd args) e)])))
     in case behaviour (worlds n) req of
       StartError e \<Rightarrow> ((s, n + 1), [], failed e)
     | Started pieces code ctxErr \<Rightarrow>
         ((s, n + 1), pieces,
          if code = 0 \<and> ctxErr \<noteq> None then failed (the ctxErr)
          else if 2 ^ 32 dvd code then None else Some (CliExit (signed_take_bit 31 code))))"
  by (rule exec_run_end_to_end_core [OF assms])

text \<open>A deploy that the agent runs, and one it asks about, as \<^verbatim>\<open>send\<close> sees them.\<close>

lemma deploy_send_runs:
  assumes "caller_role ctx = RoleAdmin" "er_Command req \<noteq> []"
    and "Server_Deploy (worlds n) srv (req\<lparr>er_ApprovalId := aid\<rparr>) (good_stream ctx) (s, nothing_sent) =
      (case runStream (worlds n) (req\<lparr>er_ApprovalId := aid\<rparr>) (good_stream ctx) nothing_sent of (out', e) \<Rightarrow> ((s', out'), e))"
  shows "deploy_send (agent_conn srv worlds ctx) req aid (s, n) =
    (case run_verdict (worlds n) req of (pieces, code, err) \<Rightarrow> ((s', n + 1), pieces, code, None, err))"
proof -
  let ?r = "req\<lparr>er_ApprovalId := aid\<rparr>"
  obtain out e where r: "runStream (worlds n) ?r (good_stream ctx) nothing_sent = (out, e)" by fastforce
  have "run_verdict (worlds n) ?r = run_verdict (worlds n) req"
    by (simp add: run_verdict_def behaviour_def split: proc.split)
  then show ?thesis
    using assms consume_runStream [OF _ r]
    by (simp add: deploy_send_def agent_stream_Deploy r split: prod.splits)
qed

lemma deploy_send_asks:
  assumes "caller_role ctx = RoleAdmin"
    and "Server_Deploy (worlds n) srv (req\<lparr>er_ApprovalId := aid\<rparr>) (good_stream ctx) (s, nothing_sent) =
      ((s', \<lparr>sent_msgs = [ExecChunk_NeedsApproval a], sent_tries = 1\<rparr>), None)"
  shows "deploy_send (agent_conn srv worlds ctx) req aid (s, n) = ((s', n + 1), [], 0, Some a, None)"
  using assms by (simp add: deploy_send_def agent_stream_Deploy consumeStream_def)

lemma asking_deploy:
  assumes "Policy_Evaluate (srv_policy srv) (er_Command req) = DecisionAsk" "policy_randID (w_rnd W) = Inr fresh"
    and "er_ApprovalId req = []"
  shows "Server_Deploy W srv req (good_stream ctx) (s, nothing_sent) =
    ((s\<lparr>as_grants := (as_grants s)(fresh \<mapsto> \<lparr>g_command = er_Command req, g_expiry = w_now W + approvalTTL\<rparr>)\<rparr>,
      \<lparr>sent_msgs = [ExecChunk_NeedsApproval
        \<lparr>Operation = strings_TrimSpace (er_Command req @ '' '' @ strings_Join (er_Args req) '' ''),
         Reason = approval_reason, ar_ApprovalId = fresh\<rparr>], sent_tries = 1\<rparr>), None)"
  using assms by (simp add: Server_Deploy_def Grants_Issue_def stream_Send_good nothing_sent_def Let_def)

lemma approved_deploy:
  assumes "as_grants s (er_ApprovalId req) = Some g" "g_command g = er_Command req" "w_now W \<le> g_expiry g"
    and "er_ApprovalId req \<noteq> []"
  shows "Server_Deploy W srv req ss (s, out) =
    (case runStream W req ss out of (out', e) \<Rightarrow>
      ((s\<lparr>as_grants := (as_grants s)(er_ApprovalId req := None)\<rparr>, out'), e))"
proof -
  have "Grants_Consume (er_ApprovalId req) (er_Command req) (w_now W) (as_grants s) =
      ((as_grants s)(er_ApprovalId req := None), None)"
    using assms by (simp add: Grants_Consume_ok)
  with assms(4) show ?thesis by (simp add: Server_Deploy_def Let_def)
qed

lemma exec_deploy_approval_core:
  assumes "dialAgent C newClient = Inr (agent_conn srv worlds ctx)" "parseEnv envKV = Inr env"
    and "caller_role ctx = RoleAdmin" "args \<noteq> []" "hd args \<noteq> []"
    and "Policy_Evaluate (srv_policy srv) (hd args) = DecisionAsk"
    and "policy_randID (w_rnd (worlds n)) = Inr fresh" "fresh \<noteq> []"
    and "w_now (worlds (n + 1)) \<le> w_now (worlds n) + 5 * time_Minute"
  shows "\<exists>s1. exec_deploy C newClient args workDir envKV [] False (s, n) =
        ((s1, n + 1), [], Some (CliNeedsApproval
          \<lparr>Operation = strings_TrimSpace (hd args @ '' '' @ strings_Join (tl args) '' ''),
           Reason = approval_reason, ar_ApprovalId = fresh\<rparr>)) \<and>
      as_grants s1 = (as_grants s)(fresh \<mapsto>
        \<lparr>g_command = hd args, g_expiry = w_now (worlds n) + 5 * time_Minute\<rparr>) \<and>
      exec_deploy C newClient args workDir envKV fresh False (s1, n + 1) =
        ((s\<lparr>as_grants := (as_grants s)(fresh := None)\<rparr>, n + 2),
         reported (worlds (n + 1)) \<lparr>er_Command = hd args, er_Args = tl args, er_WorkingDir = workDir,
           er_Env = env, er_ApprovalId = []\<rparr>) \<and>
      exec_deploy C newClient args workDir envKV [] True (s, n) =
        exec_deploy C newClient args workDir envKV fresh False (s1, n + 1)"
proof -
  let ?req = "\<lparr>er_Command = hd args, er_Args = tl args, er_WorkingDir = workDir, er_Env = env, er_ApprovalId = []\<rparr>"
  let ?g = "\<lparr>g_command = hd args, g_expiry = w_now (worlds n) + approvalTTL\<rparr>"
  let ?s1 = "s\<lparr>as_grants := (as_grants s)(fresh \<mapsto> ?g)\<rparr>" and ?s2 = "s\<lparr>as_grants := (as_grants s)(fresh := None)\<rparr>"
  let ?ask = "\<lparr>Operation = strings_TrimSpace (hd args @ '' '' @ strings_Join (tl args) '' ''),
         Reason = approval_reason, ar_ApprovalId = fresh\<rparr>"
  have ask: "deploy_send (agent_conn srv worlds ctx) ?req [] (s, n) = ((?s1, n + 1), [], 0, Some ?ask, None)"
    using asking_deploy [of srv ?req "worlds n" fresh ctx s] assms(3,6,7) by (intro deploy_send_asks) auto
  have run: "deploy_send (agent_conn srv worlds ctx) ?req fresh (?s1, n + 1) =
      (case run_verdict (worlds (n + 1)) ?req of (pieces, code, err) \<Rightarrow> ((?s2, n + 2), pieces, code, None, err))"
    using approved_deploy [of ?s1 "?req\<lparr>er_ApprovalId := fresh\<rparr>" ?g "worlds (n + 1)" srv "good_stream ctx" nothing_sent]
      deploy_send_runs [OF assms(3), of ?req worlds "n + 1" srv fresh ?s1 ?s2] assms(5,8,9)
    by (simp add: approvalTTL_def)
  show ?thesis
    using ask run assms(1,2)
    by (intro exI [of _ ?s1]) (auto simp: exec_deploy_def Let_def reported_def approvalTTL_def split: prod.splits option.splits)
qed

text \<open>
  C12: \<^verbatim>\<open>rexec exec deploy\<close> under a policy that asks. Without \<^verbatim>\<open>--yes\<close> nothing is run: the command
  fails with the agent's request, which names the command line, the reason and a fresh id; repeating it with that id within five minutes runs it, and
  leaves no approval behind. With \<^verbatim>\<open>--yes\<close> the one command does both calls, with the same result.
  In each case the command is run once and what is reported is its output and exit code.
\<close>

theorem exec_deploy_approval:
  assumes "dialAgent C newClient = Inr (agent_conn srv worlds ctx)" "parseEnv envKV = Inr env"
    and "caller_role ctx = RoleAdmin" "args \<noteq> []" "hd args \<noteq> []"
    and "Policy_Evaluate (srv_policy srv) (hd args) = DecisionAsk"
    and "policy_randID (w_rnd (worlds n)) = Inr fresh" "fresh \<noteq> []"
    and "w_now (worlds (n + 1)) \<le> w_now (worlds n) + 5 * time_Minute"
  shows "\<exists>s1. exec_deploy C newClient args workDir envKV [] False (s, n) =
        ((s1, n + 1), [], Some (CliNeedsApproval
          \<lparr>Operation = strings_TrimSpace (hd args @ '' '' @ strings_Join (tl args) '' ''),
           Reason = approval_reason, ar_ApprovalId = fresh\<rparr>)) \<and>
      as_grants s1 = (as_grants s)(fresh \<mapsto>
        \<lparr>g_command = hd args, g_expiry = w_now (worlds n) + 5 * time_Minute\<rparr>) \<and>
      exec_deploy C newClient args workDir envKV fresh False (s1, n + 1) =
        ((s\<lparr>as_grants := (as_grants s)(fresh := None)\<rparr>, n + 2),
         reported (worlds (n + 1)) \<lparr>er_Command = hd args, er_Args = tl args, er_WorkingDir = workDir,
           er_Env = env, er_ApprovalId = []\<rparr>) \<and>
      exec_deploy C newClient args workDir envKV [] True (s, n) =
        exec_deploy C newClient args workDir envKV fresh False (s1, n + 1)"
  by (rule exec_deploy_approval_core [OF assms])

text \<open>
  Fact: \<^verbatim>\<open>rexec exec deploy\<close> under the rules that do not ask: a command on the deny list, or of a
  policy that denies, fails with PermissionDenied and prints nothing, \<^verbatim>\<open>--yes\<close> or not; an allowed
  one is run at once.
\<close>

theorem exec_deploy_decided:
  assumes "dialAgent C newClient = Inr (agent_conn srv worlds ctx)" "parseEnv envKV = Inr env"
    and "caller_role ctx = RoleAdmin" "args \<noteq> []" "hd args \<noteq> []"
  shows "(Policy_Evaluate (srv_policy srv) (hd args) = DecisionDeny \<longrightarrow>
      exec_deploy C newClient args workDir envKV [] autoYes (s, n) = ((s, n + 1), [],
        Some (CliStatus (Errorf PermissionDenied ''agent policy denies destructive command %q'' [hd args])))) \<and>
    (Policy_Evaluate (srv_policy srv) (hd args) = DecisionAllow \<longrightarrow>
      exec_deploy C newClient args workDir envKV [] autoYes (s, n) = ((s, n + 1),
        reported (worlds n) \<lparr>er_Command = hd args, er_Args = tl args, er_WorkingDir = workDir,
           er_Env = env, er_ApprovalId = []\<rparr>))"
proof -
  let ?req = "\<lparr>er_Command = hd args, er_Args = tl args, er_WorkingDir = workDir, er_Env = env, er_ApprovalId = []\<rparr>"
  have upd: "?req\<lparr>er_ApprovalId := []\<rparr> = ?req" by simp
  have deny: "deploy_send (agent_conn srv worlds ctx) ?req [] (s, n) = ((s, n + 1), [], 0, None,
      Some (Errorf PermissionDenied ''agent policy denies destructive command %q'' [hd args]))"
    if "Policy_Evaluate (srv_policy srv) (hd args) = DecisionDeny"
    using that assms(3) by (simp add: deploy_send_def agent_stream_Deploy Server_Deploy_def consumeStream_def Let_def)
  have allow: "deploy_send (agent_conn srv worlds ctx) ?req [] (s, n) =
      (case run_verdict (worlds n) ?req of (pieces, code, err) \<Rightarrow> ((s, n + 1), pieces, code, None, err))"
    if "Policy_Evaluate (srv_policy srv) (hd args) = DecisionAllow"
    using that assms(5) deploy_send_runs [OF assms(3), of ?req worlds n srv "[]" s s]
    by (simp add: Server_Deploy_def Let_def)
  show ?thesis
    using deny allow assms(1,2)
    by (auto simp: exec_deploy_def Let_def reported_def split: prod.splits option.splits)
qed

lemma dialAgent_Inl:
  "dialAgent C newClient = Inl e \<Longrightarrow> e \<in> range CliConfig \<union> range CliNoEndpoint \<union> range CliTransport"
proof -
  have pick: "e \<in> range CliNoEndpoint \<union> range CliTransport"
    if "(case xs of [] \<Rightarrow> Inl (CliNoEndpoint p) | x # _ \<Rightarrow> wrap_error CliTransport (g x)) = Inl e"
    for xs :: "string list" and g :: "string \<Rightarrow> transport_error + 'a" and p
    using that by (cases xs) auto
  assume "dialAgent C newClient = Inl e"
  then show ?thesis
    by (auto simp: dialAgent_def Let_def dest!: pick split: if_split_asm)
qed

text \<open>
  C37: the pin check of \<^verbatim>\<open>rexec agent identity\<close>: it succeeds only if the credential file could be
  read, the connection made from it opened, and the agent answered with the fingerprint the
  credential pins (or it pins none); a mismatch is reported exactly with the pinned and the
  answered fingerprint, and no other failure is reported as one.
\<close>

theorem identity_pin_check:
  "(case agent_identity C newClient s of
      (s', Inr resp) \<Rightarrow> \<exists>cfg conn. Config_Load (cli_faults C) (cli_yaml C) (credentialFlag C) (cli_os C) = Inr cfg \<and>
        dialAgent C newClient = Inr conn \<and> cl_Identity conn s = (s', Inr resp) \<and>
        cfg_Fingerprint cfg \<in> {[], ir_Fingerprint resp}
    | (s', Inl (CliFingerprintMismatch pinned got)) \<Rightarrow>
        \<exists>cfg conn resp. Config_Load (cli_faults C) (cli_yaml C) (credentialFlag C) (cli_os C) = Inr cfg \<and>
        dialAgent C newClient = Inr conn \<and> cl_Identity conn s = (s', Inr resp) \<and>
        pinned = cfg_Fingerprint cfg \<and> got = ir_Fingerprint resp \<and> pinned \<noteq> [] \<and> got \<noteq> pinned
    | (s', Inl e) \<Rightarrow> True)"
proof (cases "dialAgent C newClient")
  case (Inl e)
  with dialAgent_Inl [OF Inl] show ?thesis
    by (cases "Config_Load (cli_faults C) (cli_yaml C) (credentialFlag C) (cli_os C)")
       (auto simp: agent_identity_def)
next
  case (Inr conn)
  then show ?thesis
    by (cases "Config_Load (cli_faults C) (cli_yaml C) (credentialFlag C) (cli_os C)")
       (auto simp: agent_identity_def split: prod.splits sum.splits)
qed

section \<open>The properties at concrete inputs\<close>

text \<open>A credential file that dials an agent, for any way to open the connection.\<close>

definition demo_cli :: "Config \<Rightarrow> cli" where
  "demo_cli cfg = \<lparr>cli_credential = ''/c'', cli_endpoint = '''', cli_home = None, cli_hostname = ''ctl'',
     cli_os = \<lparr>os_files = [''/c'' \<mapsto> \<lparr>f_data = fst config_coder cfg, f_mode = perm_0600\<rparr>], os_dirs = {}\<rparr>,
     cli_faults = no_faults, cli_yaml = plain_yaml, cli_x509 = plain_x509, cli_rnd = demo_rnd\<rparr>"

lemma demo_cli_load:
  "Config_Load (cli_faults (demo_cli cfg)) (cli_yaml (demo_cli cfg)) (credentialFlag (demo_cli cfg)) (cli_os (demo_cli cfg)) = Inr cfg"
proof -
  have "yaml_Unmarshal plain_yaml (fst config_coder cfg) = Inr cfg"
    using plain_yaml_laws unfolding yaml_laws_def by (simp add: plain_yaml_def)
  then show ?thesis by (simp add: demo_cli_def Config_Load_def credentialFlag_def file_data_def)
qed

lemma demo_cli_dial:
  obtains cfg where "\<And>conn. dialAgent (demo_cli cfg) (\<lambda>_ _. Inr conn) = Inr conn"
proof (rule demo_stack)
  fix svc :: Service and csr key sc sk cfg
  assume wf: "ca_wf plain_x509 (svc_ca svc)"
    and csr: "NewCSR plain_x509 (Inr (\<lambda>_. CHR ''k'')) ''rexec@host'' = Inr (csr, key)"
    and sign: "\<forall>rnd t req. CSRPEM req = csr \<longrightarrow> (\<exists>p. Sign plain_x509 (Inr rnd) t (svc_ca svc) req = Inr p)"
  let ?req = "\<lparr>CSRPEM = csr, Roles = [RoleAdmin], Validity = 1, Client = True, sr_DNSNames = [], IPs = []\<rparr>"
  obtain p where p: "Sign plain_x509 (Inr (\<lambda>_. CHR ''s'')) 0 (svc_ca svc) ?req = Inr p" using sign by fastforce
  have csr': "NewCSR plain_x509 (Inr (\<lambda>_. CHR ''k'')) ''rexec@host'' = Inr (CSRPEM ?req, key)" using csr by simp
  from signed_pair [OF plain_x509_laws csr' p] obtain cert where
    pair: "X509KeyPair plain_x509 p key = Inr cert" "p \<noteq> []" "key \<noteq> []" by blast
  let ?cfg = "\<lparr>cfg_CA = CertPEM plain_x509 (svc_ca svc), cfg_ClientCert = p, cfg_ClientKey = key,
    cfg_Endpoints = [''agent:50000''], cfg_AgentID = ''agent'', cfg_Fingerprint = ''fp''\<rparr>"
  have "\<exists>t. Config_ClientTLS plain_x509 ?cfg = Inr t"
    using pair AppendCerts_CertPEM [OF plain_x509_laws] CertPEM_ne [OF plain_x509_laws] wf
    by (simp add: Config_ClientTLS_def ca_wf_def)
  then have "dialAgent (demo_cli ?cfg) (\<lambda>_ _. Inr conn) = Inr conn" for conn :: 'a
    unfolding dialAgent_def demo_cli_load
    by (auto simp: endpointFlag_def Let_def Dial_def ClientCreds_def demo_cli_def)
  then show thesis by (rule that)
qed

theorem exec_run_end_to_end_witness:
  "\<exists>cfg. exec_run (demo_cli cfg) (\<lambda>_ _. Inr (agent_conn (demo_server ask_policy) (\<lambda>n. demo_world one_liner (int n)) (role_ctx RoleOperator)))
     [''ls'', ''-l''] [] [''LANG=C''] (fresh_agent, 0) = ((fresh_agent, 1), [(False, ''ok'')], None)"
proof (rule demo_cli_dial)
  fix cfg
  assume dial: "\<And>conn :: (agent_state \<times> nat) agent_client. dialAgent (demo_cli cfg) (\<lambda>_ _. Inr conn) = Inr conn"
  have env: "parseEnv [''LANG=C''] = Inr [(''LANG'', ''C'')]" by code_simp
  have role: "caller_role (role_ctx RoleOperator) \<in> {RoleOperator, RoleAdmin}" by (simp add: role_ctx_role)
  show ?thesis
    by (intro exI [of _ cfg], subst exec_run_end_to_end [OF dial env role])
       (simp_all add: behaviour_def one_liner_def Let_def)
qed

theorem exec_deploy_approval_witness:
  "\<exists>cfg. exec_deploy (demo_cli cfg) (\<lambda>_ _. Inr (agent_conn (demo_server ask_policy) (\<lambda>n. demo_world one_liner (int n)) (role_ctx RoleAdmin)))
     [''kubectl'', ''apply''] [] [] [] True (fresh_agent, 0) = ((fresh_agent, 2), [(False, ''ok'')], None)"
proof (rule demo_cli_dial)
  fix cfg
  assume dial: "\<And>conn :: (agent_state \<times> nat) agent_client. dialAgent (demo_cli cfg) (\<lambda>_ _. Inr conn) = Inr conn"
  have env: "parseEnv [] = Inr []" by (simp add: parseEnv_def)
  let ?worlds = "\<lambda>n. demo_world one_liner (int n)"
  have now: "w_now (?worlds (0 + 1)) \<le> w_now (?worlds 0) + 5 * time_Minute"
    by (simp add: time_Minute_def time_Second_def)
  have aid: "policy_randID (w_rnd (?worlds 0)) = Inr demo_approval" "demo_approval \<noteq> []"
    by (simp_all add: demo_randID demo_approval_def)
  have ask: "Policy_Evaluate (srv_policy (demo_server ask_policy)) (hd [''kubectl'', ''apply'']) = DecisionAsk"
    using demo_asks by simp
  have args: "[''kubectl'', ''apply''] \<noteq> []" "hd [''kubectl'', ''apply''] \<noteq> []" by simp_all
  have "NewGrants(demo_approval := None) = NewGrants" by (simp add: NewGrants_def)
  moreover have "reported (?worlds (0 + 1)) (exec_request ''kubectl'' [''apply''] []) = ([(False, ''ok'')], None)"
    by (simp add: reported_def run_verdict_def behaviour_def one_liner_def)
  moreover note exec_deploy_approval [OF dial env role_ctx_admin args ask aid now, of "[]" fresh_agent]
  ultimately show ?thesis by (intro exI [of _ cfg]) auto
qed

theorem exec_deploy_decided_witness:
  "\<exists>cfg. exec_deploy (demo_cli cfg) (\<lambda>_ _. Inr (agent_conn (demo_server ask_policy) (\<lambda>n. demo_world one_liner (int n)) (role_ctx RoleAdmin)))
     [''rm'', ''-rf'', ''/''] [] [] [] True (fresh_agent, 0) = ((fresh_agent, 1), [],
       Some (CliStatus (Errorf PermissionDenied ''agent policy denies destructive command %q'' [''rm''])))"
proof (rule demo_cli_dial)
  fix cfg
  assume dial: "\<And>conn :: (agent_state \<times> nat) agent_client. dialAgent (demo_cli cfg) (\<lambda>_ _. Inr conn) = Inr conn"
  have env: "parseEnv [] = Inr []" by (simp add: parseEnv_def)
  have "Policy_Evaluate (srv_policy (demo_server ask_policy)) ''rm'' = DecisionDeny"
    by (simp add: demo_server_def Policy_Evaluate_def)
  then show ?thesis
    by (intro exI [of _ cfg], subst exec_deploy_decided [OF dial env role_ctx_admin, THEN conjunct1, rule_format])
       simp_all
qed

end
