(* ===== verification/Daemon.thy ===== *)
theory Daemon
  imports Agentcmds Controller
begin

text \<open>
  The daemon behind TLS: \<^verbatim>\<open>serveAgent\<close> of \<^verbatim>\<open>cmd/rexec-agentd/agentcmds.go\<close> over a history of
  connections, and the properties that hold only of the parts together: the TLS configuration of
  \<^verbatim>\<open>transport\<close>, the interceptors of \<^verbatim>\<open>authz\<close>, the handlers of \<^verbatim>\<open>agentserver\<close>, the token store and
  the commands of both ends.
\<close>

section \<open>The calls a history serves\<close>

text \<open>A call as its connection makes it: the peer is what the handshake found.\<close>

definition with_peer :: "auth_info \<Rightarrow> call \<Rightarrow> call" where
  "with_peer info c = c\<lparr>call_stream := (call_stream c)\<lparr>ss_Context := Some info\<rparr>\<rparr>"

definition tls_admit :: "x509_env \<Rightarrow> tls_config \<Rightarrow> certificate list \<Rightarrow> call \<Rightarrow> call list" where
  "tls_admit X creds certs c =
     (case server_peer X creds (w_now (call_world c)) certs of None \<Rightarrow> [] | Some info \<Rightarrow> [with_peer info c])"

fun drained :: "x509_env \<Rightarrow> tls_config \<Rightarrow> serve_event list \<Rightarrow> call list" where
  "drained X creds [] = []"
| "drained X creds (Incoming certs c # es) = tls_admit X creds certs c @ drained X creds es"
| "drained X creds (GracefulStopped # es) = []"
| "drained X creds (CtxDone # es) = drained X creds es"
| "drained X creds (ServeErr e # es) = drained X creds es"

fun served :: "x509_env \<Rightarrow> tls_config \<Rightarrow> serve_event list \<Rightarrow> call list" where
  "served X creds [] = []"
| "served X creds (Incoming certs c # es) = tls_admit X creds certs c @ served X creds es"
| "served X creds (CtxDone # es) = drained X creds es"
| "served X creds (GracefulStopped # es) = served X creds es"
| "served X creds (ServeErr e # es) = []"

lemma with_peer_simps [simp]:
  "call_world (with_peer info c) = call_world c" "call_rpc (with_peer info c) = call_rpc c"
  "call_ctx (with_peer info c) = Some info"
  by (simp_all add: with_peer_def)

lemma with_peer_exec: "with_exec ex (with_peer info c) = with_peer info (with_exec ex c)"
  by (simp add: with_exec_def with_peer_def)

lemma tls_call_peer:
  "tls_call X creds srv certs c st =
     (case server_peer X creds (w_now (call_world c)) certs of
        None \<Rightarrow> (st, None)
      | Some info \<Rightarrow> map_prod id Some (serve_call AgentTable srv (with_peer info c) st))"
  by (simp add: tls_call_def with_peer_def split: option.split)

lemma serve_all_Cons: "serve_all table srv (c # cs) st = serve_all table srv cs (fst (serve_call table srv c st))"
  by (simp add: serve_all_def)

lemma serve_all_append:
  "serve_all table srv (cs @ ds) st = serve_all table srv ds (serve_all table srv cs st)"
  by (simp add: serve_all_def run_ops_append)

lemma serve_all_admit:
  "serve_all AgentTable srv (tls_admit X creds certs c) st = fst (tls_call X creds srv certs c st)"
  by (auto simp: tls_admit_def tls_call_peer serve_all_def split: option.splits)

lemma serve_drain_state:
  "fst (serve_drain X creds srv es st) = serve_all AgentTable srv (drained X creds es) st"
proof (induction X creds srv es st rule: serve_drain.induct)
  case (2 X creds srv certs c es st)
  then show ?case by (simp add: serve_all_append serve_all_admit)
qed (simp_all add: serve_all_def)

lemma serve_loop_state:
  "fst (serve_loop X creds srv es st) = serve_all AgentTable srv (served X creds es) st"
proof (induction X creds srv es st rule: serve_loop.induct)
  case (2 X creds srv certs c es st)
  then show ?case by (simp add: serve_all_append serve_all_admit)
qed (simp_all add: serve_all_def serve_drain_state)

lemma tls_call_exec:
  assumes "tls_call X creds srv certs c st \<noteq> tls_call X creds srv certs (with_exec ex c) st"
  obtains info where "server_peer X creds (w_now (call_world c)) certs = Some info"
    "serve_call AgentTable srv (with_peer info c) st \<noteq> serve_call AgentTable srv (with_exec ex (with_peer info c)) st"
proof (cases "server_peer X creds (w_now (call_world c)) certs")
  case (Some info)
  with assms have "serve_call AgentTable srv (with_peer info c) st \<noteq> serve_call AgentTable srv (with_peer info (with_exec ex c)) st"
    by (auto simp: tls_call_peer)
  with Some that show thesis by (simp add: with_peer_exec)
qed (use assms in \<open>simp add: tls_call_peer\<close>)

text \<open>A certificate list that speaks for an admin at a time.\<close>

definition admin_certificate :: "x509_env \<Rightarrow> bytes \<Rightarrow> instant \<Rightarrow> certificate list \<Rightarrow> bool" where
  "admin_certificate X caPEM now certs \<longleftrightarrow>
     (case certs of
        [] \<Rightarrow> False
      | leaf # rest \<Rightarrow> list_ex (\<lambda>ca. x_CheckSignatureFrom X ca leaf \<and> valid_at now ca) (pem_pool X caPEM) \<and>
          client_usage leaf \<and> valid_at now leaf \<and> RoleAdmin \<in> set (Organization (Subject leaf)))"

lemma admin_peer:
  assumes "ServerCreds X caPEM sc sk = Inr creds" "server_peer X creds now certs = Some info"
    and "caller_role (Some info) = RoleAdmin"
  shows "admin_certificate X caPEM now certs"
proof -
  have "caller_role (Some info) \<noteq> RolePublic" using assms(3) by (simp add: role_defs)
  from peer_role_needs_ca_signature_core [OF assms(1,2) this] assms(3) show ?thesis
    by (auto simp: admin_certificate_def list_ex_iff)
qed

lemma tls_admit_origin:
  "d \<in> set (tls_admit X creds certs c) \<Longrightarrow> \<exists>info.
     server_peer X creds (w_now (call_world c)) certs = Some info \<and> d = with_peer info c"
  by (cases "server_peer X creds (w_now (call_world c)) certs") (auto simp: tls_admit_def)

lemma drained_origin:
  "d \<in> set (drained X creds es) \<Longrightarrow> \<exists>certs c info. Incoming certs c \<in> set es \<and>
     server_peer X creds (w_now (call_world c)) certs = Some info \<and> d = with_peer info c"
proof (induction X creds es rule: drained.induct)
  case (2 X creds certs c es)
  then show ?case using tls_admit_origin [of d X creds certs c] by (cases "d \<in> set (drained X creds es)") fastforce+
qed fastforce+

lemma served_origin:
  "d \<in> set (served X creds es) \<Longrightarrow> \<exists>certs c info. Incoming certs c \<in> set es \<and>
     server_peer X creds (w_now (call_world c)) certs = Some info \<and> d = with_peer info c"
proof (induction X creds es rule: served.induct)
  case (2 X creds certs c es)
  then show ?case using tls_admit_origin [of d X creds certs c] by (cases "d \<in> set (served X creds es)") fastforce+
next
  case (3 X creds es)
  then show ?case using drained_origin [of d X creds es] by fastforce
qed fastforce+

section \<open>Properties of the daemon\<close>

text \<open>
  C3: who reaches the machine, from the wire on. On a server with credentials from \<^verbatim>\<open>ServerCreds\<close>, if
  the outcome of a connection's call depends on what the machine's commands do, the connection
  presented a certificate, usable for client authentication and valid now, that is signed by a CA
  of the agent's pool that is valid now, and the call is a
  \<^verbatim>\<open>Run\<close> and the certificate names the operator or admin role, or it is a \<^verbatim>\<open>Deploy\<close> and it names
  the admin role.
\<close>

theorem machine_needs_certificate:
  assumes "ServerCreds X caPEM sc sk = Inr creds"
    and "tls_call X creds srv certs c st \<noteq> tls_call X creds srv certs (with_exec ex c) st"
  shows "\<exists>leaf rest ca. certs = leaf # rest \<and> ca \<in> set (pem_pool X caPEM) \<and> x_CheckSignatureFrom X ca leaf \<and>
    valid_at (w_now (call_world c)) ca \<and> client_usage leaf \<and> valid_at (w_now (call_world c)) leaf \<and>
    ((\<exists>req. call_rpc c = RpcRun req) \<and> set (Organization (Subject leaf)) \<inter> {RoleOperator, RoleAdmin} \<noteq> {} \<or>
     (\<exists>req. call_rpc c = RpcDeploy req) \<and> RoleAdmin \<in> set (Organization (Subject leaf)))"
  using assms(2)
proof (rule tls_call_exec)
  fix info
  assume peer: "server_peer X creds (w_now (call_world c)) certs = Some info"
    and ne: "serve_call AgentTable srv (with_peer info c) st \<noteq> serve_call AgentTable srv (with_exec ex (with_peer info c)) st"
  from machine_needs_operator_core [OF ne]
  have role: "(\<exists>req. call_rpc c = RpcRun req) \<and> caller_role (Some info) \<in> {RoleOperator, RoleAdmin} \<or>
      (\<exists>req. call_rpc c = RpcDeploy req) \<and> caller_role (Some info) = RoleAdmin" by simp
  then have "caller_role (Some info) \<noteq> RolePublic" by (auto simp: role_defs)
  from peer_role_needs_ca_signature_core [OF assms(1) peer this] role show ?thesis by fastforce
qed

text \<open>
  C1: destructive commands, from the wire on. A daemon that started with no approvals serves any
  history of connections, and then one makes a \<^verbatim>\<open>Deploy\<close> whose outcome depends on the machine. Its
  client certificate verifies against the agent's CA and names the admin role; and either the
  policy allows the command, or it asks, and an earlier connection with an admin certificate
  verified the same way asked for this very command at most five minutes ago and drew the
  approval id the call carries.
\<close>

theorem destructive_needs_admin_certificate:
  assumes "ServerCreds X caPEM sc sk = Inr creds" "as_grants st0 = NewGrants" "call_rpc c = RpcDeploy req"
    and "tls_call X creds srv certs c (fst (serve_loop X creds srv es st0)) \<noteq>
      tls_call X creds srv certs (with_exec ex c) (fst (serve_loop X creds srv es st0))"
  shows "admin_certificate X caPEM (w_now (call_world c)) certs \<and>
    (Policy_Evaluate (srv_policy srv) (er_Command req) = DecisionAllow \<or>
     Policy_Evaluate (srv_policy srv) (er_Command req) = DecisionAsk \<and>
     (\<exists>certs' d req'. Incoming certs' d \<in> set es \<and> call_rpc d = RpcDeploy req' \<and>
        admin_certificate X caPEM (w_now (call_world d)) certs' \<and>
        er_Command req' = er_Command req \<and> er_ApprovalId req' = [] \<and>
        policy_randID (w_rnd (call_world d)) = Inr (er_ApprovalId req) \<and>
        w_now (call_world c) \<le> w_now (call_world d) + 5 * time_Minute))"
  using assms(4)
proof (rule tls_call_exec)
  fix info
  assume peer: "server_peer X creds (w_now (call_world c)) certs = Some info"
    and ne: "serve_call AgentTable srv (with_peer info c) (fst (serve_loop X creds srv es st0)) \<noteq>
      serve_call AgentTable srv (with_exec ex (with_peer info c)) (fst (serve_loop X creds srv es st0))"
  have rpc: "call_rpc (with_peer info c) = RpcDeploy req" using assms(3) by simp
  note d = deploy_end_to_end_core [OF assms(2) rpc ne [unfolded serve_loop_state]]
  then have "admin_certificate X caPEM (w_now (call_world c)) certs"
    using admin_peer [OF assms(1) peer] by simp
  moreover have "\<exists>certs' d'. Incoming certs' d' \<in> set es \<and> call_rpc d' = call_rpc d \<and> call_world d' = call_world d \<and>
      admin_certificate X caPEM (w_now (call_world d)) certs'"
    if "served X creds es = before @ d # after" "caller_role (call_ctx d) = RoleAdmin" for before d after
    using served_origin [of d X creds es] that admin_peer [OF assms(1)] by fastforce
  ultimately show ?thesis using d by (simp, metis)
qed

section \<open>The invariant of the daemon\<close>

text \<open>
  The token file is absent or decodes, and approvals are pending only for commands the policy
  asks about.
\<close>

definition daemon_inv :: "json_codec \<Rightarrow> Server \<Rightarrow> agent_state \<Rightarrow> bool" where
  "daemon_inv J srv st \<longleftrightarrow> stored J (srv_tokens srv) (as_os st) \<noteq> None \<and>
     (\<forall>aid g. as_grants st aid = Some g \<longrightarrow> Policy_Evaluate (srv_policy srv) (g_command g) = DecisionAsk)"

lemma consume_keeps_decodable:
  assumes "json_laws J" "stored J ts s \<noteq> None"
  shows "stored J ts (fst (FileStore_Consume F J ts v now s)) \<noteq> None"
proof -
  obtain s' r where c: "FileStore_Consume F J ts v now s = (s', r)" by fastforce
  from assms(1) c show ?thesis
    by (cases rule: FileStore_Consume_cases) (use assms(2) c in auto)
qed

lemma deploy_grants_inv:
  assumes "\<forall>aid g. G aid = Some g \<longrightarrow> Policy_Evaluate (srv_policy srv) (g_command g) = DecisionAsk"
    and "run_ops grants_step (deploy_grants_ops W srv req) G aid = Some g"
  shows "Policy_Evaluate (srv_policy srv) (g_command g) = DecisionAsk"
  using assms
  by (auto simp: deploy_grants_ops_def Grants_Consume_def Grants_Issue_def
      split: if_splits option.splits sum.splits)

lemma serve_call_inv:
  assumes "json_laws J" "daemon_inv J srv st" "w_json (call_world c) = J"
  shows "daemon_inv J srv (fst (serve_call AgentTable srv c st))"
proof -
  have grants: "Policy_Evaluate (srv_policy srv) (g_command g) = DecisionAsk"
    if "as_grants (fst (serve_call AgentTable srv c st)) aid = Some g" for aid g
    using that assms(2) deploy_grants_inv [of "as_grants st" srv]
    unfolding serve_call_grants call_grants_ops_def daemon_inv_def
    by (auto split: rpc.splits if_splits)
  have "stored J (srv_tokens srv) (as_os (fst (serve_call AgentTable srv c st))) \<noteq> None"
  proof (cases "call_rpc c")
    case (RpcEnroll req)
    have "as_os (fst (Server_Enroll (call_world c) srv req st)) =
        fst (FileStore_Consume (w_faults (call_world c)) J (srv_tokens srv) (Token req) (w_now (call_world c)) (as_os st))"
      using assms(3) by (auto simp: Server_Enroll_def Service_Enroll_def split: prod.splits sum.splits)
    with RpcEnroll assms(1,2) consume_keeps_decodable show ?thesis
      by (auto simp: serve_call_def handlers_via_gate daemon_inv_def split: option.splits)
  next
    case (RpcDeploy req)
    with assms(2) Server_Deploy_os show ?thesis
      by (auto simp: serve_call_def handlers_via_gate daemon_inv_def fst_stream_answer split: option.splits)
  qed (use assms(2) in \<open>auto simp: serve_call_def handlers_via_gate daemon_inv_def fst_stream_answer
      Server_Run_def Server_Identity_def Server_Info_def split: option.splits prod.splits\<close>)
  with grants show ?thesis unfolding daemon_inv_def by blast
qed

lemma serve_all_inv:
  "json_laws J \<Longrightarrow> daemon_inv J srv st \<Longrightarrow> \<forall>c \<in> set cs. w_json (call_world c) = J \<Longrightarrow>
     daemon_inv J srv (serve_all AgentTable srv cs st)"
proof (induction cs arbitrary: st)
  case (Cons c cs)
  then show ?case using serve_call_inv [of J srv st c] by (simp add: serve_all_Cons)
qed (simp add: serve_all_def)

text \<open>
  C11: the invariant of the running daemon: over any history of connections, under whatever faults,
  the token file stays absent or complete and decodable, and an approval is pending only for a
  command that the policy asks about, so never for one on the deny list.
\<close>

theorem daemon_invariant:
  assumes "json_laws J" "daemon_inv J srv st"
    and "list_all (\<lambda>e. case e of Incoming certs c \<Rightarrow> w_json (call_world c) = J | _ \<Rightarrow> True) es"
  shows "daemon_inv J srv (fst (serve_loop X creds srv es st)) \<and>
    (\<forall>aid g. as_grants (fst (serve_loop X creds srv es st)) aid = Some g \<longrightarrow> g_command g \<notin> set (Deny (srv_policy srv)))"
proof -
  have "\<forall>c \<in> set (served X creds es). w_json (call_world c) = J"
    using served_origin [of _ X creds es] assms(3) by (fastforce simp: list_all_iff)
  from serve_all_inv [OF assms(1,2) this] have "daemon_inv J srv (fst (serve_loop X creds srv es st))"
    by (simp add: serve_loop_state)
  then show ?thesis by (auto simp: daemon_inv_def Policy_Evaluate_Ask)
qed

section \<open>Joining\<close>

text \<open>The bootstrap connection of an enrolling controller: a handshake without a certificate.\<close>

definition tls_enroll_conn :: "x509_env \<Rightarrow> tls_config \<Rightarrow> Server \<Rightarrow> world \<Rightarrow> agent_state enroll_conn" where
  "tls_enroll_conn X creds srv W req st =
     (case tls_call X creds srv [] \<lparr>call_world = W, call_stream = good_stream None, call_rpc = RpcEnroll req\<rparr> st of
        (st', Some (AnsEnroll r)) \<Rightarrow> (st', r)
      | (st', _) \<Rightarrow> (st', Inl (Errorf Internal [] [])))"

text \<open>\<^verbatim>\<open>Consume\<close> on the state of the daemon, and the handler with it.\<close>

definition agent_Consume :: "world \<Rightarrow> Server \<Rightarrow> string \<Rightarrow> agent_state \<Rightarrow> agent_state \<times> (token_error + string)" where
  "agent_Consume W srv v st =
     (case FileStore_Consume (w_faults W) (w_json W) (srv_tokens srv) v (w_now W) (as_os st) of
        (os', r) \<Rightarrow> (st\<lparr>as_os := os'\<rparr>, r))"

lemma Server_Enroll_Consume:
  "Server_Enroll W srv req st =
     (case Service_Enroll (w_x509 W) (w_rnd W) (w_now W) (agent_Consume W srv) (srv_enroller srv)
         (CsrPem req) (Token req) st of
        (st', Inl err) \<Rightarrow> (st', Inl (Errorf PermissionDenied ''%s'' [w_enroll_text W err]))
      | (st', Inr res) \<Rightarrow> (st', Inr \<lparr>ClientCertPem = ClientCertPEM res, CaPem = CAPEM res,
          AgentId = res_AgentID res, er_Fingerprint = res_Fingerprint res\<rparr>))"
  by (auto simp: Server_Enroll_def Service_Enroll_def agent_Consume_def split: prod.splits sum.splits)

lemma tls_enroll_conn_Server:
  assumes "ServerCreds X caPEM sc sk = Inr creds"
  shows "tls_enroll_conn X creds srv W = Server_Enroll W srv"
proof -
  from server_peer_cases [OF assms] have "server_peer X creds now [] = Some (TLSInfo [])" for now by simp
  moreover have "gate_verdict AgentTable ctx m_Enroll = None" for ctx
    by (simp add: gate_verdict_None)
  ultimately show ?thesis
    by (auto simp: fun_eq_iff tls_enroll_conn_def tls_call_peer serve_call_def handlers_via_gate map_prod_def split: prod.splits)
qed

text \<open>What a join token still in the file is worth.\<close>

lemma token_new_stored:
  assumes "json_laws (ad_json T)" "token_new T role ttl s = (s1, Inr v)" "utf8_valid role"
  shows "token_entry (ad_json T) (NewFileStore (dl_tokens \<lparr>dl_dir = dataDirOf T\<rparr>)) s1 v = Some (role, ad_now T 0 + ttl)"
proof -
  let ?st = "NewFileStore (dl_tokens \<lparr>dl_dir = dataDirOf T\<rparr>)"
  from assms(2) have "FileStore_Issue (ad_faults T) (ad_json T) ?st (ad_rnd T 0) role ttl (ad_now T 0) s = (s1, Inr v)"
    by (auto simp: token_new_def Let_def map_prod_def split: prod.splits)
  from assms(1) this assms(3) show ?thesis
    by (cases rule: FileStore_Issue_cases) (auto simp: token_entry_def)
qed

lemma agent_Consume_accepts:
  assumes "json_laws (w_json W)" "agent_Consume W srv v st = (st', Inr r)"
    and "token_entry (w_json W) (srv_tokens srv) (as_os st) v = Some (role, expiry)"
  shows "r = role \<and> w_now W \<le> expiry \<and> token_entry (w_json W) (srv_tokens srv) (as_os st') v = None"
proof -
  let ?op = "TConsume (w_faults W) v (w_now W)"
  from assms(2) obtain os' where c: "FileStore_Consume (w_faults W) (w_json W) (srv_tokens srv) v (w_now W) (as_os st) = (os', Inr r)"
      "st' = st\<lparr>as_os := os'\<rparr>"
    by (auto simp: agent_Consume_def split: prod.splits)
  then have "token_redeemed (w_json W) (srv_tokens srv) ?op (as_os st) = Some (v, r)" by simp
  from token_redeemed_stored [OF assms(1) this] c assms(3) show ?thesis
    by (auto simp: token_entry_def)
qed

text \<open>A refused token is PermissionDenied, and stays refused.\<close>

lemma agent_Consume_gone:
  assumes "json_laws (w_json W)" "token_entry (w_json W) (srv_tokens srv) (as_os st) v = None"
  shows "\<exists>e. snd (agent_Consume W srv v st) = Inl e"
  using stored_gone_step(2) [OF assms, of "w_faults W" "w_now W"]
  by (auto simp: agent_Consume_def split: prod.splits)

lemma spent_token_refused:
  assumes "json_laws (w_json W)" "token_entry (w_json W) (srv_tokens srv) (as_os st) v = None"
    and "ServerCreds X caPEM sc sk = Inr creds"
  shows "\<exists>e. snd (tls_enroll_conn X creds srv W \<lparr>Token = v, CsrPem = csr\<rparr> st) = Inl e \<and> st_code e = PermissionDenied"
proof -
  obtain e where "snd (agent_Consume W srv v st) = Inl e"
    using agent_Consume_gone [of W srv st v] assms(1,2) by auto
  from Service_Enroll_refused [where Consume = "agent_Consume W srv" and s = st and tok = v, OF this] show ?thesis
    unfolding tls_enroll_conn_Server [OF assms(3)] by (simp add: Server_Enroll_Consume Errorf_def)
qed

lemma join_flow_core:
  assumes "x509_laws X" "json_laws J" "yaml_laws (cli_yaml C)"
    and daemon: "ca_wf X (svc_ca (srv_enroller srv))"
      "ServerCreds X (CertPEM X (svc_ca (srv_enroller srv))) sc sk = Inr creds"
      "srv_tokens srv = NewFileStore (dl_tokens \<lparr>dl_dir = dataDirOf T\<rparr>)"
    and token: "token_new T role ttl s = (s1, Inr v)" "ad_json T = J" "utf8_valid role"
    and enroll: "newClient (endpointFlag C) bootstrapCreds = Inr (tls_enroll_conn X creds srv W)"
      "cli_x509 C = X" "w_x509 W = X" "w_json W = J"
      "agent_enroll C newClient v cn (\<lparr>as_os = s1, as_grants = G\<rparr>, fs) = ((st2, fs2), Inr cfg)"
  shows "w_now W \<le> ad_now T 0 + ttl \<and>
    Config_Load no_faults (cli_yaml C) (credentialFlag C) fs2 = Inr cfg \<and>
    cfg_Endpoints cfg = [endpointFlag C] \<and> cfg_AgentID cfg = svc_agentID (srv_enroller srv) \<and>
    FingerprintPEM X (serverCertPEM (srv_enroller srv)) = Inr (cfg_Fingerprint cfg) \<and>
    (\<exists>cert. Config_ClientTLS X cfg = Inr (zero_tls\<lparr>Certificates := [cert],
        RootCAs := Some [ca_cert (svc_ca (srv_enroller srv))], MinVersion := VersionTLS13\<rparr>) \<and>
      x_GenerateKey X (cli_rnd C) = Inr (PublicKey (tls_leaf cert), tls_key cert) \<and>
      X509KeyPair X (cfg_ClientCert cfg) (cfg_ClientKey cfg) = Inr cert \<and>
      x_CheckSignatureFrom X (ca_cert (svc_ca (srv_enroller srv))) (tls_leaf cert) \<and>
      NotBefore (tls_leaf cert) = to_second (w_now W - time_Minute) \<and>
      NotAfter (tls_leaf cert) = to_second (w_now W + leafValidity (srv_enroller srv)) \<and>
      (\<forall>now. valid_at now (tls_leaf cert) \<and> valid_at now (ca_cert (svc_ca (srv_enroller srv))) \<and>
          client_usage (ca_cert (svc_ca (srv_enroller srv))) \<longrightarrow>
         server_peer X creds now [tls_leaf cert] = Some (TLSInfo [tls_leaf cert])) \<and>
      caller_role (Some (TLSInfo [tls_leaf cert])) = (if rank_of role = 0 then RolePublic else role)) \<and>
    (\<forall>W2 csr. w_json W2 = J \<longrightarrow>
      (\<exists>e. snd (tls_enroll_conn X creds srv W2 \<lparr>Token = v, CsrPem = csr\<rparr> st2) = Inl e \<and> st_code e = PermissionDenied))"
proof -
  let ?svc = "srv_enroller srv" and ?st = "\<lparr>as_os = s1, as_grants = G\<rparr>"
  obtain cn' where tr: "transport_Enroll X (cli_rnd C) newClient None (endpointFlag C) v cn' ?st = (st2, Inr cfg)"
    and sv: "Config_Save (cli_faults C) (cli_yaml C) cfg (credentialFlag C) fs = (fs2, None)"
    using enroll(5) unfolding agent_enroll_def Let_def enroll(2)
    by (auto split: prod.splits sum.splits option.splits if_splits)
  have conn: "newClient (endpointFlag C) bootstrapCreds = Inr (\<lambda>req st.
      case Service_Enroll X (w_rnd W) (w_now W) (agent_Consume W srv) ?svc (CsrPem req) (Token req) st of
        (st', Inl err) \<Rightarrow> (st', Inl (Errorf PermissionDenied ''%s'' [w_enroll_text W err]))
      | (st', Inr res) \<Rightarrow> (st', Inr \<lparr>ClientCertPem = ClientCertPEM res, CaPem = CAPEM res,
          AgentId = res_AgentID res, er_Fingerprint = res_Fingerprint res\<rparr>))"
    unfolding enroll(1) tls_enroll_conn_Server [OF daemon(2)] by (simp add: fun_eq_iff Server_Enroll_Consume enroll(3))
  from enroll_gives_usable_credential_core [OF assms(1) daemon(1) conn tr] obtain r cert serial csr where j:
      "agent_Consume W srv v ?st = (st2, Inr r)" "cfg_Endpoints cfg = [endpointFlag C]"
      "cfg_AgentID cfg = svc_agentID ?svc" "FingerprintPEM X (serverCertPEM ?svc) = Inr (cfg_Fingerprint cfg)"
      "Config_ClientTLS X cfg = Inr (zero_tls\<lparr>Certificates := [cert],
        RootCAs := Some [ca_cert (svc_ca ?svc)], MinVersion := VersionTLS13\<rparr>)"
      "matches_template (leaf_template serial cn' (client_request ?svc csr r) (w_now W)) (x_Public X (tls_key cert)) (tls_leaf cert)"
      "x_CheckSignatureFrom X (ca_cert (svc_ca ?svc)) (tls_leaf cert)"
      "x_GenerateKey X (cli_rnd C) = Inr (PublicKey (tls_leaf cert), tls_key cert)"
      "X509KeyPair X (cfg_ClientCert cfg) (cfg_ClientKey cfg) = Inr cert"
    by blast
  have entry: "token_entry (w_json W) (srv_tokens srv) (as_os ?st) v = Some (role, ad_now T 0 + ttl)"
    using token_new_stored [OF _ token(1,3)] assms(2) token(2) daemon(3) enroll(4) by simp
  have acc: "r = role" "w_now W \<le> ad_now T 0 + ttl" "token_entry J (srv_tokens srv) (as_os st2) v = None"
    using agent_Consume_accepts [OF _ j(1) entry] assms(2) enroll(4) by auto
  have org: "set (Organization (Subject (tls_leaf cert))) = {role}"
    using j(6) acc(1) by (simp add: matches_template_def)
  have "server_peer X creds now [tls_leaf cert] = Some (TLSInfo [tls_leaf cert])"
    if "valid_at now (tls_leaf cert)" "valid_at now (ca_cert (svc_ca ?svc))" "client_usage (ca_cert (svc_ca ?svc))" for now
  proof -
    have "client_usage (tls_leaf cert)" using j(6) by (simp add: client_usage_def matches_template_def)
    with that j(7) server_peer_cases [OF daemon(2)] pem_pool_CertPEM [OF assms(1) daemon(1)] show ?thesis
      by (simp add: verify_client_def)
  qed
  moreover have "caller_role (Some (TLSInfo [tls_leaf cert])) = (if rank_of role = 0 then RolePublic else role)"
    using RoleFromCert_only [OF org] by (simp add: caller_role_def)
  moreover have "\<exists>e. snd (tls_enroll_conn X creds srv W2 \<lparr>Token = v, CsrPem = csr\<rparr> st2) = Inl e \<and> st_code e = PermissionDenied"
    if "w_json W2 = J" for W2 csr
    using spent_token_refused [OF _ _ daemon(2)] acc(3) that assms(2) by simp
  moreover have "NotBefore (tls_leaf cert) = to_second (w_now W - time_Minute)"
      "NotAfter (tls_leaf cert) = to_second (w_now W + leafValidity ?svc)"
    using j(6) by (simp_all add: matches_template_def)
  moreover have "Config_Load no_faults (cli_yaml C) (credentialFlag C) fs2 = Inr cfg"
    using credential_save_load_core [OF assms(3) sv, THEN conjunct1] .
  ultimately show ?thesis using j(2-5,7-9) acc(2) by blast
qed

text \<open>
  C2: joining an agent, from the operator's \<^verbatim>\<open>token new\<close> to a working credential. The token was
  issued by the command line, the daemon serves the same directory, and \<^verbatim>\<open>rexec agent enroll\<close> over
  the bootstrap channel reported success. Then the token had not expired; the credential was
  saved and reads back; it names the endpoint, the agent and its server certificate's
  fingerprint; the TLS configuration made from it trusts exactly the agent's CA and presents a
  certificate signed by it, for the key pair that the controller drew itself from its own random
  source and whose private half the credential keeps; while that certificate and the CA are
  valid (the CA not restricted to another use, as the program's own is not) the daemon accepts it, and gives its bearer exactly the role the token was issued for;
  and the token is spent: another enrollment with it, in any later world, is refused.
\<close>

theorem join_flow:
  assumes "x509_laws X" "json_laws J" "yaml_laws (cli_yaml C)"
    and daemon: "ca_wf X (svc_ca (srv_enroller srv))"
      "ServerCreds X (CertPEM X (svc_ca (srv_enroller srv))) sc sk = Inr creds"
      "srv_tokens srv = NewFileStore (dl_tokens \<lparr>dl_dir = dataDirOf T\<rparr>)"
    and token: "token_new T role ttl s = (s1, Inr v)" "ad_json T = J" "utf8_valid role"
    and enroll: "newClient (endpointFlag C) bootstrapCreds = Inr (tls_enroll_conn X creds srv W)"
      "cli_x509 C = X" "w_x509 W = X" "w_json W = J"
      "agent_enroll C newClient v cn (\<lparr>as_os = s1, as_grants = G\<rparr>, fs) = ((st2, fs2), Inr cfg)"
  shows "w_now W \<le> ad_now T 0 + ttl \<and>
    Config_Load no_faults (cli_yaml C) (credentialFlag C) fs2 = Inr cfg \<and>
    cfg_Endpoints cfg = [endpointFlag C] \<and> cfg_AgentID cfg = svc_agentID (srv_enroller srv) \<and>
    FingerprintPEM X (serverCertPEM (srv_enroller srv)) = Inr (cfg_Fingerprint cfg) \<and>
    (\<exists>cert. Config_ClientTLS X cfg = Inr (zero_tls\<lparr>Certificates := [cert],
        RootCAs := Some [ca_cert (svc_ca (srv_enroller srv))], MinVersion := VersionTLS13\<rparr>) \<and>
      x_GenerateKey X (cli_rnd C) = Inr (PublicKey (tls_leaf cert), tls_key cert) \<and>
      X509KeyPair X (cfg_ClientCert cfg) (cfg_ClientKey cfg) = Inr cert \<and>
      x_CheckSignatureFrom X (ca_cert (svc_ca (srv_enroller srv))) (tls_leaf cert) \<and>
      NotBefore (tls_leaf cert) = to_second (w_now W - time_Minute) \<and>
      NotAfter (tls_leaf cert) = to_second (w_now W + leafValidity (srv_enroller srv)) \<and>
      (\<forall>now. valid_at now (tls_leaf cert) \<and> valid_at now (ca_cert (svc_ca (srv_enroller srv))) \<and>
          client_usage (ca_cert (svc_ca (srv_enroller srv))) \<longrightarrow>
         server_peer X creds now [tls_leaf cert] = Some (TLSInfo [tls_leaf cert])) \<and>
      caller_role (Some (TLSInfo [tls_leaf cert])) = (if rank_of role = 0 then RolePublic else role)) \<and>
    (\<forall>W2 csr. w_json W2 = J \<longrightarrow>
      (\<exists>e. snd (tls_enroll_conn X creds srv W2 \<lparr>Token = v, CsrPem = csr\<rparr> st2) = Inl e \<and> st_code e = PermissionDenied))"
  by (rule join_flow_core [OF assms])

section \<open>The properties at concrete inputs\<close>

definition role_cert :: "string \<Rightarrow> certificate" where
  "role_cert r = zero_certificate\<lparr>Subject := \<lparr>CommonName = ''ctl'', Organization = [r]\<rparr>, ExtKeyUsage := [ExtKeyUsageClientAuth]\<rparr>"

abbreviation peer_of :: "string \<Rightarrow> grpc_context" where
  "peer_of r \<equiv> Some (TLSInfo [role_cert r])"

lemma peer_of_role: "rank_of r \<noteq> 0 \<Longrightarrow> caller_role (peer_of r) = r"
  by (simp add: caller_role_def role_cert_def RoleFromCert_def rank_table_rank)

lemma demo_tls:
  obtains caPEM sc sk creds where "ServerCreds plain_x509 caPEM sc sk = Inr creds"
    "\<And>r. server_peer plain_x509 creds 0 [role_cert r] = Some (TLSInfo [role_cert r])"
proof (rule demo_stack)
  fix svc :: Service and csr key sc sk cfg
  assume wf: "ca_wf plain_x509 (svc_ca svc)" and v: "valid_at 0 (ca_cert (svc_ca svc))" "client_usage (ca_cert (svc_ca svc))"
    and cfg: "ServerCreds plain_x509 (CertPEM plain_x509 (svc_ca svc)) sc sk = Inr cfg"
  have "verify_client plain_x509 [ca_cert (svc_ca svc)] 0 (role_cert r)" for r
    using wf v by (simp add: verify_client_def client_usage_def valid_at_def role_cert_def zero_certificate_def plain_x509_def ca_wf_def)
  then have "server_peer plain_x509 cfg 0 [role_cert r] = Some (TLSInfo [role_cert r])" for r
    using server_peer_cases [OF cfg] pem_pool_CertPEM [OF plain_x509_laws wf] by simp
  with cfg show thesis by (rule that)
qed

lemma demo_stream_peer: "(good_stream ctx)\<lparr>ss_Context := c\<rparr> = good_stream c"
  by (simp add: good_stream_def)

lemma demo_with_peer:
  "with_peer (TLSInfo [role_cert r]) (demo_call x now rpc) =
     \<lparr>call_world = demo_world one_liner now, call_stream = good_stream (peer_of r), call_rpc = rpc\<rparr>"
  by (simp add: with_peer_def demo_call_def demo_stream_peer)

theorem machine_needs_certificate_witness:
  "\<exists>ca. x_CheckSignatureFrom plain_x509 ca (role_cert RoleOperator)"
proof (rule demo_tls)
  fix caPEM sc sk creds
  assume creds: "ServerCreds plain_x509 caPEM sc sk = Inr creds"
    and peer: "\<And>r. server_peer plain_x509 creds 0 [role_cert r] = Some (TLSInfo [role_cert r])"
  let ?c = "demo_call RoleOperator 0 (RpcRun (exec_request ''kubectl'' [] []))"
  have gate: "gate_verdict AgentTable (peer_of RoleOperator) m_Run = None"
    by (simp add: admitted_roles peer_of_role)
  have w: "call_world ?c = demo_world one_liner 0" by (simp add: demo_call_def)
  have "tls_call plain_x509 creds (demo_server ask_policy) [role_cert RoleOperator] ?c fresh_agent \<noteq>
      tls_call plain_x509 creds (demo_server ask_policy) [role_cert RoleOperator] (with_exec failing_exec ?c) fresh_agent"
    using peer gate
    by (simp add: tls_call_peer w with_peer_exec [symmetric] demo_with_peer)
       (simp add: with_exec_def serve_call_def handlers_via_gate Server_Run_def demo_stream_differs)
  from machine_needs_certificate [OF creds this] show ?thesis by auto
qed

lemma demo_asked:
  assumes "\<And>r. server_peer plain_x509 creds 0 [role_cert r] = Some (TLSInfo [role_cert r])"
  shows "fst (serve_loop plain_x509 creds (demo_server ask_policy)
      [Incoming [role_cert RoleAdmin] (demo_call RoleAdmin 0 (RpcDeploy (exec_request ''kubectl'' [] [])))] fresh_agent) =
    fresh_agent\<lparr>as_grants := [demo_approval \<mapsto> \<lparr>g_command = ''kubectl'', g_expiry = 300 * time_Second\<rparr>]\<rparr>"
proof -
  have "gate_verdict AgentTable (peer_of RoleAdmin) m_Deploy = None" by (simp add: admitted_roles peer_of_role)
  moreover have "call_world (demo_call RoleAdmin 0 r) = demo_world one_liner 0" for r by (simp add: demo_call_def)
  ultimately show ?thesis
    using assms
    by (simp add: tls_call_peer demo_with_peer serve_call_def handlers_via_gate Server_Deploy_def demo_asks
        Grants_Issue_def demo_randID stream_Send_good nothing_sent_def approvalTTL_def time_Minute_def NewGrants_def)
qed

theorem destructive_needs_admin_certificate_witness:
  "\<exists>caPEM. admin_certificate plain_x509 caPEM 0 [role_cert RoleAdmin]"
proof (rule demo_tls)
  fix caPEM sc sk creds
  assume creds: "ServerCreds plain_x509 caPEM sc sk = Inr creds"
    and peer: "\<And>r. server_peer plain_x509 creds 0 [role_cert r] = Some (TLSInfo [role_cert r])"
  let ?c = "demo_call RoleAdmin 0 (RpcDeploy (exec_request ''kubectl'' [''delete''] demo_approval))"
  let ?es = "[Incoming [role_cert RoleAdmin] (demo_call RoleAdmin 0 (RpcDeploy (exec_request ''kubectl'' [] [])))]"
  have gate: "gate_verdict AgentTable (peer_of RoleAdmin) m_Deploy = None"
    by (simp add: admitted_roles peer_of_role)
  have w: "call_world ?c = demo_world one_liner 0" by (simp add: demo_call_def)
  have aid: "demo_approval \<noteq> []" by (simp add: demo_approval_def)
  have ne: "tls_call plain_x509 creds (demo_server ask_policy) [role_cert RoleAdmin] ?c
        (fst (serve_loop plain_x509 creds (demo_server ask_policy) ?es fresh_agent)) \<noteq>
      tls_call plain_x509 creds (demo_server ask_policy) [role_cert RoleAdmin] (with_exec failing_exec ?c)
        (fst (serve_loop plain_x509 creds (demo_server ask_policy) ?es fresh_agent))"
    unfolding demo_asked [OF peer]
    using peer gate aid
    by (simp add: tls_call_peer w with_peer_exec [symmetric] demo_with_peer)
       (simp add: with_exec_def serve_call_def handlers_via_gate Server_Deploy_def Grants_Consume_def
         time_Second_def demo_stream_differs)
  have "as_grants fresh_agent = NewGrants" "call_rpc ?c = RpcDeploy (exec_request ''kubectl'' [''delete''] demo_approval)"
    by (simp_all add: demo_call_def)
  from destructive_needs_admin_certificate [OF creds this ne] show ?thesis unfolding w by auto
qed

text \<open>The demonstration daemon on its initialised directory.\<close>

lemma demo_daemon:
  obtains s fp creds sk and srv :: Server where "ca_init demo_agentd False empty_os = (s, Inr (sample_uuid, fp))"
    "serve_load demo_agentd ''/d'' ''dev'' s = (s, Inr (creds, srv))"
    "srv_tokens srv = NewFileStore (dl_tokens \<lparr>dl_dir = ''/d''\<rparr>)" "ca_wf plain_x509 (svc_ca (srv_enroller srv))"
    "FingerprintPEM plain_x509 (serverCertPEM (srv_enroller srv)) = Inr fp"
    "ServerCreds plain_x509 (CertPEM plain_x509 (svc_ca (srv_enroller srv))) (serverCertPEM (srv_enroller srv)) sk = Inr creds"
proof (rule demo_init)
  fix s fp
  assume s: "ca_init demo_agentd False empty_os = (s, Inr (sample_uuid, fp))"
  have pol: "policy_Load no_faults (ad_yaml demo_agentd) (dl_policy \<lparr>dl_dir = ''/d''\<rparr>) empty_os = Inr policy_Default"
    by (simp add: policy_Load_def is_ErrNotExist_def file_data_def empty_os_def)
  have h: "x509_laws (ad_x509 demo_agentd)" "uuid_text (ad_uuid demo_agentd)" "ad_x509 demo_agentd = ad_x509 demo_agentd"
    "ad_faults demo_agentd = no_faults" "''/d'' = dataDirOf demo_agentd"
    using plain_x509_laws sample_uuid_text by simp_all
  from init_then_load [OF h(1,2) s h(3-5) pol, of "''dev''"] obtain creds srv sk where
    "serve_load demo_agentd ''/d'' ''dev'' s = (s, Inr (creds, srv))"
    "srv_tokens srv = NewFileStore (dl_tokens \<lparr>dl_dir = ''/d''\<rparr>)" "ca_wf (ad_x509 demo_agentd) (svc_ca (srv_enroller srv))"
    "FingerprintPEM (ad_x509 demo_agentd) (serverCertPEM (srv_enroller srv)) = Inr fp"
    "ServerCreds (ad_x509 demo_agentd) (CertPEM (ad_x509 demo_agentd) (svc_ca (srv_enroller srv))) (serverCertPEM (srv_enroller srv)) sk = Inr creds"
    by blast
  with s show thesis by (intro that) simp_all
qed

theorem daemon_invariant_witness:
  "\<exists>creds. daemon_inv plain_json (demo_server ask_policy) (fst (serve_loop plain_x509 creds (demo_server ask_policy)
     [Incoming [role_cert RoleAdmin] (demo_call RoleAdmin 0 (RpcDeploy (exec_request ''kubectl'' [] [])))] fresh_agent))"
proof -
  have "daemon_inv plain_json (demo_server ask_policy) fresh_agent"
    by (simp add: daemon_inv_def stored_empty_os NewGrants_def)
  from daemon_invariant [OF plain_json_laws this, of "[Incoming [role_cert RoleAdmin]
      (demo_call RoleAdmin 0 (RpcDeploy (exec_request ''kubectl'' [] [])))]"]
  show ?thesis by (simp add: demo_call_def del: serve_loop.simps)
qed

text \<open>The whole way of joining on the demonstration machines.\<close>

definition demo_joining :: cli where
  "demo_joining = \<lparr>cli_credential = ''/c'', cli_endpoint = ''agent:50000'', cli_home = None, cli_hostname = ''ctl'',
     cli_os = empty_os, cli_faults = no_faults, cli_yaml = plain_yaml, cli_x509 = plain_x509, cli_rnd = demo_rnd\<rparr>"

lemma demo_token_new:
  assumes "os_files s (dl_tokens \<lparr>dl_dir = ''/d''\<rparr>) = None"
  obtains s1 where "token_new demo_agentd ''rex:admin'' 600 s = (s1, Inr demo_token)"
    "stored plain_json (NewFileStore (dl_tokens \<lparr>dl_dir = ''/d''\<rparr>)) s1 = Some [demo_token \<mapsto> \<lparr>Role = ''rex:admin'', Expiry = 700\<rparr>]"
proof -
  let ?m = "[demo_token \<mapsto> \<lparr>Role = ''rex:admin'', Expiry = 700\<rparr>]" and ?st = "NewFileStore (dl_tokens \<lparr>dl_dir = ''/d''\<rparr>)"
  have "utf8_valid demo_token" using token_randToken_utf8 [OF demo_randToken] .
  moreover have "is_ascii ''rex:admin''" by (simp add: is_ascii_def)
  ultimately have ok: "finite (dom ?m)" "json_text ?m" "json_times ?m"
    by (auto simp: json_text_def json_times_def json_instant_small)
  have fn: "issue_fn demo_token ''rex:admin'' 600 100 Map.empty = (?m, Inr ())"
    by (simp add: issue_fn_def)
  have "stored plain_json ?st s = Some Map.empty"
    using assms by (simp add: stored_def file_data_def NewFileStore_def)
  from FileStore_mutate_no_faults [where fn = "issue_fn demo_token ''rex:admin'' 600 100",
      OF plain_json_laws this fn ok]
  show thesis using that by (auto simp: token_new_def FileStore_Issue_def demo_randToken Let_def)
qed

lemma demo_consume:
  assumes "stored plain_json st s = Some [demo_token \<mapsto> \<lparr>Role = ''rex:admin'', Expiry = 700\<rparr>]"
  obtains s' where "FileStore_Consume no_faults plain_json st demo_token 650 s = (s', Inr ''rex:admin'')"
proof -
  have fn: "consume_fn demo_token 650 [demo_token \<mapsto> \<lparr>Role = ''rex:admin'', Expiry = 700\<rparr>] =
      (Map.empty, Inr ''rex:admin'')"
    by (simp add: consume_fn_def fun_upd_idem)
  have ok: "finite (dom Map.empty)" "json_text Map.empty" "json_times Map.empty"
    by (simp_all add: json_text_def json_times_def)
  from FileStore_mutate_no_faults [where fn = "consume_fn demo_token 650", OF plain_json_laws assms fn ok]
  show thesis using that by (auto simp: FileStore_Consume_def)
qed

lemma demo_enroll:
  fixes srv :: Server
  assumes "agent_Consume (demo_world one_liner 650) srv v st = (st2, Inr role)"
    and "FingerprintPEM plain_x509 (serverCertPEM (srv_enroller srv)) = Inr fp"
    and "newClient ''agent:50000'' bootstrapCreds = Inr (Server_Enroll (demo_world one_liner 650) srv)"
  obtains fs2 cfg where "agent_enroll demo_joining newClient v ''ctl'' (st, empty_os) = ((st2, fs2), Inr cfg)"
proof -
  obtain csr key where csr: "NewCSR plain_x509 demo_rnd ''ctl'' = Inr (csr, key)" using plain_NewCSR by blast
  then have "NewCSR plain_x509 demo_rnd ''ctl'' = Inr (CSRPEM (client_request (srv_enroller srv) csr role), key)" by simp
  from plain_Sign [OF this] obtain p where
    "Sign plain_x509 demo_rnd 650 (svc_ca (srv_enroller srv)) (client_request (srv_enroller srv) csr role) = Inr p" by blast
  then obtain resp where resp: "Server_Enroll (demo_world one_liner 650) srv \<lparr>Token = v, CsrPem = csr\<rparr> st = (st2, Inr resp)"
    using assms(1,2) by (simp add: Server_Enroll_Consume Service_Enroll_def)
  then obtain cfg where cfg: "transport_Enroll plain_x509 demo_rnd newClient None ''agent:50000'' v ''ctl'' st = (st2, Inr cfg)"
    using csr assms(3) by (simp add: transport_Enroll_def dialBootstrap_def)
  have "filepath_Dir ''/c'' = ''/''" by code_simp
  then obtain fs2 where "Config_Save no_faults plain_yaml cfg ''/c'' empty_os = (fs2, None)"
    by (simp add: Config_Save_def plain_yaml_def os_MkdirAll_def os_WriteFile_def dir_exists_def)
  with cfg show thesis
    by (intro that) (simp add: agent_enroll_def demo_joining_def endpointFlag_def credentialFlag_def Let_def)
qed

theorem join_flow_witness:
  "\<exists>(cfg :: Config) (cert :: tls_certificate). cfg_Endpoints cfg = [''agent:50000''] \<and>
     caller_role (Some (TLSInfo [tls_leaf cert])) = RoleAdmin"
proof (rule demo_daemon)
  fix s fp creds sk and srv :: Server
  let ?d = "\<lparr>dl_dir = ''/d''\<rparr>" and ?W = "demo_world one_liner 650"
  assume s: "ca_init demo_agentd False empty_os = (s, Inr (sample_uuid, fp))"
    and l: "srv_tokens srv = NewFileStore (dl_tokens ?d)" "ca_wf plain_x509 (svc_ca (srv_enroller srv))"
      "FingerprintPEM plain_x509 (serverCertPEM (srv_enroller srv)) = Inr fp"
      "ServerCreds plain_x509 (CertPEM plain_x509 (svc_ca (srv_enroller srv))) (serverCertPEM (srv_enroller srv)) sk = Inr creds"
  have "os_files s (dl_tokens ?d) = None"
    using ca_init_frame [OF s refl, of "dl_tokens ?d"] layout_distinct [of ?d] by (auto simp: empty_os_def)
  then obtain s1 where t: "token_new demo_agentd ''rex:admin'' 600 s = (s1, Inr demo_token)"
      "stored plain_json (NewFileStore (dl_tokens ?d)) s1 = Some [demo_token \<mapsto> \<lparr>Role = ''rex:admin'', Expiry = 700\<rparr>]"
    by (rule demo_token_new)
  let ?st = "\<lparr>as_os = s1, as_grants = NewGrants\<rparr>"
  obtain s2 where "FileStore_Consume no_faults plain_json (srv_tokens srv) demo_token 650 s1 = (s2, Inr ''rex:admin'')"
    using demo_consume [OF t(2)] l(1) by metis
  then have c: "agent_Consume ?W srv demo_token ?st = (?st\<lparr>as_os := s2\<rparr>, Inr ''rex:admin'')"
    by (simp add: agent_Consume_def)
  let ?new = "\<lambda>_ _. Inr (tls_enroll_conn plain_x509 creds srv ?W)"
  have "?new ''agent:50000'' bootstrapCreds = Inr (Server_Enroll ?W srv)"
    by (simp add: tls_enroll_conn_Server [OF l(4)])
  from demo_enroll [OF c l(3) this] obtain fs2 cfg where
    e: "agent_enroll demo_joining ?new demo_token ''ctl'' (?st, empty_os) = ((?st\<lparr>as_os := s2\<rparr>, fs2), Inr cfg)"
    by blast
  have x: "yaml_laws (cli_yaml demo_joining)" "cli_x509 demo_joining = plain_x509" "endpointFlag demo_joining = ''agent:50000''"
    "utf8_valid ''rex:admin''"
    using plain_yaml_laws is_ascii_utf8 [of "''rex:admin''"]
    by (simp_all add: demo_joining_def endpointFlag_def is_ascii_def)
  have f: "srv_tokens srv = NewFileStore (dl_tokens \<lparr>dl_dir = dataDirOf demo_agentd\<rparr>)"
      "ad_json demo_agentd = plain_json" "w_x509 ?W = plain_x509" "w_json ?W = plain_json"
    using l(1) by simp_all
  note j = join_flow [where W = ?W and newClient = ?new,
      OF plain_x509_laws plain_json_laws x(1) l(2,4) f(1) t(1) f(2) x(4) refl x(2) f(3,4) e]
  have "\<exists>cert :: tls_certificate. caller_role (Some (TLSInfo [tls_leaf cert])) = (if rank_of ''rex:admin'' = 0 then RolePublic else ''rex:admin'')"
    using j by (elim conjE exE) (rule exI, assumption)
  moreover have "cfg_Endpoints cfg = [endpointFlag demo_joining]" using j by (elim conjE)
  moreover have "''rex:admin'' = RoleAdmin" by (simp add: role_defs)
  ultimately show ?thesis using x(3) by (intro exI [of _ cfg]) simp
qed

end
