(* ===== verification/Service_Control.thy ===== *)
theory Service_Control
  imports Daemon
begin

text \<open>
  \<^verbatim>\<open>cmd/rexec-agentd/servicecmds.go\<close>: the daemon as an OS service. \<^verbatim>\<open>Start\<close> spawns a goroutine that
  serves and then closes a channel; \<^verbatim>\<open>Stop\<close> cancels the context and waits for the channel. The
  two run against each other, so they are a step relation. The service manager
  (\<^verbatim>\<open>kardianos/service\<close>) is a parameter of the commands.
\<close>

section \<open>The program\<close>

text \<open>
  Contexts and channels are numbered by the \<^verbatim>\<open>Start\<close> that made them; nil is \<open>None\<close>.
\<close>

record program =
  p_dataDir :: string
  p_listen :: string
  p_version :: string
  p_cancel :: "nat option"
  p_done :: "nat option"

definition new_program :: "string \<Rightarrow> string \<Rightarrow> string \<Rightarrow> program" where
  "new_program dataDir listen version =
     \<lparr>p_dataDir = dataDir, p_listen = listen, p_version = version, p_cancel = None, p_done = None\<rparr>"

text \<open>
  The process: the program, how many times it was started, the contexts that were cancelled, the
  goroutines still serving, the channels that are closed, and where the caller of \<^verbatim>\<open>Stop\<close> is.
\<close>

datatype stopper = NotStopping | Waiting nat | Returned

record process =
  prog :: program
  starts :: nat
  cancelled :: "nat set"
  serving :: "nat set"
  closed :: "nat set"
  stopper :: stopper

definition new_process :: "program \<Rightarrow> process" where
  "new_process p = \<lparr>prog = p, starts = 0, cancelled = {}, serving = {}, closed = {}, stopper = NotStopping\<rparr>"

definition program_Start :: "process \<Rightarrow> process" where
  "program_Start s =
     s\<lparr>prog := (prog s)\<lparr>p_cancel := Some (starts s), p_done := Some (starts s)\<rparr>,
       serving := insert (starts s) (serving s), starts := starts s + 1\<rparr>"

text \<open>\<^verbatim>\<open>Stop\<close> up to where it has to wait, if it has.\<close>

definition program_Stop :: "process \<Rightarrow> process" where
  "program_Stop s =
     s\<lparr>cancelled := (case p_cancel (prog s) of None \<Rightarrow> cancelled s | Some c \<Rightarrow> insert c (cancelled s)),
       stopper := (case p_done (prog s) of None \<Rightarrow> Returned | Some d \<Rightarrow> Waiting d)\<rparr>"

text \<open>The end of a goroutine: \<^verbatim>\<open>serveAgent\<close> has returned and the deferred close runs.\<close>

definition serve_exit :: "nat \<Rightarrow> process \<Rightarrow> process" where
  "serve_exit i s = s\<lparr>serving := serving s - {i}, closed := insert i (closed s)\<rparr>"

text \<open>
  The manager starts and stops; a goroutine can end at any time on its own, with an error of the
  listener or of loading; a waiting \<^verbatim>\<open>Stop\<close> returns when its channel is closed.
\<close>

inductive svc_step :: "process \<Rightarrow> process \<Rightarrow> bool" where
  svc_start: "stopper s = NotStopping \<Longrightarrow> svc_step s (program_Start s)"
| svc_stop: "stopper s = NotStopping \<Longrightarrow> svc_step s (program_Stop s)"
| svc_exit: "i \<in> serving s \<Longrightarrow> svc_step s (serve_exit i s)"
| svc_return: "stopper s = Waiting d \<Longrightarrow> d \<in> closed s \<Longrightarrow> svc_step s (s\<lparr>stopper := Returned\<rparr>)"

inductive svc_reachable :: "program \<Rightarrow> process \<Rightarrow> bool" for p where
  svc_init: "svc_reachable p (new_process (p\<lparr>p_cancel := None, p_done := None\<rparr>))"
| svc_next: "svc_reachable p s \<Longrightarrow> svc_step s t \<Longrightarrow> svc_reachable p t"

inductive_cases svc_stepE: "svc_step s t"

section \<open>The commands\<close>

record service_config =
  sc_Name :: string
  sc_DisplayName :: string
  sc_Description :: string
  sc_Arguments :: "string list"

definition agent_service_config :: "string \<Rightarrow> string \<Rightarrow> service_config" where
  "agent_service_config dataDir listen =
     \<lparr>sc_Name = ''rexec-agentd'',
      sc_DisplayName = ''rexec-agentd (remote-exec agent)'',
      sc_Description = ''Secure cross-OS remote execution agent (mTLS gRPC).'',
      sc_Arguments = [''service'', ''run'', ''--data-dir'', dataDir, ''--listen'', listen]\<rparr>"

datatype service_status = StatusUnknown | StatusRunning | StatusStopped

text \<open>The methods of a \<^verbatim>\<open>service.Service\<close> on the state of the machine's service manager.\<close>

record 'm service =
  svc_Install :: "'m \<Rightarrow> 'm \<times> string option"
  svc_Uninstall :: "'m \<Rightarrow> 'm \<times> string option"
  svc_Start :: "'m \<Rightarrow> 'm \<times> string option"
  svc_Stop :: "'m \<Rightarrow> 'm \<times> string option"
  svc_Status :: "'m \<Rightarrow> string + service_status"
  svc_Run :: "'m \<Rightarrow> 'm \<times> string option"

definition newAgentService ::
  "(program \<Rightarrow> service_config \<Rightarrow> string + 'm service) \<Rightarrow> string \<Rightarrow> string \<Rightarrow> string \<Rightarrow> string + 'm service" where
  "newAgentService service_New dataDir listen version =
     service_New (new_program dataDir listen version) (agent_service_config dataDir listen)"

definition statusString :: "service_status \<Rightarrow> string" where
  "statusString s = (case s of StatusRunning \<Rightarrow> ''running'' | StatusStopped \<Rightarrow> ''stopped''
     | StatusUnknown \<Rightarrow> ''unknown (not installed?)'')"

datatype service_cmd = SInstall | SUninstall | SStart | SStop | SStatus | SRun

text \<open>One subcommand: the manager's state after it, its error, and what it prints.\<close>

definition service_command ::
  "(program \<Rightarrow> service_config \<Rightarrow> string + 'm service) \<Rightarrow> agentd \<Rightarrow> string \<Rightarrow> service_cmd \<Rightarrow>
   'm \<Rightarrow> 'm \<times> (string + string)" where
  "service_command service_New A version c m =
     (case newAgentService service_New (dataDirOf A) (listenOf A) version of
        Inl err \<Rightarrow> (m, Inl err)
      | Inr svc \<Rightarrow>
          (let act = (\<lambda>f. case f m of (m', Some err) \<Rightarrow> (m', Inl err) | (m', None) \<Rightarrow> (m', Inr [])) in
           case c of
             SInstall \<Rightarrow> act (svc_Install svc)
           | SUninstall \<Rightarrow> act (svc_Uninstall svc)
           | SStart \<Rightarrow> act (svc_Start svc)
           | SStop \<Rightarrow> act (svc_Stop svc)
           | SRun \<Rightarrow> act (svc_Run svc)
           | SStatus \<Rightarrow>
               (case svc_Status svc m of Inl err \<Rightarrow> (m, Inl err) | Inr st \<Rightarrow> (m, Inr (statusString st)))))"

section \<open>Invariant\<close>

text \<open>
  Every start has exactly one goroutine, serving or with its channel closed; the program holds
  the context and the channel of the latest start; and whoever waits, waits for that one, whose
  context it has cancelled.
\<close>

definition svc_inv :: "process \<Rightarrow> bool" where
  "svc_inv s \<longleftrightarrow>
     serving s \<union> closed s = {..<starts s} \<and> serving s \<inter> closed s = {} \<and>
     p_cancel (prog s) = (if starts s = 0 then None else Some (starts s - 1)) \<and>
     p_done (prog s) = p_cancel (prog s) \<and>
     (\<forall>d. stopper s = Waiting d \<longrightarrow> p_done (prog s) = Some d \<and> d \<in> cancelled s) \<and>
     (stopper s = Returned \<longrightarrow> (\<forall>d. p_done (prog s) = Some d \<longrightarrow> d \<in> closed s \<and> d \<in> cancelled s))"

lemma svc_inv_init: "svc_inv (new_process (p\<lparr>p_cancel := None, p_done := None\<rparr>))"
  by (simp add: svc_inv_def new_process_def)

lemma svc_inv_step: "svc_step s t \<Longrightarrow> svc_inv s \<Longrightarrow> svc_inv t"
proof (induction rule: svc_step.induct)
  case (svc_start s)
  then show ?case
    by (auto simp: svc_inv_def program_Start_def lessThan_Suc set_eq_iff)
next
  case (svc_stop s)
  then show ?case by (auto simp: svc_inv_def program_Stop_def split: option.splits if_splits)
next
  case (svc_exit i s)
  then show ?case by (auto simp: svc_inv_def serve_exit_def)
next
  case (svc_return s d)
  then show ?case by (auto simp: svc_inv_def)
qed

lemma svc_reachable_inv: "svc_reachable p s \<Longrightarrow> svc_inv s"
  by (induction rule: svc_reachable.induct) (auto intro: svc_inv_init svc_inv_step)

text \<open>The steps a waiting \<^verbatim>\<open>Stop\<close> is away from its return.\<close>

definition stop_distance :: "process \<Rightarrow> nat" where
  "stop_distance s = (case stopper s of Waiting d \<Rightarrow> Suc (card (serving s)) | _ \<Rightarrow> 0)"

lemma svc_inv_finite: "svc_inv s \<Longrightarrow> finite (serving s)"
  unfolding svc_inv_def by (metis finite_Un finite_lessThan)

lemma stop_distance_step:
  "svc_step s t \<Longrightarrow> svc_inv s \<Longrightarrow> stopper s = Waiting d \<Longrightarrow> stop_distance t < stop_distance s"
proof (erule svc_stepE)
  fix i
  assume "svc_inv s" "stopper s = Waiting d" "t = serve_exit i s" "i \<in> serving s"
  then show "stop_distance t < stop_distance s"
    using card_Diff1_less [OF svc_inv_finite] by (auto simp: stop_distance_def serve_exit_def)
qed (auto simp: stop_distance_def)

section \<open>Properties\<close>

text \<open>
  C31: \<^verbatim>\<open>Stop\<close> leaves nothing behind: in every reachable state, whenever \<^verbatim>\<open>Stop\<close> has returned, the
  server of the latest \<^verbatim>\<open>Start\<close> was told to stop and has ended; whoever still serves belongs to an
  earlier start (so nobody does if the manager started once), and a goroutine is never both
  serving and finished.
\<close>

theorem stop_waits_for_server:
  assumes "svc_reachable p s" "stopper s = Returned"
  shows "(\<forall>d. p_done (prog s) = Some d \<longrightarrow> d \<notin> serving s \<and> d \<in> cancelled s) \<and>
    (starts s \<le> 1 \<longrightarrow> serving s = {}) \<and> serving s \<inter> closed s = {}"
proof -
  have inv: "svc_inv s" using svc_reachable_inv [OF assms(1)] .
  then have parts: "serving s \<union> closed s = {..<starts s}" "serving s \<inter> closed s = {}"
      "p_done (prog s) = (if starts s = 0 then None else Some (starts s - 1))"
      "\<forall>d. p_done (prog s) = Some d \<longrightarrow> d \<in> closed s \<and> d \<in> cancelled s"
    using assms(2) by (simp_all add: svc_inv_def)
  have "serving s = {}" if "starts s \<le> 1"
  proof -
    from that consider "starts s = 0" | "starts s = 1" by linarith
    then show ?thesis
    proof cases
      case 2
      with parts have "0 \<in> closed s" "serving s \<subseteq> {0}" by auto
      with parts(2) show ?thesis by blast
    qed (use parts in simp)
  qed
  with parts show ?thesis by blast
qed

text \<open>
  C29: \<^verbatim>\<open>Stop\<close> returns. In every reachable state where it waits, the server it waits for has its
  context cancelled; if that server still serves then its end is a possible step, and \<^verbatim>\<open>serveAgent\<close>
  does end on a cancelled context, after any calls, when those it had accepted are done and
  \<^verbatim>\<open>GracefulStop\<close> returns; if it has ended, the return is a possible
  step. Every step there is, of whatever goroutine, brings the return nearer, and there are at most
  as many as there are servers, plus one: no schedule that lets cancelled servers end keeps it
  waiting.
\<close>

theorem stop_returns:
  assumes "svc_reachable p s" "stopper s = Waiting d"
  shows "d \<in> cancelled s \<and> (\<exists>t. svc_step s t \<and> (stopper t = Returned \<or> t = serve_exit d s)) \<and>
    (\<forall>t. svc_step s t \<longrightarrow> stop_distance t < stop_distance s) \<and> stop_distance s \<le> Suc (starts s) \<and>
    snd (serve_loop X creds srv (map (\<lambda>(certs, c). Incoming certs c) calls @ CtxDone #
      map (\<lambda>(certs, c). Incoming certs c) accepted @ GracefulStopped # rest) st) = Some None"
proof (intro conjI allI impI)
  have inv: "svc_inv s" using svc_reachable_inv [OF assms(1)] .
  then have d: "d \<in> cancelled s" "d \<in> serving s \<union> closed s"
    using assms(2) by (auto simp: svc_inv_def split: if_splits)
  then show "d \<in> cancelled s" by simp
  show "\<exists>t. svc_step s t \<and> (stopper t = Returned \<or> t = serve_exit d s)"
  proof (cases "d \<in> closed s")
    case True
    from svc_return [OF assms(2) this] show ?thesis by (intro exI conjI) auto
  next
    case False
    with d svc_exit show ?thesis by blast
  qed
  show "stop_distance t < stop_distance s" if "svc_step s t" for t
    using stop_distance_step [OF that inv assms(2)] .
  have "card (serving s) \<le> card {..<starts s}"
    by (rule card_mono) (use inv in \<open>auto simp: svc_inv_def\<close>)
  then show "stop_distance s \<le> Suc (starts s)" using assms(2) by (simp add: stop_distance_def)
  have "snd (serve_drain X creds srv (map (\<lambda>(certs, c). Incoming certs c) accepted @ GracefulStopped # rest) st) = Some None" for st
    by (induction accepted arbitrary: st) auto
  then show "snd (serve_loop X creds srv (map (\<lambda>(certs, c). Incoming certs c) calls @ CtxDone #
      map (\<lambda>(certs, c). Incoming certs c) accepted @ GracefulStopped # rest) st) = Some None"
    by (induction calls arbitrary: st) auto
qed

lemma filepath_Clean_ne: "filepath_Clean p \<noteq> []"
proof -
  obtain r es where c: "clean_list r es" "filepath_Clean p = render_path r es"
    using filepath_Clean_clean by blast
  have "strings_Join es x \<noteq> []" if "es \<noteq> []" for x
    using that clean_list_elem [OF c(1)] strings_Join_ne by (cases es) auto
  with c(2) show ?thesis by (simp add: render_path_def)
qed

lemma listenOf_ne: "listenOf A \<noteq> []"
  by (simp add: listenOf_def)

text \<open>
  Fact: what \<^verbatim>\<open>service install\<close> registers is what \<^verbatim>\<open>service run\<close> serves: the program is built with the
  data directory and the address of the flags, and the arguments given to the service manager
  carry the same two, so that the command they spell resolves to the same directory and address
  wherever the manager runs it.
\<close>

theorem service_arguments_resolve:
  "sc_Arguments (agent_service_config (dataDirOf A) (listenOf A)) =
     [''service'', ''run'', ''--data-dir'', dataDirOf A, ''--listen'', listenOf A] \<and>
   dataDirOf (B\<lparr>ad_data_dir := dataDirOf A, ad_listen := listenOf A\<rparr>) =
     dataDirOf A \<and>
   listenOf (B\<lparr>ad_data_dir := dataDirOf A, ad_listen := listenOf A\<rparr>) = listenOf A \<and>
   dataDirOf A \<noteq> []"
proof -
  have ne: "dataDirOf A \<noteq> []"
    by (auto simp: dataDirOf_def defaultDataDir_def filepath_Clean_ne filepath_Join_def split: option.splits)
  have "defaultDataDir (B\<lparr>ad_data_dir := x, ad_listen := y\<rparr>) = defaultDataDir B" for x y
    by (simp add: defaultDataDir_def)
  with ne show ?thesis
    by (simp add: agent_service_config_def dataDirOf_def [of "B\<lparr>ad_data_dir := x, ad_listen := y\<rparr>" for x y]
        listenOf_def [of "B\<lparr>ad_data_dir := x, ad_listen := y\<rparr>" for x y] listenOf_ne)
qed

section \<open>The properties at concrete inputs\<close>

text \<open>Started once, stopped, its server ended, the stop returned.\<close>

abbreviation demo_program :: program where
  "demo_program \<equiv> new_program ''/d'' ''127.0.0.1:50000'' ''dev''"

definition demo_waiting :: process where
  "demo_waiting = program_Stop (program_Start (new_process demo_program))"

lemma demo_waiting_reachable: "svc_reachable demo_program demo_waiting" "stopper demo_waiting = Waiting 0" "serving demo_waiting = {0}"
proof -
  have "svc_reachable demo_program (new_process demo_program)"
    using svc_init [of demo_program] by (simp add: new_program_def)
  from svc_next [OF this svc_start] have "svc_reachable demo_program (program_Start (new_process demo_program))"
    by (simp add: new_process_def)
  from svc_next [OF this svc_stop] show "svc_reachable demo_program demo_waiting"
    by (simp add: new_process_def program_Start_def demo_waiting_def)
qed (simp_all add: demo_waiting_def program_Stop_def program_Start_def new_process_def)

theorem stop_returns_witness:
  "0 \<in> cancelled demo_waiting \<and> stop_distance demo_waiting \<le> Suc (starts demo_waiting)"
  using stop_returns [OF demo_waiting_reachable(1,2)] by blast

theorem stop_waits_for_server_witness:
  "serving (serve_exit 0 demo_waiting) = {} \<and> 0 \<in> cancelled (serve_exit 0 demo_waiting)"
proof -
  let ?s = "serve_exit 0 demo_waiting"
  have "svc_reachable demo_program ?s"
    using svc_next [OF demo_waiting_reachable(1) svc_exit] demo_waiting_reachable(3) by simp
  moreover have st: "stopper ?s = Waiting 0" "0 \<in> closed ?s" "starts ?s = 1" "p_done (prog ?s) = Some 0"
    by (simp_all add: serve_exit_def demo_waiting_def program_Stop_def program_Start_def new_process_def)
  ultimately have "svc_reachable demo_program (?s\<lparr>stopper := Returned\<rparr>)"
    using svc_next svc_return by blast
  from stop_waits_for_server [OF this] st show ?thesis by simp
qed

end
