(* ===== verification/Platform_Db.thy ===== *)
theory Platform_Db
  imports Daemon
begin

text \<open>
  \<^verbatim>\<open>cmd/rexec-agentd/internal/db/db.go\<close>, \<^verbatim>\<open>cmd/rexec-agentd/internal/platform/platform.go\<close> and the
  foreground command of \<^verbatim>\<open>cmd/rexec-agentd/main.go\<close>: the agent's database handle around serving.
  The SQL driver and the runtime's \<^verbatim>\<open>Shutdown\<close> are parameters; the state is the set of open handles.
\<close>

section \<open>The database\<close>

record sql_driver =
  sql_Open :: "string \<Rightarrow> string option"
  sql_Ping :: "string \<Rightarrow> string option"
  sql_Close :: "nat \<Rightarrow> string option"

record handles =
  h_next :: nat
  h_open :: "nat set"

datatype core_error = DbOpen string | DbPing string | CoreClose string | CoreJoined "core_error list" | CoreServe agentd_error | CoreShutdown string

text \<open>\<^verbatim>\<open>DB.Close\<close> gives the handle up even when it reports an error.\<close>

definition db_Close :: "sql_driver \<Rightarrow> nat \<Rightarrow> handles \<Rightarrow> handles \<times> string option" where
  "db_Close D h s = (s\<lparr>h_open := h_open s - {h}\<rparr>, sql_Close D h)"

definition db_New :: "sql_driver \<Rightarrow> string \<Rightarrow> handles \<Rightarrow> handles \<times> (core_error + nat)" where
  "db_New D dsn s =
     (case sql_Open D dsn of
        Some err \<Rightarrow> (s, Inl (DbOpen err))
      | None \<Rightarrow>
          (let db = h_next s; s1 = s\<lparr>h_next := db + 1, h_open := insert db (h_open s)\<rparr> in
           case sql_Ping D dsn of
             Some err \<Rightarrow> (fst (db_Close D db s1), Inl (DbPing err))
           | None \<Rightarrow> (s1, Inr db)))"

section \<open>The platform\<close>

record Platform =
  plat_DB :: "nat option"

definition platform_New :: "sql_driver \<Rightarrow> (string \<Rightarrow> string) \<Rightarrow> handles \<Rightarrow> handles \<times> (core_error + Platform)" where
  "platform_New D os_Getenv s =
     (let dsn = os_Getenv ''DATABASE_URL'';
          dsn = (if dsn = [] then ''file:remote-exec.db'' else dsn) in
      and_then_st (db_New D dsn s) (\<lambda>sqlDB s. (s, Inr \<lparr>plat_DB = Some sqlDB\<rparr>)))"

definition Platform_Close :: "sql_driver \<Rightarrow> Platform \<Rightarrow> handles \<Rightarrow> handles \<times> core_error option" where
  "Platform_Close D p s =
     (case plat_DB p of
        None \<Rightarrow> (s, errors_Join CoreJoined [])
      | Some h \<Rightarrow>
          (case db_Close D h s of (s', e) \<Rightarrow> (s', errors_Join CoreJoined [map_option CoreClose e])))"

section \<open>The foreground command\<close>

text \<open>
  The function \<^verbatim>\<open>core\<close>: the platform, then serving until the context ends, then the shutdown of the
  runtime; the deferred close runs last, whatever the outcome, and its error is dropped.
\<close>

definition agentd_core ::
  "sql_driver \<Rightarrow> (string \<Rightarrow> string) \<Rightarrow> string option \<Rightarrow> agentd \<Rightarrow> (string \<Rightarrow> string option) \<Rightarrow> string \<Rightarrow>
   serve_event list \<Rightarrow> os \<times> handles \<Rightarrow> (os \<times> handles) \<times> core_error option option" where
  "agentd_core D os_Getenv shutdown A net_Listen version es st =
     (case st of (s, hs) \<Rightarrow>
        (case platform_New D os_Getenv hs of
           (hs1, Inl err) \<Rightarrow> ((s, hs1), Some (Some err))
         | (hs1, Inr plat) \<Rightarrow>
             (case serveAgent A net_Listen (dataDirOf A) (listenOf A) version es s of
                (s', None) \<Rightarrow> ((s', hs1), None)
              | (s', Some (Some serveErr)) \<Rightarrow>
                  ((s', fst (Platform_Close D plat hs1)), Some (Some (CoreServe serveErr)))
              | (s', Some None) \<Rightarrow>
                  ((s', fst (Platform_Close D plat hs1)), Some (map_option CoreShutdown shutdown)))))"

section \<open>Lemmas\<close>

definition fresh_handles :: "handles \<Rightarrow> bool" where
  "fresh_handles s \<longleftrightarrow> (\<forall>h \<in> h_open s. h < h_next s)"

lemma db_New_handles:
  "db_New D dsn s = (s', r) \<Longrightarrow> fresh_handles s \<Longrightarrow>
     (case r of Inl e \<Rightarrow> h_open s' = h_open s
      | Inr db \<Rightarrow> h_open s' = insert db (h_open s) \<and> db \<notin> h_open s) \<and> fresh_handles s'"
  by (auto simp: db_New_def db_Close_def Let_def fresh_handles_def less_Suc_eq split: option.splits)

section \<open>Properties\<close>

text \<open>
  C40: the command leaves no database open: whenever it returns, whether the database, loading the
  agent, the listener, the server or the shutdown failed or nothing did, the open handles are
  those from before; and while it serves there is exactly one more.
\<close>

theorem core_closes_database:
  assumes "fresh_handles hs" "agentd_core D os_Getenv shutdown A net_Listen version es (s, hs) = ((s', hs'), r)"
  shows "(case r of
      Some e \<Rightarrow> h_open hs' = h_open hs
    | None \<Rightarrow> \<exists>db. db \<notin> h_open hs \<and> h_open hs' = insert db (h_open hs)) \<and> fresh_handles hs'"
proof -
  obtain hs1 p where p: "platform_New D os_Getenv hs = (hs1, p)" by fastforce
  obtain dsn where n: "platform_New D os_Getenv hs = and_then_st (db_New D dsn hs) (\<lambda>sqlDB s. (s, Inr \<lparr>plat_DB = Some sqlDB\<rparr>))"
    by (simp add: platform_New_def Let_def)
  obtain hs2 q where new: "db_New D dsn hs = (hs2, q)" by fastforce
  with n p have "hs1 = hs2" and q2: "p = (case q of Inl e \<Rightarrow> Inl e | Inr db \<Rightarrow> Inr \<lparr>plat_DB = Some db\<rparr>)"
    by (cases q; simp)+
  with new have q: "db_New D dsn hs = (hs1, q)" by simp
  note h = db_New_handles [OF q assms(1)]
  show ?thesis
  proof (cases q)
    case (Inl e)
    with assms(2) p q2 h show ?thesis by (auto simp: agentd_core_def)
  next
    case (Inr db)
    with assms(2) p q2 h show ?thesis
      by (auto simp: agentd_core_def Platform_Close_def db_Close_def fresh_handles_def split: prod.splits option.splits)
  qed
qed

theorem core_closes_database_witness:
  "h_open (snd (fst (agentd_core \<lparr>sql_Open = (\<lambda>_. None), sql_Ping = (\<lambda>_. Some ''locked''), sql_Close = (\<lambda>_. None)\<rparr>
     (\<lambda>_. []) None demo_agentd (\<lambda>_. None) ''dev'' [] (empty_os, \<lparr>h_next = 0, h_open = {}\<rparr>)))) = {}"
proof -
  let ?D = "\<lparr>sql_Open = (\<lambda>_. None), sql_Ping = (\<lambda>_. Some ''locked''), sql_Close = (\<lambda>_. None)\<rparr> :: sql_driver"
  let ?hs = "\<lparr>h_next = 0, h_open = {}\<rparr> :: handles"
  have f: "fresh_handles ?hs" by (simp add: fresh_handles_def)
  obtain s' hs' r where run: "agentd_core ?D (\<lambda>_. []) None demo_agentd (\<lambda>_. None) ''dev'' [] (empty_os, ?hs) = ((s', hs'), r)"
    by (metis prod.exhaust)
  then have "r \<noteq> None"
    by (auto simp: agentd_core_def platform_New_def db_New_def Let_def)
  with core_closes_database [OF f run] run show ?thesis by auto
qed

end
