(* ===== verification/Concurrent_Enroll.thy ===== *)
theory Concurrent_Enroll
  imports Agentserver Token_Lock
begin

text \<open>
  Enrollments that overlap in time. gRPC runs every \<^verbatim>\<open>Enroll\<close> call of the daemon in its own
  goroutine, and operators run \<^verbatim>\<open>token new\<close> in processes of their own; what they share is the token
  store behind its lock file. The handler is split at \<^verbatim>\<open>tokens.Consume\<close>: the store takes the steps
  of \<open>lock_step\<close>, and a call whose \<^verbatim>\<open>Consume\<close> has returned signs and answers. Which callers share a
  lock handle is read off the code, and makes the difference.
\<close>

section \<open>The handler, split at the store\<close>

text \<open>What \<^verbatim>\<open>Enroll\<close> answers once \<^verbatim>\<open>Consume\<close> has given it \<open>r\<close>.\<close>

definition enroll_answer ::
  "world \<Rightarrow> Server \<Rightarrow> EnrollRequest \<Rightarrow> token_error + string \<Rightarrow> status + EnrollResponse" where
  "enroll_answer W srv req r =
     (case snd (Service_Enroll (w_x509 W) (w_rnd W) (w_now W) (\<lambda>_ s. (s, r))
         (srv_enroller srv) (CsrPem req) (Token req) ()) of
        Inl err \<Rightarrow> Inl (Errorf PermissionDenied ''%s'' [w_enroll_text W err])
      | Inr res \<Rightarrow>
          Inr \<lparr>ClientCertPem = ClientCertPEM res, CaPem = CAPEM res, AgentId = res_AgentID res,
               er_Fingerprint = res_Fingerprint res\<rparr>)"

lemma Server_Enroll_split:
  "Server_Enroll W srv req s =
     (case FileStore_Consume (w_faults W) (w_json W) (srv_tokens srv) (Token req) (w_now W) (as_os s) of
        (os', r) \<Rightarrow> (s\<lparr>as_os := os'\<rparr>, enroll_answer W srv req r))"
  by (auto simp: Server_Enroll_def enroll_answer_def Service_Enroll_def split: prod.splits sum.splits)

lemma enroll_answer_refused: "enroll_answer W srv req (Inl e) = Inl (Errorf PermissionDenied ''%s'' [w_enroll_text W (EnrollToken e)])"
  by (simp add: enroll_answer_def Service_Enroll_def)

text \<open>The certificate in an answer: for the key of the request, with the role that was consumed.\<close>

lemma enroll_answer_Inr:
  assumes "x509_laws (w_x509 W)" "ca_wf (w_x509 W) (svc_ca (srv_enroller srv))"
    and "enroll_answer W srv req (Inr role) = Inr resp"
  shows "\<exists>c block r. ParseCert (w_x509 W) (ClientCertPem resp) = Inr c \<and> set (Organization (Subject c)) = {role} \<and>
    x_CheckSignatureFrom (w_x509 W) (ca_cert (svc_ca (srv_enroller srv))) c \<and>
    x_pem_Decode (w_x509 W) (CsrPem req) = Some block \<and>
    x_ParseRequest (w_x509 W) (pem_Bytes block) = Inr r \<and> PublicKey c = csr_PublicKey r"
proof -
  have "Sign (w_x509 W) (w_rnd W) (w_now W) (svc_ca (srv_enroller srv))
      (client_request (srv_enroller srv) (CsrPem req) role) = Inr (ClientCertPem resp)"
    using assms(3) by (auto simp: enroll_answer_def Service_Enroll_def split: prod.splits sum.splits)
  from Sign_Inr [OF assms(1) this] assms(2) show ?thesis
    by (fastforce simp: matches_template_def)
qed

section \<open>Steps\<close>

text \<open>
  The users of the store: enrollment calls of the daemon, and other processes (each \<^verbatim>\<open>token new\<close>).
\<close>

datatype store_user = Enrolling world EnrollRequest | Process store_call

fun user_call :: "store_user \<Rightarrow> store_call" where
  "user_call (Enrolling W req) = CallConsume (Token req) (w_now W)"
| "user_call (Process c) = c"

text \<open>
  Their handles: \<^verbatim>\<open>serveAgent\<close> makes one \<^verbatim>\<open>FileStore\<close> for all calls, every process makes its own.
\<close>

definition daemon_handle :: "(nat \<Rightarrow> store_user) \<Rightarrow> nat \<Rightarrow> nat" where
  "daemon_handle users i = (case users i of Enrolling W req \<Rightarrow> 0 | Process c \<Rightarrow> Suc i)"

record enroll_sys =
  es_store :: lock_sys
  es_answer :: "nat \<Rightarrow> (status + EnrollResponse) option"

inductive enroll_step ::
  "bool \<Rightarrow> (nat \<Rightarrow> nat) \<Rightarrow> (nat \<Rightarrow> store_user) \<Rightarrow> Server \<Rightarrow> enroll_sys \<Rightarrow> enroll_sys \<Rightarrow> bool"
  for shortcut handle users srv where
  store_steps: "lock_step shortcut handle (user_call \<circ> users) (es_store s) l \<Longrightarrow>
    enroll_step shortcut handle users srv s (s\<lparr>es_store := l\<rparr>)"
| enroll_answers: "users i = Enrolling W req \<Longrightarrow> ls_caller (es_store s) i = Returned r \<Longrightarrow>
    enroll_step shortcut handle users srv s (s\<lparr>es_answer := (es_answer s)(i \<mapsto> enroll_answer W srv req r)\<rparr>)"

inductive enroll_reach ::
  "bool \<Rightarrow> (nat \<Rightarrow> nat) \<Rightarrow> (nat \<Rightarrow> store_user) \<Rightarrow> Server \<Rightarrow> token_map \<Rightarrow> enroll_sys \<Rightarrow> bool"
  for shortcut handle users srv m0 where
  enroll_start: "enroll_reach shortcut handle users srv m0 \<lparr>es_store = lock_init m0, es_answer = Map.empty\<rparr>"
| enroll_next: "enroll_reach shortcut handle users srv m0 s \<Longrightarrow> enroll_step shortcut handle users srv s t \<Longrightarrow>
    enroll_reach shortcut handle users srv m0 t"

section \<open>Lemmas\<close>

lemma returned_stays:
  "lock_step shortcut handle call s t \<Longrightarrow> ls_caller s i = Returned r \<Longrightarrow> ls_caller t i = Returned r"
  by (induction rule: lock_step.induct) auto

text \<open>The store runs as in \<open>Token_Lock\<close>, and every answer is the handler's on what \<^verbatim>\<open>Consume\<close> returned.\<close>

lemma enroll_reach_lock:
  "enroll_reach shortcut handle users srv m0 s \<Longrightarrow> lock_reach shortcut handle (user_call \<circ> users) m0 (es_store s)"
proof (induction rule: enroll_reach.induct)
  case enroll_start
  show ?case by (simp add: lock_reach.start)
next
  case (enroll_next s t)
  from enroll_next.hyps(2) show ?case
  proof cases
    case (store_steps l)
    from lock_reach.step [OF enroll_next.IH store_steps(2)] store_steps(1) show ?thesis by (simp add: comp_def)
  next
    case enroll_answers
    with enroll_next.IH show ?thesis by simp
  qed
qed

lemma answered:
  assumes "enroll_reach shortcut handle users srv m0 s" "users i = Enrolling W req" "es_answer s i = Some a"
  shows "\<exists>r. ls_caller (es_store s) i = Returned r \<and> a = enroll_answer W srv req r"
  using assms(1,3)
proof (induction rule: enroll_reach.induct)
  case (enroll_next s t)
  from enroll_next.hyps(2) show ?case
  proof cases
    case (store_steps l)
    with enroll_next.prems enroll_next.IH obtain r where
      "ls_caller (es_store s) i = Returned r" "a = enroll_answer W srv req r" by auto
    with returned_stays [OF store_steps(2)] store_steps(1) show ?thesis by auto
  next
    case (enroll_answers j W' req' r)
    with enroll_next.prems enroll_next.IH assms(2) show ?thesis by (cases "j = i") auto
  qed
qed simp

text \<open>A run of the store is a run of the enrollments, with nobody answered yet.\<close>

lemma enroll_reach_store:
  assumes "lock_reach shortcut handle (user_call \<circ> users) m0 l"
  shows "enroll_reach shortcut handle users srv m0 \<lparr>es_store = l, es_answer = Map.empty\<rparr>"
  using assms
proof (induction rule: lock_reach.induct)
  case start
  show ?case by (rule enroll_start)
next
  case (step l l')
  from enroll_next [OF step.IH store_steps [of _ _ _ _ l' srv]] step.hyps(2) show ?case by simp
qed

text \<open>Two calls on one handle: both enter, both read the token, both get it, both answer.\<close>

lemma shared_handle_enrolls:
  assumes "users 0 = Enrolling W0 req0" "users 1 = Enrolling W1 req1" "handle 0 = h" "handle 1 = h"
    and "consume_fn (Token req0) (w_now W0) m = (m', r)" "consume_fn (Token req1) (w_now W1) m = (m', q)"
  shows "\<exists>s. enroll_reach True handle users srv m s \<and> es_answer s 0 = Some (enroll_answer W0 srv req0 r) \<and>
    es_answer s 1 = Some (enroll_answer W1 srv req1 q)"
proof -
  obtain l where l: "lock_reach True handle (user_call \<circ> users) m l" "ls_caller l 0 = Returned r" "ls_caller l 1 = Returned q"
    using shared_run_ends [of handle h "user_call \<circ> users" m m' r q] assms by auto
  let ?s = "\<lparr>es_store = l, es_answer = Map.empty\<rparr>"
  let ?t = "?s\<lparr>es_answer := [0 \<mapsto> enroll_answer W0 srv req0 r]\<rparr>"
  have "enroll_reach True handle users srv m ?t"
    by (rule enroll_next [OF enroll_reach_store [OF l(1)]])
       (use enroll_answers [where users = users and i = 0, OF assms(1), of ?s r] l(2) in simp)
  then have "enroll_reach True handle users srv m (?t\<lparr>es_answer := (es_answer ?t)(1 \<mapsto> enroll_answer W1 srv req1 q)\<rparr>)"
    by (rule enroll_next)
       (use enroll_answers [where users = users and i = 1, OF assms(2), of ?t q] l(3) in simp)
  then show ?thesis by (rule_tac exI, intro conjI) auto
qed

section \<open>Properties\<close>

text \<open>
  C16: enrollments that overlap are safe as long as the lock excludes. Take any interleaving of any
  number of enrollment calls and other processes on any handles, those of the daemon included,
  under any I/O failure, in which the lock excludes, or only nobody has so far entered the store by
  the short cut of a handle already locked: so the enrollments of one daemon may overlap in all
  but that. Then the certificates handed out are those of a sequential run of the store, and of
  two answered calls with one token that is not issued again at most one carries a certificate;
  the other is PermissionDenied.
\<close>

theorem overlapping_enrollments_once:
  assumes "enroll_reach shortcut handle users srv m0 s" "exclusive shortcut handle \<or> \<not> ls_together (es_store s)"
    and "\<forall>w role ttl now. user_call (users w) \<noteq> CallIssue v role ttl now"
    and "users i = Enrolling W req" "users j = Enrolling W' req'" "Token req = v" "Token req' = v" "i \<noteq> j"
    and "es_answer s i = Some (Inr resp)" "es_answer s j = Some a"
  shows "(\<exists>role. verdict (user_call \<circ> users) m0 (ls_log (es_store s)) i = Some (Inr role) \<and>
      enroll_answer W srv req (Inr role) = Inr resp) \<and>
    (\<exists>e. a = Inl e \<and> st_code e = PermissionDenied)"
proof -
  note store = enroll_reach_lock [OF assms(1)]
  have "\<not> ls_together (es_store s)" using exclusive_apart [OF store] assms(2) by blast
  then have lin: "lock_lin (user_call \<circ> users) m0 (es_store s)" using lock_reach_inv [OF store] by blast
  obtain r q where r: "ls_caller (es_store s) i = Returned r" "enroll_answer W srv req r = Inr resp"
    and q: "ls_caller (es_store s) j = Returned q" "a = enroll_answer W' srv req' q"
    using answered [OF assms(1,4,9)] answered [OF assms(1,5,10)] by metis
  obtain role where role: "r = Inr role"
    using r(2) by (cases r) (auto simp: enroll_answer_refused)
  note v = linearized [OF lin]
  obtain e where "q = Inl e"
  proof (cases q)
    case (Inr y)
    have "i = j"
      using verdict_once [of "user_call \<circ> users" v i "w_now W" j "w_now W'"] v [of i role] v [of j y] assms(3-7) r(1) q(1) role Inr
      by simp
    with assms(8) show ?thesis by simp
  qed
  with v r role q show ?thesis by (auto simp: enroll_answer_refused Errorf_def)
qed

text \<open>
  C17: one token can buy two certificates. With the handles as the code makes them, and \<^verbatim>\<open>Lock\<close> on a
  held handle returning at once as its package documents, there is a run in which two overlapping
  enrollments redeem the same token, issued once: if each of them would succeed on its own, both
  are answered with a certificate that verifies against the agent's CA, one for each caller's key,
  and both with the token's role.
\<close>

theorem one_token_two_certificates:
  assumes "x509_laws X" "ca_wf X (svc_ca (srv_enroller srv))" "w_x509 W0 = X" "w_x509 W1 = X"
    and "users 0 = Enrolling W0 req0" "users 1 = Enrolling W1 req1" "Token req1 = Token req0"
    and "m (Token req0) = Some rec" "w_now W0 \<le> Expiry rec" "w_now W1 \<le> Expiry rec"
    and "enroll_answer W0 srv req0 (Inr (Role rec)) = Inr resp0" "enroll_answer W1 srv req1 (Inr (Role rec)) = Inr resp1"
  shows "\<exists>s c0 c1. enroll_reach True (daemon_handle users) users srv m s \<and>
    es_answer s 0 = Some (Inr resp0) \<and> es_answer s 1 = Some (Inr resp1) \<and>
    ParseCert X (ClientCertPem resp0) = Inr c0 \<and> ParseCert X (ClientCertPem resp1) = Inr c1 \<and>
    set (Organization (Subject c0)) = {Role rec} \<and> set (Organization (Subject c1)) = {Role rec} \<and>
    x_CheckSignatureFrom X (ca_cert (svc_ca (srv_enroller srv))) c0 \<and>
    x_CheckSignatureFrom X (ca_cert (svc_ca (srv_enroller srv))) c1 \<and>
    (\<exists>b0 r0 b1 r1. x_pem_Decode X (CsrPem req0) = Some b0 \<and> x_ParseRequest X (pem_Bytes b0) = Inr r0 \<and>
       x_pem_Decode X (CsrPem req1) = Some b1 \<and> x_ParseRequest X (pem_Bytes b1) = Inr r1 \<and>
       PublicKey c0 = csr_PublicKey r0 \<and> PublicKey c1 = csr_PublicKey r1)"
proof -
  have h: "daemon_handle users 0 = 0" "daemon_handle users 1 = 0"
    using assms(5,6) by (simp_all add: daemon_handle_def)
  have "consume_fn (Token req0) (w_now W0) m = (m(Token req0 := None), Inr (Role rec))"
      "consume_fn (Token req1) (w_now W1) m = (m(Token req0 := None), Inr (Role rec))"
    using assms(7-10) by (simp_all add: consume_fn_def)
  from shared_handle_enrolls [OF assms(5,6) h this, of srv] obtain s where
    "enroll_reach True (daemon_handle users) users srv m s" "es_answer s 0 = Some (Inr resp0)" "es_answer s 1 = Some (Inr resp1)"
    using assms(11,12) by auto
  moreover note enroll_answer_Inr [of W0 srv req0 "Role rec" resp0, unfolded assms(3), OF assms(1,2,11)]
  moreover note enroll_answer_Inr [of W1 srv req1 "Role rec" resp1, unfolded assms(4), OF assms(1,2,12)]
  ultimately show ?thesis by (elim exE conjE, intro exI conjI)
qed

section \<open>The properties at concrete inputs\<close>

text \<open>Two controllers with one token for an admin, at an agent whose CA signs.\<close>

abbreviation admin_tokens :: token_map where
  "admin_tokens \<equiv> [demo_token \<mapsto> \<lparr>Role = ''rex:admin'', Expiry = 700\<rparr>]"

abbreviation joining :: "bytes \<Rightarrow> nat \<Rightarrow> store_user" where
  "joining csr \<equiv> \<lambda>_. Enrolling (demo_world one_liner 650) \<lparr>Token = demo_token, CsrPem = csr\<rparr>"

lemma demo_signing_agent:
  obtains srv csr resp where "ca_wf plain_x509 (svc_ca (srv_enroller srv))"
    "enroll_answer (demo_world one_liner 650) srv \<lparr>Token = demo_token, CsrPem = csr\<rparr> (Inr ''rex:admin'') = Inr resp"
proof (rule demo_service [where 's = unit])
  fix svc csr
  assume wf: "ca_wf plain_x509 (svc_ca svc)"
    and run: "\<And>Consume tok (s :: unit) s' role rnd now. Consume tok s = (s', Inr role) \<Longrightarrow>
      \<exists>res. Service_Enroll plain_x509 (Inr rnd) now Consume svc csr tok s = (s', Inr res)"
  let ?srv = "(demo_server ask_policy)\<lparr>srv_enroller := svc\<rparr>"
  obtain res where "Service_Enroll plain_x509 demo_rnd 650 (\<lambda>_ s. (s, Inr ''rex:admin'')) svc csr demo_token () = ((), Inr res)"
    using run [of "\<lambda>_ s. (s, Inr ''rex:admin'')" demo_token] by blast
  then have "\<exists>resp. enroll_answer (demo_world one_liner 650) ?srv \<lparr>Token = demo_token, CsrPem = csr\<rparr> (Inr ''rex:admin'') = Inr resp"
    by (simp add: enroll_answer_def)
  with wf show thesis using that [of ?srv csr] by auto
qed

theorem one_token_two_certificates_witness:
  "\<exists>srv csr s resp. enroll_reach True (daemon_handle (joining csr)) (joining csr) srv admin_tokens s \<and>
     es_answer s 0 = Some (Inr resp) \<and> es_answer s 1 = Some (Inr resp)"
proof (rule demo_signing_agent)
  fix srv csr resp
  assume a: "ca_wf plain_x509 (svc_ca (srv_enroller srv))"
    "enroll_answer (demo_world one_liner 650) srv \<lparr>Token = demo_token, CsrPem = csr\<rparr> (Inr ''rex:admin'') = Inr resp"
  have "\<exists>s c0 c1. enroll_reach True (daemon_handle (joining csr)) (joining csr) srv admin_tokens s \<and>
      es_answer s 0 = Some (Inr resp) \<and> es_answer s 1 = Some (Inr resp) \<and>
      ParseCert plain_x509 (ClientCertPem resp) = Inr c0 \<and> ParseCert plain_x509 (ClientCertPem resp) = Inr c1"
    using one_token_two_certificates [OF plain_x509_laws a(1), of "demo_world one_liner 650" "demo_world one_liner 650"
        "joining csr" "\<lparr>Token = demo_token, CsrPem = csr\<rparr>" "\<lparr>Token = demo_token, CsrPem = csr\<rparr>" admin_tokens
        "\<lparr>Role = ''rex:admin'', Expiry = 700\<rparr>" resp resp] a(2)
    by auto
  then show ?thesis by blast
qed

text \<open>On the daemon's own handle, with the short cut: one enrollment after the other.\<close>

theorem overlapping_enrollments_once_witness:
  "\<exists>srv csr s resp e. enroll_reach True (daemon_handle (joining csr)) (joining csr) srv admin_tokens s \<and>
     es_answer s 0 = Some (Inr resp) \<and> es_answer s 1 = Some (Inl e) \<and> st_code e = PermissionDenied"
proof (rule demo_signing_agent)
  fix srv csr resp
  let ?W = "demo_world one_liner 650" and ?req = "\<lparr>Token = demo_token, CsrPem = csr\<rparr>"
  assume a: "enroll_answer ?W srv ?req (Inr ''rex:admin'') = Inr resp"
  let ?u = "joining csr" and ?h = "daemon_handle (joining csr)"
  let ?R = "enroll_reach True ?h ?u srv admin_tokens"
  have c: "(user_call \<circ> ?u) i = CallConsume demo_token 650" for i by simp
  obtain l where l: "lock_reach True ?h (user_call \<circ> ?u) admin_tokens l" "\<not> ls_together l"
    "ls_caller l 0 = Returned (Inr ''rex:admin'')" "ls_caller l 1 = Returned (Inl ErrUnknownToken)"
    using two_turns [where handle = ?h and m = admin_tokens, OF c c, of "\<lparr>Role = ''rex:admin'', Expiry = 700\<rparr>"]
    by (auto simp: comp_def)
  let ?s = "\<lparr>es_store = l, es_answer = Map.empty\<rparr>"
  let ?t = "?s\<lparr>es_answer := [1 \<mapsto> enroll_answer ?W srv ?req (Inl ErrUnknownToken)]\<rparr>"
  have "?R ?t"
    by (rule enroll_next [OF enroll_reach_store [OF l(1)]])
       (use enroll_answers [where users = ?u and i = 1 and srv = srv, OF refl, of ?s "Inl ErrUnknownToken"] l(4) in simp)
  then have t: "?R (?t\<lparr>es_answer := (es_answer ?t)(0 \<mapsto> Inr resp)\<rparr>)"
    by (rule enroll_next)
       (use enroll_answers [where users = ?u and i = 0 and srv = srv, OF refl, of ?t "Inr ''rex:admin''"] l(3) a in simp)
  let ?v = "?t\<lparr>es_answer := (es_answer ?t)(0 \<mapsto> Inr resp)\<rparr>" and ?a = "enroll_answer ?W srv ?req (Inl ErrUnknownToken)"
  have v: "es_answer ?v 0 = Some (Inr resp)" "es_answer ?v 1 = Some ?a" and apart: "exclusive True ?h \<or> \<not> ls_together (es_store ?v)"
    using l(2) by simp_all
  have "\<exists>e. ?a = Inl e \<and> st_code e = PermissionDenied"
    by (rule overlapping_enrollments_once [OF t apart _ refl refl _ _ _ v, of demo_token, THEN conjunct2]) simp_all
  then obtain e where e: "?a = Inl e" "st_code e = PermissionDenied" by blast
  have "es_answer ?v 1 = Some (Inl e)" using v(2) e(1) by simp
  with t v(1) e(2) show ?thesis by blast
qed

end
