(* ===== verification/Concurrent_Deploys.thy ===== *)
theory Concurrent_Deploys
  imports Agent_Rpc Concurrent_Enroll
begin

text \<open>
  Calls that overlap in time. gRPC runs every call in its own goroutine; what they share in the
  daemon is the map of pending approvals, behind the mutex of \<^verbatim>\<open>policy.Grants\<close>, and the token
  store, behind its lock file, which other processes share, too. Here a \<^verbatim>\<open>Deploy\<close> is split at that
  mutex and an \<^verbatim>\<open>Enroll\<close> at its \<^verbatim>\<open>Consume\<close>, and any number of calls take their steps in any order; the
  other files of the agent may change at any moment. Every such run is shown to be one of
  \<open>serve_all\<close>, with the calls in the order in which they wrote the map, and of the token store of
  theory \<^verbatim>\<open>Token_Lock\<close>.
\<close>

section \<open>A deploy, split at the mutex\<close>

text \<open>
  Whether the call takes the mutex: \<^verbatim>\<open>Consume\<close> always does, \<^verbatim>\<open>Issue\<close> after it has drawn an id.
\<close>

definition deploy_locks :: "world \<Rightarrow> Server \<Rightarrow> ExecRequest \<Rightarrow> bool" where
  "deploy_locks W srv req \<longleftrightarrow>
     (if er_ApprovalId req \<noteq> [] then True
      else Policy_Evaluate (srv_policy srv) (er_Command req) = DecisionAsk \<and>
        (case policy_randID (w_rnd W) of Inl _ \<Rightarrow> False | Inr _ \<Rightarrow> True))"

text \<open>What it does to the map while it holds the mutex, and the error of \<^verbatim>\<open>Consume\<close>.\<close>

definition deploy_section :: "world \<Rightarrow> ExecRequest \<Rightarrow> Grants \<Rightarrow> Grants \<times> grants_error option" where
  "deploy_section W req m =
     (if er_ApprovalId req \<noteq> [] then Grants_Consume (er_ApprovalId req) (er_Command req) (w_now W) m
      else (fst (Grants_Issue (w_rnd W) (er_Command req) approvalTTL (w_now W) m), None))"

text \<open>What it does afterwards: refuse, run the command, or ask.\<close>

definition deploy_finish ::
  "world \<Rightarrow> ExecRequest \<Rightarrow> server_stream \<Rightarrow> grants_error option \<Rightarrow> sent \<times> status option" where
  "deploy_finish W req ss v =
     (if er_ApprovalId req \<noteq> [] then
        (case v of
           Some err \<Rightarrow> (nothing_sent, Some (Errorf PermissionDenied ''approval: %v'' [grants_error_text err]))
         | None \<Rightarrow> runStream W req ss nothing_sent)
      else
        (case policy_randID (w_rnd W) of
           Inl err \<Rightarrow> (nothing_sent, Some (Errorf Internal ''approval: %v'' [err]))
         | Inr fresh \<Rightarrow>
             stream_Send ss (ExecChunk_NeedsApproval
               \<lparr>Operation = strings_TrimSpace (er_Command req @ '' '' @ strings_Join (er_Args req) '' ''),
                Reason = approval_reason, ar_ApprovalId = fresh\<rparr>) nothing_sent))"

definition call_locks :: "Server \<Rightarrow> call \<Rightarrow> bool" where
  "call_locks srv c \<longleftrightarrow>
     (case call_rpc c of
        RpcDeploy req \<Rightarrow>
          gate_verdict AgentTable (call_ctx c) m_Deploy = None \<and> deploy_locks (call_world c) srv req
      | _ \<Rightarrow> False)"

definition call_section :: "call \<Rightarrow> Grants \<Rightarrow> Grants \<times> grants_error option" where
  "call_section c m = (case call_rpc c of RpcDeploy req \<Rightarrow> deploy_section (call_world c) req m | _ \<Rightarrow> (m, None))"

definition call_finish :: "call \<Rightarrow> grants_error option \<Rightarrow> answer" where
  "call_finish c v =
     (case call_rpc c of
        RpcDeploy req \<Rightarrow>
          (case deploy_finish (call_world c) req (call_stream c) v of (out, e) \<Rightarrow> AnsStream (sent_msgs out) e)
      | _ \<Rightarrow> AnsStream [] None)"

section \<open>Steps\<close>

text \<open>
  Where a call stands: before the mutex; holding it; with the map read; with the map written and
  the error known; with the mutex released; answered.
\<close>

datatype caller_at =
    Arrived
  | Holding
  | Reading Grants
  | Wrote "grants_error option"
  | Going "grants_error option"
  | Answered answer

fun inside :: "caller_at \<Rightarrow> bool" where
  "inside Holding = True"
| "inside (Reading m) = True"
| "inside (Wrote v) = True"
| "inside _ = False"

text \<open>
  \<open>cd_store\<close> is the token store with all its callers: a call \<open>i\<close> that is an \<^verbatim>\<open>Enroll\<close> uses it on the
  handle of the daemon, and the other numbers stand for the calls \<open>procs i\<close> of other processes.
  \<open>cd_log\<close> is an auxiliary history: who wrote the map with what error, the latest first.
\<close>

definition store_users :: "(nat \<Rightarrow> store_call) \<Rightarrow> (nat \<Rightarrow> call) \<Rightarrow> nat \<Rightarrow> store_user" where
  "store_users procs calls i =
     (case call_rpc (calls i) of RpcEnroll req \<Rightarrow> Enrolling (call_world (calls i)) req | _ \<Rightarrow> Process (procs i))"

abbreviation store_calls :: "(nat \<Rightarrow> store_call) \<Rightarrow> (nat \<Rightarrow> call) \<Rightarrow> nat \<Rightarrow> store_call" where
  "store_calls procs calls \<equiv> user_call \<circ> store_users procs calls"

record daemon_calls =
  cd_os :: os
  cd_store :: lock_sys
  cd_grants :: Grants
  cd_mutex :: "nat option"
  cd_at :: "nat \<Rightarrow> caller_at"
  cd_log :: "(nat \<times> grants_error option) list"

definition calls_start :: "token_map \<Rightarrow> agent_state \<Rightarrow> daemon_calls" where
  "calls_start m0 st = \<lparr>cd_os = as_os st, cd_store = lock_init m0, cd_grants = as_grants st, cd_mutex = None,
     cd_at = (\<lambda>_. Arrived), cd_log = []\<rparr>"

text \<open>\<^verbatim>\<open>Lock\<close> has its documented short cut here, for the daemon's handle as for every other.\<close>

inductive call_step ::
  "(nat \<Rightarrow> store_call) \<Rightarrow> Server \<Rightarrow> (nat \<Rightarrow> call) \<Rightarrow> daemon_calls \<Rightarrow> daemon_calls \<Rightarrow> bool"
  for procs srv calls where
  call_lock: "cd_at s i = Arrived \<Longrightarrow> call_locks srv (calls i) \<Longrightarrow> cd_mutex s = None \<Longrightarrow>
    call_step procs srv calls s (s\<lparr>cd_mutex := Some i, cd_at := (cd_at s)(i := Holding)\<rparr>)"
| call_read: "cd_at s i = Holding \<Longrightarrow>
    call_step procs srv calls s (s\<lparr>cd_at := (cd_at s)(i := Reading (cd_grants s))\<rparr>)"
| call_write: "cd_at s i = Reading m \<Longrightarrow> call_section (calls i) m = (m', v) \<Longrightarrow>
    call_step procs srv calls s
      (s\<lparr>cd_grants := m', cd_at := (cd_at s)(i := Wrote v), cd_log := (i, v) # cd_log s\<rparr>)"
| call_unlock: "cd_at s i = Wrote v \<Longrightarrow>
    call_step procs srv calls s (s\<lparr>cd_mutex := None, cd_at := (cd_at s)(i := Going v)\<rparr>)"
| call_answer: "cd_at s i = Going v \<Longrightarrow>
    call_step procs srv calls s (s\<lparr>cd_at := (cd_at s)(i := Answered (call_finish (calls i) v))\<rparr>)"
| call_direct: "cd_at s i = Arrived \<Longrightarrow> \<not> call_locks srv (calls i) \<Longrightarrow>
    \<nexists>req. call_rpc (calls i) = RpcEnroll req \<Longrightarrow>
    call_step procs srv calls s (s\<lparr>cd_at := (cd_at s)(i := Answered
      (snd (serve_call AgentTable srv (calls i) \<lparr>as_os = cd_os s, as_grants = cd_grants s\<rparr>)))\<rparr>)"
| call_store: "lock_step True (daemon_handle (store_users procs calls)) (store_calls procs calls) (cd_store s) l \<Longrightarrow>
    call_step procs srv calls s (s\<lparr>cd_store := l\<rparr>)"
| call_enroll: "cd_at s i = Arrived \<Longrightarrow> call_rpc (calls i) = RpcEnroll req \<Longrightarrow>
    ls_caller (cd_store s) i = Returned r \<Longrightarrow>
    call_step procs srv calls s (s\<lparr>cd_at := (cd_at s)(i := Answered
      (AnsEnroll (enroll_answer (call_world (calls i)) srv req r)))\<rparr>)"
| files_change: "call_step procs srv calls s (s\<lparr>cd_os := fs\<rparr>)"

inductive calls_reach ::
  "(nat \<Rightarrow> store_call) \<Rightarrow> Server \<Rightarrow> (nat \<Rightarrow> call) \<Rightarrow> token_map \<Rightarrow> agent_state \<Rightarrow> daemon_calls \<Rightarrow> bool"
  for procs srv calls m0 st0 where
  reach_start: "calls_reach procs srv calls m0 st0 (calls_start m0 st0)"
| reach_step: "calls_reach procs srv calls m0 st0 s \<Longrightarrow> call_step procs srv calls s t \<Longrightarrow>
    calls_reach procs srv calls m0 st0 t"

text \<open>The order in which the calls wrote the map, and the calls before one of them.\<close>

definition write_order :: "daemon_calls \<Rightarrow> nat list" where
  "write_order s = rev (map fst (cd_log s))"

definition written_before :: "nat \<Rightarrow> daemon_calls \<Rightarrow> nat list" where
  "written_before i s = takeWhile (\<lambda>j. j \<noteq> i) (write_order s)"

section \<open>The split is the handler\<close>

lemma Server_Deploy_locked:
  assumes "deploy_locks W srv req"
  shows "Server_Deploy W srv req ss (s, nothing_sent) =
    (case deploy_section W req (as_grants s) of
       (G, v) \<Rightarrow> (case deploy_finish W req ss v of (out, e) \<Rightarrow> ((s\<lparr>as_grants := G\<rparr>, out), e)))"
  using assms
  by (auto simp: Server_Deploy_def deploy_section_def deploy_finish_def deploy_locks_def Grants_Issue_def Let_def
      split: prod.splits option.splits sum.splits if_splits)

lemma Server_Deploy_unlocked:
  assumes "\<not> deploy_locks W srv req"
  shows "Server_Deploy W srv req ss (s, out) =
    (case Server_Deploy W srv req ss (s', out) of ((_, out'), e) \<Rightarrow> ((s, out'), e))"
  using assms
  by (cases "policy_randID (w_rnd W)"; cases "Policy_Evaluate (srv_policy srv) (er_Command req)")
     (auto simp: Server_Deploy_def deploy_locks_def Grants_Issue_def Let_def split: prod.splits if_splits)

lemma call_locksE:
  assumes "call_locks srv c"
  obtains req where "call_rpc c = RpcDeploy req" "gate_verdict AgentTable (call_ctx c) m_Deploy = None"
    "deploy_locks (call_world c) srv req"
  using assms by (auto simp: call_locks_def split: rpc.splits)

lemma serve_call_locked:
  assumes "call_locks srv c"
  shows "serve_call AgentTable srv c s =
    (case call_section c (as_grants s) of (G, v) \<Rightarrow> (s\<lparr>as_grants := G\<rparr>, call_finish c v))"
  using assms
  by (elim call_locksE) (auto simp: serve_call_def handlers_via_gate Server_Deploy_locked call_section_def
      call_finish_def split: prod.splits)

lemma serve_call_unlocked:
  assumes "\<not> call_locks srv c" "\<nexists>req. call_rpc c = RpcEnroll req"
  shows "snd (serve_call AgentTable srv c s) = snd (serve_call AgentTable srv c s')"
proof (cases "call_rpc c")
  case (RpcDeploy req)
  show ?thesis
  proof (cases "gate_verdict AgentTable (call_ctx c) m_Deploy")
    case None
    with assms(1) RpcDeploy have "\<not> deploy_locks (call_world c) srv req" by (simp add: call_locks_def)
    from Server_Deploy_unlocked [OF this, of "call_stream c" s nothing_sent s'] RpcDeploy None show ?thesis
      by (cases "Server_Deploy (call_world c) srv req (call_stream c) (s', nothing_sent)" rule: stream_answer.cases)
         (simp add: serve_call_def handlers_via_gate)
  qed (simp add: RpcDeploy serve_call_def handlers_via_gate)
qed (use assms(2) in \<open>auto simp: serve_call_def handlers_via_gate Server_Run_def Server_Identity_def
       Server_Info_def split: option.splits prod.splits\<close>)

lemma serve_call_enroll:
  assumes "call_rpc c = RpcEnroll req"
    and "FileStore_Consume (w_faults (call_world c)) (w_json (call_world c)) (srv_tokens srv) (Token req)
      (w_now (call_world c)) (as_os s) = (os', r)"
  shows "serve_call AgentTable srv c s = (s\<lparr>as_os := os'\<rparr>, AnsEnroll (enroll_answer (call_world c) srv req r))"
proof -
  have "gate_verdict AgentTable (call_ctx c) m_Enroll = None" by (simp add: gate_verdict_None)
  with assms show ?thesis by (simp add: serve_call_def handlers_via_gate Server_Enroll_split)
qed

section \<open>The invariant\<close>

text \<open>
  The state a log stands for, and what the log says: each caller wrote once, and had the error
  that the map of its predecessors gives.
\<close>

fun replayed :: "Server \<Rightarrow> (nat \<Rightarrow> call) \<Rightarrow> agent_state \<Rightarrow> (nat \<times> grants_error option) list \<Rightarrow> agent_state" where
  "replayed srv calls st0 [] = st0"
| "replayed srv calls st0 ((i, v) # log) = fst (serve_call AgentTable srv (calls i) (replayed srv calls st0 log))"

fun log_right :: "Server \<Rightarrow> (nat \<Rightarrow> call) \<Rightarrow> agent_state \<Rightarrow> (nat \<times> grants_error option) list \<Rightarrow> bool" where
  "log_right srv calls st0 [] \<longleftrightarrow> True"
| "log_right srv calls st0 ((i, v) # log) \<longleftrightarrow>
     i \<notin> fst ` set log \<and> call_locks srv (calls i) \<and>
     v = snd (call_section (calls i) (as_grants (replayed srv calls st0 log))) \<and> log_right srv calls st0 log"

text \<open>
  Where a call may stand, given whether it has written, and with what error, and where it is in
  the token store.
\<close>

fun stands ::
  "Server \<Rightarrow> call \<Rightarrow> agent_state \<Rightarrow> Grants \<Rightarrow> caller \<Rightarrow> caller_at \<Rightarrow> grants_error option option \<Rightarrow> bool" where
  "stands srv c st0 G k Arrived w \<longleftrightarrow> w = None"
| "stands srv c st0 G k Holding w \<longleftrightarrow> w = None \<and> call_locks srv c"
| "stands srv c st0 G k (Reading m) w \<longleftrightarrow> w = None \<and> call_locks srv c \<and> m = G"
| "stands srv c st0 G k (Wrote v) w \<longleftrightarrow> w = Some v"
| "stands srv c st0 G k (Going v) w \<longleftrightarrow> w = Some v"
| "stands srv c st0 G k (Answered a) w \<longleftrightarrow>
     (case w of
        Some v \<Rightarrow> a = call_finish c v
      | None \<Rightarrow> \<not> call_locks srv c \<and>
          (case call_rpc c of
             RpcEnroll req \<Rightarrow> \<exists>r. k = Returned r \<and> a = AnsEnroll (enroll_answer (call_world c) srv req r)
           | _ \<Rightarrow> a = snd (serve_call AgentTable srv c st0)))"

definition calls_inv :: "Server \<Rightarrow> (nat \<Rightarrow> call) \<Rightarrow> agent_state \<Rightarrow> daemon_calls \<Rightarrow> bool" where
  "calls_inv srv calls st0 s \<longleftrightarrow>
     as_grants (replayed srv calls st0 (cd_log s)) = cd_grants s \<and>
     log_right srv calls st0 (cd_log s) \<and>
     (\<forall>i. inside (cd_at s i) \<longleftrightarrow> cd_mutex s = Some i) \<and>
     (\<forall>i. stands srv (calls i) st0 (cd_grants s) (ls_caller (cd_store s) i) (cd_at s i) (map_of (cd_log s) i))"

lemma stands_outside: "\<not> inside p \<Longrightarrow> stands srv c st0 G k p w \<Longrightarrow> stands srv c st0 G' k p w"
  by (cases p) auto

lemma stands_store:
  assumes "stands srv c st0 G k p w" "\<And>r. k = Returned r \<Longrightarrow> k' = Returned r"
  shows "stands srv c st0 G k' p w"
proof (cases p)
  case (Answered a)
  with assms show ?thesis by (cases w; cases "call_rpc c") auto
qed (use assms(1) in auto)

lemma calls_inv_start: "calls_inv srv calls st0 (calls_start m0 st0)"
  by (simp add: calls_inv_def calls_start_def)

lemma calls_invD:
  assumes "calls_inv srv calls st0 s"
  shows "inside (cd_at s i) \<longleftrightarrow> cd_mutex s = Some i"
    and "stands srv (calls i) st0 (cd_grants s) (ls_caller (cd_store s) i) (cd_at s i) (map_of (cd_log s) i)"
  using assms by (simp_all add: calls_inv_def)

lemma calls_inv_move:
  assumes "calls_inv srv calls st0 s"
    and "stands srv (calls i) st0 (cd_grants s) (ls_caller (cd_store s) i) p (map_of (cd_log s) i)"
    and "\<And>j. inside (((cd_at s)(i := p)) j) \<longleftrightarrow> mu = Some j"
  shows "calls_inv srv calls st0 (s\<lparr>cd_mutex := mu, cd_at := (cd_at s)(i := p)\<rparr>)"
  using assms by (simp add: calls_inv_def)

lemma calls_inv_stay:
  assumes "calls_inv srv calls st0 s"
    and "stands srv (calls i) st0 (cd_grants s) (ls_caller (cd_store s) i) p (map_of (cd_log s) i)"
    and "inside p \<longleftrightarrow> inside (cd_at s i)"
  shows "calls_inv srv calls st0 (s\<lparr>cd_at := (cd_at s)(i := p)\<rparr>)"
  using assms by (simp add: calls_inv_def)

lemma calls_inv_write:
  assumes inv: "calls_inv srv calls st0 s" and at: "cd_at s i = Reading m"
    and sec: "call_section (calls i) m = (m', v)"
  shows "calls_inv srv calls st0
    (s\<lparr>cd_grants := m', cd_at := (cd_at s)(i := Wrote v), cd_log := (i, v) # cd_log s\<rparr>)"
proof -
  from inv at have mu: "cd_mutex s = Some i" and w: "map_of (cd_log s) i = None" "call_locks srv (calls i)"
    and m: "as_grants (replayed srv calls st0 (cd_log s)) = m"
    by (metis calls_inv_def inside.simps(2) stands.simps(3))+
  from inv mu have out: "\<not> inside (cd_at s j)" if "j \<noteq> i" for j
    using that by (auto simp: calls_inv_def)
  have "as_grants (fst (serve_call AgentTable srv (calls i) (replayed srv calls st0 (cd_log s)))) = m'"
    using sec m by (simp add: serve_call_locked [OF w(2)])
  moreover have "i \<notin> fst ` set (cd_log s)" using w(1) by (simp add: map_of_eq_None_iff)
  ultimately show ?thesis
    using inv mu w(2) sec m out by (auto simp: calls_inv_def intro: stands_outside)
qed

lemma calls_inv_step:
  assumes "call_step procs srv calls s t" "calls_inv srv calls st0 s"
  shows "calls_inv srv calls st0 t"
  using assms(1)
proof cases
  case (call_lock i)
  with calls_invD [OF assms(2)] have "map_of (cd_log s) i = None" "\<not> inside (cd_at s j)" for j
    by (metis stands.simps(1), simp)
  with call_lock assms(2) show ?thesis by (simp add: calls_inv_move)
next
  case (call_read i)
  with calls_invD(2) [OF assms(2), of i] assms(2) show ?thesis by (auto intro!: calls_inv_stay)
next
  case (call_write i m m' v)
  with calls_inv_write [OF assms(2)] show ?thesis by simp
next
  case (call_unlock i v)
  with calls_invD [OF assms(2)] have "cd_mutex s = Some i" "map_of (cd_log s) i = Some v"
    by (metis inside.simps(3), metis stands.simps(4))
  moreover have "inside (((cd_at s)(i := Going v)) j) \<longleftrightarrow> None = Some j" for j
    using calculation(1) calls_invD(1) [OF assms(2), of j] by simp
  ultimately show ?thesis using call_unlock assms(2) by (simp only: calls_inv_move stands.simps)
next
  case (call_answer i v)
  with calls_invD(2) [OF assms(2), of i] assms(2) show ?thesis by (auto intro!: calls_inv_stay)
next
  case (call_direct i)
  with calls_invD(2) [OF assms(2), of i] assms(2) serve_call_unlocked [of srv "calls i" _ st0] show ?thesis
    by (auto intro!: calls_inv_stay split: rpc.splits)
next
  case (call_store l)
  have "stands srv (calls i) st0 (cd_grants s) (ls_caller l i) (cd_at s i) (map_of (cd_log s) i)" for i
    using calls_invD(2) [OF assms(2), of i] returned_stays [OF call_store(2), of i] by (rule stands_store)
  with call_store(1) assms(2) show ?thesis by (simp add: calls_inv_def)
next
  case (call_enroll i req r)
  then have "\<not> call_locks srv (calls i)" by (simp add: call_locks_def)
  with call_enroll calls_invD(2) [OF assms(2), of i] assms(2) show ?thesis by (auto intro!: calls_inv_stay)
next
  case files_change
  with assms(2) show ?thesis by (simp add: calls_inv_def)
qed

lemma calls_reach_inv: "calls_reach procs srv calls m0 st0 s \<Longrightarrow> calls_inv srv calls st0 s"
  by (induction rule: calls_reach.induct) (auto intro: calls_inv_start calls_inv_step)

text \<open>The token store runs as in \<open>Token_Lock\<close>.\<close>

lemma calls_reach_store:
  "calls_reach procs srv calls m0 st0 s \<Longrightarrow>
     lock_reach True (daemon_handle (store_users procs calls)) (store_calls procs calls) m0 (cd_store s)"
proof (induction rule: calls_reach.induct)
  case reach_start
  show ?case by (simp add: calls_start_def lock_reach.start)
next
  case (reach_step s t)
  from reach_step.hyps(2) show ?case
  proof cases
    case (call_store l)
    from lock_reach.step [OF reach_step.IH call_store(2)] call_store(1) show ?thesis by (simp add: comp_def)
  qed (use reach_step.IH in simp_all)
qed

section \<open>What a log says\<close>

lemma replayed_serve_all:
  "replayed srv calls st0 log = serve_all AgentTable srv (map calls (rev (map fst log))) st0"
  by (induction log) (auto simp: serve_all_def run_ops_append)

lemma log_right_distinct: "log_right srv calls st0 log \<Longrightarrow> distinct (map fst log)"
  by (induction log) (auto, force)

lemma log_verdict:
  assumes "log_right srv calls st0 log" "(i, v) \<in> set log"
  shows "call_finish (calls i) v = snd (serve_call AgentTable srv (calls i)
    (serve_all AgentTable srv (map calls (takeWhile (\<lambda>j. j \<noteq> i) (rev (map fst log)))) st0))"
  using assms
proof (induction log)
  case (Cons p log)
  obtain j w where p: "p = (j, w)" by fastforce
  show ?case
  proof (cases "j = i")
    case True
    with Cons.prems p have i: "i \<notin> set (rev (map fst log))" and v: "v = w" by force+
    then have "takeWhile (\<lambda>j. j \<noteq> i) (rev (map fst log) @ [i]) = rev (map fst log)"
      by (subst takeWhile_append2) auto
    with Cons.prems(1) p True v show ?thesis
      by (auto simp: replayed_serve_all [symmetric] serve_call_locked split: prod.splits)
  next
    case False
    with Cons.prems p have "(i, v) \<in> set log" by auto
    then have "i \<in> set (rev (map fst log))" by force
    then have "takeWhile (\<lambda>j. j \<noteq> i) (rev (map fst log) @ [j]) = takeWhile (\<lambda>j. j \<noteq> i) (rev (map fst log))"
      by (subst takeWhile_append1) auto
    with Cons.IH Cons.prems(1) p \<open>(i, v) \<in> set log\<close> show ?thesis by simp
  qed
qed simp

text \<open>An approval that nobody issues again is gone once somebody has redeemed it.\<close>

definition redeems :: "call \<Rightarrow> string \<Rightarrow> bool" where
  "redeems c aid \<longleftrightarrow> (case call_rpc c of RpcDeploy req \<Rightarrow> er_ApprovalId req = aid | _ \<Rightarrow> False)"

definition draws :: "call \<Rightarrow> string \<Rightarrow> bool" where
  "draws c aid \<longleftrightarrow>
     (case call_rpc c of
        RpcDeploy req \<Rightarrow> er_ApprovalId req = [] \<and> policy_randID (w_rnd (call_world c)) = Inr aid
      | _ \<Rightarrow> False)"

lemma section_gone:
  assumes "m aid = None" "\<not> draws c aid"
  shows "fst (call_section c m) aid = None"
  using assms
  by (auto simp: call_section_def deploy_section_def Grants_Consume_def Grants_Issue_def draws_def
      split: rpc.splits option.splits sum.splits)

lemma section_redeems:
  assumes "redeems c aid" "aid \<noteq> []"
  shows "fst (call_section c m) aid = None" "m aid = None \<Longrightarrow> snd (call_section c m) \<noteq> None"
  using assms
  by (auto simp: call_section_def deploy_section_def Grants_Consume_def redeems_def
      split: rpc.splits option.splits)

lemma redeemed_approval_gone:
  assumes "log_right srv calls st0 log" "\<And>k. \<not> draws (calls k) aid" "aid \<noteq> []"
    and "i \<in> fst ` set log" "redeems (calls i) aid"
  shows "as_grants (replayed srv calls st0 log) aid = None"
  using assms(1,4)
proof (induction log)
  case (Cons p log)
  obtain k w where p: "p = (k, w)" by fastforce
  with Cons.prems have k: "call_locks srv (calls k)" by simp
  show ?case
  proof (cases "k = i")
    case True
    with k p section_redeems(1) [OF assms(5,3)] show ?thesis
      by (simp add: serve_call_locked split_def)
  next
    case False
    with Cons p have "as_grants (replayed srv calls st0 log) aid = None" by auto
    then have "fst (call_section (calls k) (as_grants (replayed srv calls st0 log))) aid = None"
      by (rule section_gone) (rule assms(2))
    with k p show ?thesis by (simp add: serve_call_locked split_def)
  qed
qed simp

lemma one_redeemer:
  assumes "log_right srv calls st0 log" "\<And>k. \<not> draws (calls k) aid" "aid \<noteq> []"
    and "(i, None) \<in> set log" "(j, None) \<in> set log" "redeems (calls i) aid" "redeems (calls j) aid"
  shows "i = j"
  using assms(1,4,5)
proof (induction log)
  case (Cons p log)
  obtain k w where p: "p = (k, w)" by fastforce
  with Cons.prems have l: "log_right srv calls st0 log"
    and w: "w = snd (call_section (calls k) (as_grants (replayed srv calls st0 log)))" by auto
  have late: "w \<noteq> None" if "n \<in> fst ` set log" "redeems (calls n) aid" "redeems (calls k) aid" for n
    using section_redeems(2) [OF that(3) assms(3)] redeemed_approval_gone [OF l assms(2,3) that(1,2)] w by simp
  show ?case
    using Cons.IH [OF l] Cons.prems(2,3) p late [of i] late [of j] assms(6,7) by force
qed simp

section \<open>Progress\<close>

text \<open>How many steps a call is from its answer, and the step one call takes.\<close>

fun steps_left :: "caller_at \<Rightarrow> nat" where
  "steps_left Arrived = 5"
| "steps_left Holding = 4"
| "steps_left (Reading m) = 3"
| "steps_left (Wrote v) = 2"
| "steps_left (Going v) = 1"
| "steps_left (Answered a) = 0"

definition moves :: "nat \<Rightarrow> daemon_calls \<Rightarrow> daemon_calls \<Rightarrow> bool" where
  "moves i s t \<longleftrightarrow> steps_left (cd_at t i) < steps_left (cd_at s i) \<and> cd_at t = (cd_at s)(i := cd_at t i)"

lemma call_step_moves:
  "call_step procs srv calls s t \<Longrightarrow> cd_at t = cd_at s \<and> cd_store t = cd_store s \<or>
     (\<exists>i. moves i s t) \<and> cd_store t = cd_store s \<or>
     cd_at t = cd_at s \<and> (\<exists>j. turns j (cd_store s) (cd_store t))"
  by (induction rule: call_step.induct) (auto simp: moves_def dest: lock_step_turns)

lemma steps_left_le: "steps_left p \<le> 5"
  by (cases p) auto

lemma started_call_moves:
  assumes "steps_left (cd_at s i) \<in> {1, 2, 3, 4}"
  shows "\<exists>t. call_step procs srv calls s t \<and> moves i s t"
proof (cases "cd_at s i")
  case Holding
  show ?thesis by (insert Holding, intro exI conjI, erule call_read) (simp add: moves_def)
next
  case (Reading m)
  obtain m' v where sec: "call_section (calls i) m = (m', v)" by fastforce
  show ?thesis
    by (insert Reading sec, intro exI conjI, erule (1) call_write) (simp add: moves_def)
next
  case (Wrote v)
  show ?thesis by (insert Wrote, intro exI conjI, erule call_unlock) (simp add: moves_def)
next
  case (Going v)
  show ?thesis by (insert Going, intro exI conjI, erule call_answer) (simp add: moves_def)
qed (use assms in auto)

lemma arrived_call_moves:
  assumes "calls_inv srv calls st0 s" "cd_at s i = Arrived" "\<nexists>req. call_rpc (calls i) = RpcEnroll req"
  shows "\<exists>t j. call_step procs srv calls s t \<and> moves j s t \<and> (j = i \<or> cd_at s j \<noteq> Arrived)"
proof (cases "call_locks srv (calls i)")
  case False
  have "\<exists>t. call_step procs srv calls s t \<and> moves i s t"
    by (insert assms(2,3) False, intro exI conjI, erule (2) call_direct) (simp add: moves_def)
  then show ?thesis by blast
next
  case True
  show ?thesis
  proof (cases "cd_mutex s")
    case None
    have "\<exists>t. call_step procs srv calls s t \<and> moves i s t"
      by (insert assms(2) True None, intro exI conjI, erule (2) call_lock) (simp add: moves_def)
    then show ?thesis by blast
  next
    case (Some k)
    with calls_invD(1) [OF assms(1), of k] have "steps_left (cd_at s k) \<in> {1, 2, 3, 4}"
      by (cases "cd_at s k") auto
    moreover from this have "cd_at s k \<noteq> Arrived" by auto
    ultimately show ?thesis using started_call_moves by blast
  qed
qed

text \<open>An enrollment answers, or is on its way through the store, where somebody can go on.\<close>

lemma enroll_moves:
  assumes "calls_reach procs srv calls m0 st0 s" "cd_at s i = Arrived" "\<exists>req. call_rpc (calls i) = RpcEnroll req"
  shows "\<exists>t j. call_step procs srv calls s t \<and> (moves j s t \<and> j = i \<or>
    cd_at t = cd_at s \<and> turns j (cd_store s) (cd_store t) \<and>
      (in_section (ls_caller (cd_store s) j) \<or> j = i \<and> ls_caller (cd_store t) j = Entered))"
proof -
  let ?L = "lock_step True (daemon_handle (store_users procs calls)) (store_calls procs calls) (cd_store s)"
  obtain req where req: "call_rpc (calls i) = RpcEnroll req" using assms(3) by blast
  have "\<exists>l j. ?L l \<and> turns j (cd_store s) l \<and> (in_section (ls_caller (cd_store s) j) \<or> j = i \<and> ls_caller l j = Entered)"
    if "\<And>r. ls_caller (cd_store s) i \<noteq> Returned r"
  proof (cases "ls_caller (cd_store s) i = Waiting")
    case True
    from waiting_moves [OF calls_reach_store [OF assms(1)] True] show ?thesis by blast
  next
    case False
    with that have "in_section (ls_caller (cd_store s) i)" by (cases "ls_caller (cd_store s) i") auto
    from inside_moves [OF this] this show ?thesis by blast
  qed
  then show ?thesis
  proof (cases "\<exists>r. ls_caller (cd_store s) i = Returned r")
    case True
    then obtain r where "ls_caller (cd_store s) i = Returned r" by blast
    from call_enroll [of s i calls req r procs srv, OF assms(2) req this] obtain t where
      "call_step procs srv calls s t" "cd_at t = (cd_at s)(i := Answered (AnsEnroll (enroll_answer (call_world (calls i)) srv req r)))"
      by fastforce
    with assms(2) have "call_step procs srv calls s t" "moves i s t" by (simp_all add: moves_def)
    then show ?thesis by blast
  next
    case False
    assume "(\<And>r. ls_caller (cd_store s) i \<noteq> Returned r) \<Longrightarrow>
      \<exists>l j. ?L l \<and> turns j (cd_store s) l \<and> (in_section (ls_caller (cd_store s) j) \<or> j = i \<and> ls_caller l j = Entered)"
    with False obtain l j where l: "?L l" "turns j (cd_store s) l"
      "in_section (ls_caller (cd_store s) j) \<or> j = i \<and> ls_caller l j = Entered" by blast
    from call_store [OF l(1), of srv] l(2,3) show ?thesis
      by (intro exI [of _ "s\<lparr>cd_store := l\<rparr>"] exI [of _ j]) simp
  qed
qed

section \<open>Properties\<close>

text \<open>The answer of a call that is not an enrollment, and that of one.\<close>

lemma answer_served:
  assumes "calls_reach procs srv calls m0 st0 s" "cd_at s i = Answered a" "\<nexists>req. call_rpc (calls i) = RpcEnroll req"
  shows "a = snd (serve_call AgentTable srv (calls i) (serve_all AgentTable srv (map calls (written_before i s)) st0))"
proof -
  have inv: "calls_inv srv calls st0 s" by (rule calls_reach_inv [OF assms(1)])
  then have l: "log_right srv calls st0 (cd_log s)" by (simp add: calls_inv_def)
  show ?thesis
  proof (cases "map_of (cd_log s) i")
    case None
    with calls_invD(2) [OF inv, of i] assms(2,3)
    have "\<not> call_locks srv (calls i)" and ans: "a = snd (serve_call AgentTable srv (calls i) st0)"
      by (auto split: rpc.splits)
    from serve_call_unlocked [OF this(1) assms(3)] ans show ?thesis by metis
  next
    case (Some v)
    with calls_invD(2) [OF inv, of i] assms(2) have "a = call_finish (calls i) v" by simp
    with log_verdict [OF l map_of_SomeD [OF Some]] show ?thesis
      by (simp add: written_before_def write_order_def)
  qed
qed

lemma log_right_locks: "log_right srv calls st0 log \<Longrightarrow> i \<in> fst ` set log \<Longrightarrow> call_locks srv (calls i)"
  by (induction log) (auto, force)

lemma answer_enrolled:
  assumes "calls_reach procs srv calls m0 st0 s" "cd_at s i = Answered a" "call_rpc (calls i) = RpcEnroll req"
  obtains r where "ls_caller (cd_store s) i = Returned r" "a = AnsEnroll (enroll_answer (call_world (calls i)) srv req r)"
proof -
  have inv: "calls_inv srv calls st0 s" by (rule calls_reach_inv [OF assms(1)])
  then have "\<not> i \<in> fst ` set (cd_log s)"
    using log_right_locks [of srv calls st0 "cd_log s" i] assms(3) by (auto simp: calls_inv_def call_locks_def)
  then have "map_of (cd_log s) i = None" by (simp add: map_of_eq_None_iff)
  with calls_invD(2) [OF inv, of i] assms(2,3) that show thesis by auto
qed

lemma store_apart:
  assumes "calls_reach procs srv calls m0 st0 s" "\<not> ls_together (cd_store s)"
  shows "ls_file (cd_store s) = Whole (replay (store_calls procs calls) m0 (ls_log (cd_store s)))"
    and "ls_caller (cd_store s) i = Returned (Inr role) \<Longrightarrow>
      verdict (store_calls procs calls) m0 (ls_log (cd_store s)) i = Some (Inr role)"
proof -
  have lin: "lock_lin (store_calls procs calls) m0 (cd_store s)"
    using lock_reach_inv [OF calls_reach_store [OF assms(1)] assms(2)] by blast
  show "ls_file (cd_store s) = Whole (replay (store_calls procs calls) m0 (ls_log (cd_store s)))"
    by (rule lock_linD(1) [OF lin])
  show "verdict (store_calls procs calls) m0 (ls_log (cd_store s)) i = Some (Inr role)"
    if "ls_caller (cd_store s) i = Returned (Inr role)"
    using linearized [OF lin that] .
qed

text \<open>The pending approvals are those of the calls that wrote them.\<close>

lemma calls_reach_written:
  assumes "calls_reach procs srv calls m0 st0 s"
  shows "cd_grants s = as_grants (serve_all AgentTable srv (map calls (write_order s)) st0)"
    and "distinct (write_order s)"
  using calls_reach_inv [OF assms] log_right_distinct [of srv calls st0 "cd_log s"]
  by (simp_all add: calls_inv_def replayed_serve_all write_order_def)

text \<open>
  C21: overlapping calls are linearizable, enrollments as far as the token store is. Whatever steps
  any number of calls to the daemon and of other users of its token store take, in whatever order,
  and whatever happens to its other files meanwhile: the pending approvals are those of the calls
  that wrote them, served one after the other, and each wrote at most once. Every answer to a call
  other than an enrollment is the answer of serving that call after the ones that wrote before it.
  Every answer to an enrollment is the handler's on what its \<^verbatim>\<open>Consume\<close> returned; and unless a
  caller has entered the store by the short cut of a locked handle (which the daemon's own
  enrollments can do), a token it was given is the verdict of the store's calls run one
  after the other, in the order in which they replaced the file, and this run leaves what the file
  holds.
\<close>

theorem overlapping_calls_linearizable:
  assumes "calls_reach procs srv calls m0 st0 s"
  shows "cd_grants s = as_grants (serve_all AgentTable srv (map calls (write_order s)) st0) \<and>
    distinct (write_order s) \<and>
    (\<forall>i a. cd_at s i = Answered a \<longrightarrow>
       (case call_rpc (calls i) of
          RpcEnroll req \<Rightarrow> \<exists>r. ls_caller (cd_store s) i = Returned r \<and>
            a = AnsEnroll (enroll_answer (call_world (calls i)) srv req r) \<and>
            (\<not> ls_together (cd_store s) \<and> \<not> isl r \<longrightarrow>
               verdict (store_calls procs calls) m0 (ls_log (cd_store s)) i = Some r)
        | _ \<Rightarrow> a = snd (serve_call AgentTable srv (calls i)
            (serve_all AgentTable srv (map calls (written_before i s)) st0)))) \<and>
    (\<not> ls_together (cd_store s) \<longrightarrow>
       ls_file (cd_store s) = Whole (replay (store_calls procs calls) m0 (ls_log (cd_store s))))"
proof -
  have ans: "case call_rpc (calls i) of
      RpcEnroll req \<Rightarrow> \<exists>r. ls_caller (cd_store s) i = Returned r \<and>
        a = AnsEnroll (enroll_answer (call_world (calls i)) srv req r) \<and>
        (\<not> ls_together (cd_store s) \<and> \<not> isl r \<longrightarrow>
           verdict (store_calls procs calls) m0 (ls_log (cd_store s)) i = Some r)
    | _ \<Rightarrow> a = snd (serve_call AgentTable srv (calls i)
        (serve_all AgentTable srv (map calls (written_before i s)) st0))"
    if a: "cd_at s i = Answered a" for i a
  proof (cases "\<exists>req. call_rpc (calls i) = RpcEnroll req")
    case True
    then obtain req where req: "call_rpc (calls i) = RpcEnroll req" by blast
    from answer_enrolled [OF assms a req] obtain r where r: "ls_caller (cd_store s) i = Returned r"
      "a = AnsEnroll (enroll_answer (call_world (calls i)) srv req r)" by blast
    with store_apart(2) [OF assms, of i] req show ?thesis by (cases r) auto
  next
    case False
    with answer_served [OF assms a] show ?thesis by (auto split: rpc.split)
  qed
  then show ?thesis
    using calls_reach_written [OF assms] store_apart(1) [OF assms] by blast
qed

text \<open>
  C22: an approval is good for one of any number of overlapping calls. If two deploys with the same
  approval id have both been answered, in any interleaving, and no call has drawn this id anew,
  then one of them was refused as an unusable approval and sent nothing.
\<close>

theorem one_approval_one_run:
  assumes "calls_reach procs srv calls m0 st0 s" "\<And>k. \<not> draws (calls k) aid" "aid \<noteq> []" "i \<noteq> j"
    and "call_rpc (calls i) = RpcDeploy req" "er_ApprovalId req = aid" "caller_role (call_ctx (calls i)) = RoleAdmin"
    and "call_rpc (calls j) = RpcDeploy req'" "er_ApprovalId req' = aid" "caller_role (call_ctx (calls j)) = RoleAdmin"
    and "cd_at s i = Answered a" "cd_at s j = Answered b"
  shows "\<exists>err. Answered (AnsStream [] (Some (Errorf PermissionDenied ''approval: %v'' [grants_error_text err]))) \<in>
    {cd_at s i, cd_at s j}"
proof -
  have inv: "calls_inv srv calls st0 s" by (rule calls_reach_inv [OF assms(1)])
  then have l: "log_right srv calls st0 (cd_log s)" by (simp add: calls_inv_def)
  have locks: "call_locks srv (calls i)" "call_locks srv (calls j)"
    using assms(3,5-10) by (auto simp: call_locks_def deploy_locks_def admitted_roles)
  obtain v w where v: "map_of (cd_log s) i = Some v" "a = call_finish (calls i) v"
    and w: "map_of (cd_log s) j = Some w" "b = call_finish (calls j) w"
    using calls_invD(2) [OF inv, of i] calls_invD(2) [OF inv, of j] assms(11,12) locks
    by (auto split: option.splits)
  have "v \<noteq> None \<or> w \<noteq> None"
  proof (rule ccontr)
    assume "\<not> ?thesis"
    then have "(i, None) \<in> set (cd_log s)" "(j, None) \<in> set (cd_log s)"
      using map_of_SomeD [OF v(1)] map_of_SomeD [OF w(1)] by simp_all
    from one_redeemer [OF l assms(2,3) this] assms(4-10) show False by (simp add: redeems_def)
  qed
  then show ?thesis
    using v(2) w(2) assms(3,5-12) by (auto simp: call_finish_def deploy_finish_def nothing_sent_def)
qed

text \<open>
  C30: overlapping calls never block each other for good. In every reachable state with an
  unanswered call some call can take a step towards its answer, so the mutex is never left locked;
  for an enrollment this step may be one in the token store, of a caller that is inside or
  enters, so neither is its lock. Every step but a change of the other files brings exactly one call
  nearer to its answer, from which it is never more than five steps away, or one user of the store
  nearer to its return, never more than six away.
\<close>

theorem overlapping_calls_progress:
  assumes "calls_reach procs srv calls m0 st0 s" "cd_at s i \<notin> range Answered"
  shows "(if \<exists>req. call_rpc (calls i) = RpcEnroll req
      then \<exists>t j. call_step procs srv calls s t \<and> (moves j s t \<or>
        turns j (cd_store s) (cd_store t) \<and>
          (in_section (ls_caller (cd_store s) j) \<or> ls_caller (cd_store t) j = Entered))
      else \<exists>t j. call_step procs srv calls s t \<and> moves j s t) \<and>
    (\<forall>t. call_step procs srv calls s t \<longrightarrow> cd_at t = cd_at s \<and> cd_store t = cd_store s \<or>
       (\<exists>j. moves j s t) \<and> cd_store t = cd_store s \<or>
       cd_at t = cd_at s \<and> (\<exists>j. turns j (cd_store s) (cd_store t))) \<and>
    (\<forall>j. steps_left (cd_at s j) \<le> 5 \<and> store_left (ls_caller (cd_store s) j) \<le> 6)"
proof (intro conjI)
  note inv = calls_reach_inv [OF assms(1)]
  show "if \<exists>req. call_rpc (calls i) = RpcEnroll req
      then \<exists>t j. call_step procs srv calls s t \<and> (moves j s t \<or>
        turns j (cd_store s) (cd_store t) \<and>
          (in_section (ls_caller (cd_store s) j) \<or> ls_caller (cd_store t) j = Entered))
      else \<exists>t j. call_step procs srv calls s t \<and> moves j s t"
  proof (cases "cd_at s i = Arrived")
    case True
    show ?thesis
    proof (cases "\<exists>req. call_rpc (calls i) = RpcEnroll req")
      case enroll: True
      from enroll_moves [OF assms(1) True this] enroll show ?thesis by auto
    next
      case False
      from arrived_call_moves [OF inv True False, of procs] False show ?thesis by auto
    qed
  next
    case False
    with assms(2) have "steps_left (cd_at s i) \<in> {1, 2, 3, 4}" by (cases "cd_at s i") auto
    from started_call_moves [OF this, of procs srv calls] show ?thesis by (auto split: if_split)
  qed
  show "\<forall>t. call_step procs srv calls s t \<longrightarrow> cd_at t = cd_at s \<and> cd_store t = cd_store s \<or>
       (\<exists>j. moves j s t) \<and> cd_store t = cd_store s \<or>
       cd_at t = cd_at s \<and> (\<exists>j. turns j (cd_store s) (cd_store t))"
    using call_step_moves by blast
  show "\<forall>j. steps_left (cd_at s j) \<le> 5 \<and> store_left (ls_caller (cd_store s) j) \<le> 6"
    using steps_left_le store_left_le by blast
qed

section \<open>The properties at concrete inputs\<close>

text \<open>The five steps of one deploy.\<close>

lemma deploy_passes:
  assumes "calls_reach procs srv calls m0 st0 s" "cd_at s i = Arrived" "call_locks srv (calls i)" "cd_mutex s = None"
    and "call_section (calls i) (cd_grants s) = (G, v)"
  shows "calls_reach procs srv calls m0 st0 (s\<lparr>cd_grants := G, cd_log := (i, v) # cd_log s,
    cd_at := (cd_at s)(i := Answered (call_finish (calls i) v))\<rparr>)"
proof -
  let ?at = "\<lambda>p. (cd_at s)(i := p)"
  have "calls_reach procs srv calls m0 st0 (s\<lparr>cd_mutex := Some i, cd_at := ?at Holding\<rparr>)"
    by (rule reach_step [OF assms(1) call_lock [where i = i and calls = calls and s = s, OF assms(2-4)]])
  from reach_step [OF this call_read [where i = i]]
  have "calls_reach procs srv calls m0 st0 (s\<lparr>cd_mutex := Some i, cd_at := ?at (Reading (cd_grants s))\<rparr>)" by simp
  from reach_step [OF this call_write [where i = i and calls = calls and m = "cd_grants s", OF _ assms(5)]]
  have "calls_reach procs srv calls m0 st0 (s\<lparr>cd_mutex := Some i, cd_grants := G, cd_at := ?at (Wrote v),
      cd_log := (i, v) # cd_log s\<rparr>)" by simp
  from reach_step [OF this call_unlock [where i = i and v = v]]
  have "calls_reach procs srv calls m0 st0 (s\<lparr>cd_grants := G, cd_log := (i, v) # cd_log s, cd_mutex := None,
      cd_at := ?at (Going v)\<rparr>)" by (cases s) simp
  from reach_step [OF this call_answer [where i = i and v = v]]
  show ?thesis using assms(4) by (cases s) simp
qed

text \<open>Nobody else uses the token store.\<close>

abbreviation quiet :: "nat \<Rightarrow> store_call" where
  "quiet \<equiv> \<lambda>_. CallConsume '''' 0"

text \<open>Two admins hold the same approval; the first to reach the mutex runs, the second is refused.\<close>

abbreviation pending_agent :: agent_state where
  "pending_agent \<equiv> fresh_agent\<lparr>as_grants := [demo_approval \<mapsto> \<lparr>g_command = ''kubectl'', g_expiry = 300 * time_Second\<rparr>]\<rparr>"

abbreviation redeeming :: "nat \<Rightarrow> call" where
  "redeeming k \<equiv> demo_call RoleAdmin 100 (RpcDeploy (exec_request ''kubectl'' [] demo_approval))"

lemma demo_overlap:
  obtains s where "calls_reach quiet (demo_server ask_policy) redeeming Map.empty pending_agent s"
    "cd_at s 0 = Answered (AnsStream [ExecChunk_Stdout ''ok'', ExecChunk_ExitCode 0] None)"
    "\<exists>a. cd_at s 1 = Answered a" "write_order s = [0, 1]"
proof -
  have locks: "call_locks (demo_server ask_policy) (redeeming k)" for k
    by (simp add: call_locks_def deploy_locks_def demo_call_def admitted_roles demo_approval_def)
  let ?c = "redeeming 0" and ?s0 = "calls_start Map.empty pending_agent"
  have sec: "call_section ?c [demo_approval \<mapsto> \<lparr>g_command = ''kubectl'', g_expiry = 300 * time_Second\<rparr>] = (Map.empty, None)"
      "call_section ?c Map.empty = (Map.empty, Some ErrNoGrant)"
    by (simp_all add: call_section_def demo_call_def deploy_section_def Grants_Consume_def demo_approval_def time_Second_def)
  have fin: "call_finish ?c None = AnsStream [ExecChunk_Stdout ''ok'', ExecChunk_ExitCode 0] None"
    by (simp add: call_finish_def demo_call_def deploy_finish_def demo_stream_differs) (simp add: demo_approval_def)
  have one: "calls_reach quiet (demo_server ask_policy) redeeming Map.empty pending_agent
      (?s0\<lparr>cd_grants := Map.empty, cd_log := (0, None) # cd_log ?s0,
        cd_at := (cd_at ?s0)(0 := Answered (call_finish ?c None))\<rparr>)"
    by (rule deploy_passes [OF reach_start]) (simp_all add: calls_start_def locks sec(1))
  from deploy_passes [OF one, of 1 Map.empty "Some ErrNoGrant"] locks sec(2)
  show thesis
    by (intro that) (auto simp: calls_start_def fin write_order_def)
qed

theorem one_approval_one_run_witness:
  "\<exists>(s :: daemon_calls) err. cd_at s 1 = Answered (AnsStream [] (Some (Errorf PermissionDenied ''approval: %v'' [grants_error_text err])))"
proof (rule demo_overlap)
  fix s :: daemon_calls
  assume s: "calls_reach quiet (demo_server ask_policy) redeeming Map.empty pending_agent s"
    "cd_at s 0 = Answered (AnsStream [ExecChunk_Stdout ''ok'', ExecChunk_ExitCode 0] None)"
    "\<exists>a. cd_at s 1 = Answered a"
  then obtain a where a: "cd_at s 1 = Answered a" by blast
  have "\<exists>err. Answered (AnsStream [] (Some (Errorf PermissionDenied ''approval: %v'' [grants_error_text err]))) \<in>
    {cd_at s 0, cd_at s 1}"
    by (rule one_approval_one_run [OF s(1), of demo_approval 0 1, OF _ _ _ _ _ _ _ _ _ s(2) a])
       (auto simp: draws_def demo_call_def demo_approval_def)
  with s(2) show ?thesis by (intro exI [of _ s]) (auto dest: sym)
qed

theorem overlapping_calls_linearizable_witness:
  "\<exists>(s :: daemon_calls). write_order s = [0, 1] \<and>
     cd_grants s = as_grants (serve_all AgentTable (demo_server ask_policy) [redeeming 0, redeeming 1] pending_agent)"
proof (rule demo_overlap)
  fix s :: daemon_calls
  assume "calls_reach quiet (demo_server ask_policy) redeeming Map.empty pending_agent s" "write_order s = [0, 1]"
  with overlapping_calls_linearizable [OF this(1)] show ?thesis by (intro exI [of _ s]) simp
qed

theorem overlapping_calls_progress_witness:
  "\<exists>t j. call_step quiet (demo_server ask_policy) redeeming (calls_start Map.empty pending_agent) t \<and>
     moves j (calls_start Map.empty pending_agent) t"
proof -
  have "cd_at (calls_start Map.empty pending_agent) 0 \<notin> range Answered" by (auto simp: calls_start_def)
  from overlapping_calls_progress [OF reach_start this, of redeeming quiet "demo_server ask_policy"] show ?thesis
    by (simp add: demo_call_def split: if_split_asm)
qed

end
