(* ===== verification/Command_Tree.thy ===== *)
theory Command_Tree
  imports Rexec_Prelude Go_Strings
begin

text \<open>
  Command trees, as the two programs build them for the package \<^verbatim>\<open>spf13/cobra\<close>: a command has a usage
  line, flags of its own and flags its subcommands inherit, a check of its arguments, an action and
  subcommands. What the package does with a tree and a command line is a parameter; its documented
  behaviour on the command lines that matter here is the hypothesis \<open>cobra_laws\<close>.
\<close>

section \<open>Trees\<close>

datatype flag_value =
    StringFlag string
  | BoolFlag bool
  | DurationFlag duration
  | StringArrayFlag "string list"

type_synonym flag_set = "(string \<times> flag_value) list"

text \<open>\<^verbatim>\<open>cobra.NoArgs\<close>, \<^verbatim>\<open>cobra.MinimumNArgs\<close>, and no check given.\<close>

datatype args_check = AnyArgs | NoArgs | MinimumNArgs nat

fun args_ok :: "args_check \<Rightarrow> string list \<Rightarrow> bool" where
  "args_ok AnyArgs args = True"
| "args_ok NoArgs args = (args = [])"
| "args_ok (MinimumNArgs n) args = (n \<le> length args)"

datatype 'a command =
  CobraCommand (cm_Use: string) (cm_Args: args_check) (cm_Persistent: flag_set) (cm_Flags: flag_set)
    (cm_Required: "string list") (cm_RunE: "'a option") (cm_Commands: "'a command list")

text \<open>The name of a command is the first word of its usage line.\<close>

definition cm_Name :: "'a command \<Rightarrow> string" where
  "cm_Name c = takeWhile (\<lambda>x. x \<noteq> CHR '' '') (cm_Use c)"

definition find_command :: "'a command \<Rightarrow> string \<Rightarrow> 'a command option" where
  "find_command c w = find (\<lambda>s. cm_Name s = w) (cm_Commands c)"

fun find_path :: "'a command \<Rightarrow> string list \<Rightarrow> 'a command option" where
  "find_path c [] = Some c"
| "find_path c (w # ws) = (case find_command c w of None \<Rightarrow> None | Some s \<Rightarrow> find_path s ws)"

text \<open>The flags a command sees: its own and the inherited ones, the nearest first.\<close>

fun flags_at :: "'a command \<Rightarrow> string list \<Rightarrow> flag_set" where
  "flags_at c [] = cm_Flags c @ cm_Persistent c"
| "flags_at c (w # ws) =
     (case find_command c w of None \<Rightarrow> [] | Some s \<Rightarrow> flags_at s ws @ cm_Persistent c)"

section \<open>Command lines\<close>

datatype flag_arg = WithValue string string | Switch string

fun flag_words :: "flag_arg \<Rightarrow> string list" where
  "flag_words (WithValue n v) = [''--'' @ n, v]"
| "flag_words (Switch n) = [''--'' @ n]"

text \<open>The values of the flags after parsing; a repeated array flag collects its values.\<close>

type_synonym flag_env = "string \<rightharpoonup> flag_value"

fun set_flag :: "flag_arg \<Rightarrow> flag_env \<Rightarrow> flag_env" where
  "set_flag (WithValue n v) env =
     (case env n of
        Some (StringArrayFlag vs) \<Rightarrow> env(n \<mapsto> StringArrayFlag (vs @ [v]))
      | _ \<Rightarrow> env(n \<mapsto> StringFlag v))"
| "set_flag (Switch n) env = env(n \<mapsto> BoolFlag True)"

fun flag_fits :: "flag_set \<Rightarrow> flag_arg \<Rightarrow> bool" where
  "flag_fits fs (WithValue n v) =
     (n \<noteq> [] \<and> (case map_of fs n of Some (StringFlag d) \<Rightarrow> True | Some (StringArrayFlag vs) \<Rightarrow> True | _ \<Rightarrow> False))"
| "flag_fits fs (Switch n) = (n \<noteq> [] \<and> (case map_of fs n of Some (BoolFlag b) \<Rightarrow> True | _ \<Rightarrow> False))"

fun flag_arg_name :: "flag_arg \<Rightarrow> string" where
  "flag_arg_name (WithValue n v) = n"
| "flag_arg_name (Switch n) = n"

text \<open>
  \<^verbatim>\<open>Execute\<close> up to the action it runs: an error, help (no action), or an action with the flags and the
  arguments it gets.
\<close>

type_synonym 'a parsed = "('a \<times> flag_env \<times> string list) option"
type_synonym 'a cobra = "'a command \<Rightarrow> string list \<Rightarrow> string + 'a parsed"

text \<open>
  The documented behaviour for a path to a command without subcommands: after it, flags and
  arguments may be mixed (flags are recognised anywhere), and a double dash makes the rest
  arguments, whatever they look like.
\<close>

type_synonym cli_item = "flag_arg + string"

definition looks_plain :: "string \<Rightarrow> bool" where
  "looks_plain x \<longleftrightarrow> x = [] \<or> hd x \<noteq> CHR ''-''"

fun item_ok :: "flag_set \<Rightarrow> cli_item \<Rightarrow> bool" where
  "item_ok fs (Inl f) = flag_fits fs f"
| "item_ok fs (Inr x) = looks_plain x"

fun item_words :: "cli_item \<Rightarrow> string list" where
  "item_words (Inl f) = flag_words f"
| "item_words (Inr x) = [x]"

fun item_flags :: "cli_item list \<Rightarrow> flag_arg list" where
  "item_flags [] = []"
| "item_flags (Inl f # xs) = f # item_flags xs"
| "item_flags (Inr x # xs) = item_flags xs"

fun item_args :: "cli_item list \<Rightarrow> string list" where
  "item_args [] = []"
| "item_args (Inl f # xs) = item_args xs"
| "item_args (Inr x # xs) = x # item_args xs"

definition dashed :: "string list option \<Rightarrow> string list" where
  "dashed rest = (case rest of None \<Rightarrow> [] | Some ws \<Rightarrow> ''--'' # ws)"

definition the_rest :: "string list option \<Rightarrow> string list" where
  "the_rest rest = (case rest of None \<Rightarrow> [] | Some ws \<Rightarrow> ws)"

definition cobra_laws :: "'a cobra \<Rightarrow> bool" where
  "cobra_laws Execute \<longleftrightarrow>
     (\<forall>root path cmd a items rest.
        find_path root path = Some cmd \<and> cm_RunE cmd = Some a \<and> cm_Commands cmd = [] \<and>
        list_all (item_ok (flags_at root path)) items \<and>
        set (cm_Required cmd) \<subseteq> set (map flag_arg_name (item_flags items)) \<and>
        args_ok (cm_Args cmd) (item_args items @ the_rest rest) \<longrightarrow>
        Execute root (path @ concat (map item_words items) @ dashed rest) =
          Inr (Some (a, fold set_flag (item_flags items) (map_of (flags_at root path)),
            item_args items @ the_rest rest)))"

lemma cobra_lawsD:
  assumes "cobra_laws Execute" "find_path root path = Some cmd" "cm_RunE cmd = Some a" "cm_Commands cmd = []"
    and "list_all (item_ok (flags_at root path)) items"
    and "set (cm_Required cmd) \<subseteq> set (map flag_arg_name (item_flags items))"
    and "args_ok (cm_Args cmd) (item_args items @ the_rest rest)"
  shows "Execute root (path @ concat (map item_words items) @ dashed rest) =
    Inr (Some (a, fold set_flag (item_flags items) (map_of (flags_at root path)), item_args items @ the_rest rest))"
  using assms unfolding cobra_laws_def by blast

text \<open>Only flags.\<close>

lemma items_of_flags [simp]:
  "item_flags (map Inl fs) = fs" "item_args (map Inl fs) = []"
  "concat (map item_words (map Inl fs)) = concat (map flag_words fs)"
  "list_all (item_ok flags) (map Inl fs) \<longleftrightarrow> list_all (flag_fits flags) fs"
  by (induction fs) auto

lemma items_append [simp]:
  "item_flags (xs @ ys) = item_flags xs @ item_flags ys" "item_args (xs @ ys) = item_args xs @ item_args ys"
  by (induction xs rule: item_flags.induct) auto

lemma items_of_args [simp]:
  "item_flags (map Inr xs) = []" "item_args (map Inr xs) = xs" "concat (map item_words (map Inr xs)) = xs"
  "list_all (item_ok flags) (map Inr xs) \<longleftrightarrow> list_all looks_plain xs"
  by (induction xs) auto

lemma cobra_flags:
  assumes "cobra_laws Execute" "find_path root path = Some cmd" "cm_RunE cmd = Some a" "cm_Commands cmd = []"
    and "list_all (flag_fits (flags_at root path)) fs" "set (cm_Required cmd) \<subseteq> set (map flag_arg_name fs)"
    and "args_ok (cm_Args cmd) []"
  shows "Execute root (path @ concat (map flag_words fs)) = Inr (Some (a, fold set_flag fs (map_of (flags_at root path)), []))"
  using cobra_lawsD [OF assms(1-4), of "map Inl fs" None] assms(5-7) by (simp add: dashed_def the_rest_def del: map_map)

text \<open>\<^verbatim>\<open>GetString\<close>, \<^verbatim>\<open>GetBool\<close> and so on, with the zero value the callers take on an error.\<close>

definition get_string :: "flag_env \<Rightarrow> string \<Rightarrow> string" where
  "get_string env n = (case env n of Some (StringFlag v) \<Rightarrow> v | _ \<Rightarrow> [])"

definition get_bool :: "flag_env \<Rightarrow> string \<Rightarrow> bool" where
  "get_bool env n = (case env n of Some (BoolFlag b) \<Rightarrow> b | _ \<Rightarrow> False)"

definition get_duration :: "flag_env \<Rightarrow> string \<Rightarrow> duration" where
  "get_duration env n = (case env n of Some (DurationFlag d) \<Rightarrow> d | _ \<Rightarrow> 0)"

definition get_strings :: "flag_env \<Rightarrow> string \<Rightarrow> string list" where
  "get_strings env n = (case env n of Some (StringArrayFlag vs) \<Rightarrow> vs | _ \<Rightarrow> [])"

section \<open>A concrete parser\<close>

text \<open>One that satisfies the laws, for the concrete instances.\<close>

fun plain_parse :: "flag_set \<Rightarrow> string list \<Rightarrow> flag_env \<Rightarrow> string list \<Rightarrow> string + flag_env \<times> string list" where
  "plain_parse fs [] env acc = Inr (env, acc)"
| "plain_parse fs (w # ws) env acc =
     (if w = ''--'' then Inr (env, acc @ ws)
      else if looks_plain w then plain_parse fs ws env (acc @ [w])
      else case map_of fs (drop 2 w) of
        Some (BoolFlag b) \<Rightarrow> plain_parse fs ws (set_flag (Switch (drop 2 w)) env) acc
      | Some (StringFlag d) \<Rightarrow>
          (case ws of [] \<Rightarrow> Inl w | v # vs \<Rightarrow> plain_parse fs vs (set_flag (WithValue (drop 2 w) v) env) acc)
      | Some (StringArrayFlag d) \<Rightarrow>
          (case ws of [] \<Rightarrow> Inl w | v # vs \<Rightarrow> plain_parse fs vs (set_flag (WithValue (drop 2 w) v) env) acc)
      | _ \<Rightarrow> Inl w)"

fun plain_descend :: "'a command \<Rightarrow> flag_set \<Rightarrow> string list \<Rightarrow> 'a command \<times> flag_set \<times> string list" where
  "plain_descend c inherited [] = (c, cm_Flags c @ cm_Persistent c @ inherited, [])"
| "plain_descend c inherited (w # ws) =
     (case find_command c w of
        None \<Rightarrow> (c, cm_Flags c @ cm_Persistent c @ inherited, w # ws)
      | Some s \<Rightarrow> plain_descend s (cm_Persistent c @ inherited) ws)"

definition plain_cobra :: "'a cobra" where
  "plain_cobra root ws =
     (case plain_descend root [] ws of
        (cmd, fs, rest) \<Rightarrow>
          (case plain_parse fs rest (map_of fs) [] of
             Inl e \<Rightarrow> Inl e
           | Inr (env, args) \<Rightarrow>
               if args_ok (cm_Args cmd) args then Inr (map_option (\<lambda>a. (a, env, args)) (cm_RunE cmd))
               else Inl ''arguments''))"

lemma plain_descend_path:
  assumes "find_path root path = Some cmd" "cm_Commands cmd = []"
  shows "plain_descend root inherited (path @ rest) = (cmd, flags_at root path @ inherited, rest)"
  using assms
proof (induction root path arbitrary: inherited rule: find_path.induct)
  case (1 c)
  then show ?case by (cases rest) (auto simp: find_command_def)
next
  case (2 c w ws)
  then show ?case by (auto split: option.splits)
qed

lemma plain_parse_items:
  assumes "list_all (item_ok fs) items"
  shows "plain_parse fs (concat (map item_words items) @ dashed rest) env acc =
    Inr (fold set_flag (item_flags items) env, acc @ item_args items @ the_rest rest)"
  using assms
proof (induction items arbitrary: env acc)
  case Nil
  then show ?case by (cases rest) (auto simp: dashed_def the_rest_def)
next
  case (Cons x items)
  show ?case
  proof (cases x)
    case (Inr w)
    with Cons show ?thesis by (auto simp: looks_plain_def)
  next
    case (Inl f)
    show ?thesis
    proof (cases f)
      case (WithValue n v)
      with Inl Cons.prems have n: "n \<noteq> []" "(\<exists>d. map_of fs n = Some (StringFlag d)) \<or> (\<exists>d. map_of fs n = Some (StringArrayFlag d))"
        by (auto split: option.splits flag_value.splits)
      with Inl WithValue Cons show ?thesis by (auto simp: looks_plain_def simp del: set_flag.simps)
    next
      case (Switch n)
      with Inl Cons.prems have n: "n \<noteq> []" "\<exists>b. map_of fs n = Some (BoolFlag b)"
        by (auto split: option.splits flag_value.splits)
      with Inl Switch Cons show ?thesis by (auto simp: looks_plain_def simp del: set_flag.simps)
    qed
  qed
qed

lemma plain_cobra_laws: "cobra_laws plain_cobra"
  unfolding cobra_laws_def
proof (intro allI impI, elim conjE)
  fix root :: "'a command" and path cmd a items rest
  assume a: "find_path root path = Some cmd" "cm_RunE cmd = Some a" "cm_Commands cmd = []"
    "list_all (item_ok (flags_at root path)) items" "args_ok (cm_Args cmd) (item_args items @ the_rest rest)"
  show "plain_cobra root (path @ concat (map item_words items) @ dashed rest) =
      Inr (Some (a, fold set_flag (item_flags items) (map_of (flags_at root path)), item_args items @ the_rest rest))"
    using plain_descend_path [OF a(1,3), of "[]" "concat (map item_words items) @ dashed rest"]
      plain_parse_items [OF a(4), of rest "map_of (flags_at root path)" "[]"] a(2,5)
    by (simp add: plain_cobra_def)
qed

end
