(* ===== verification/Agentd_Main.thy ===== *)
theory Agentd_Main
  imports Command_Tree Service_Control Platform_Db
begin

text \<open>
  \<^verbatim>\<open>cmd/rexec-agentd/main.go\<close> and \<^verbatim>\<open>internal/app/app.go\<close> beside it: the daemon's program from its
  command line to its exit status. The actions of the command tree are the commands of
  \<^verbatim>\<open>agentcmds.go\<close> and \<^verbatim>\<open>servicecmds.go\<close>, run with the flags that were parsed; the command-line package
  and the runtime package \<^verbatim>\<open>mantle/bootstrap\<close> are parameters.
\<close>

section \<open>The application\<close>

record 'b agentd_app =
  aapp_Base :: 'b

definition agentd_app_New :: "'b \<Rightarrow> 'b agentd_app" where
  "agentd_app_New DefaultBase = \<lparr>aapp_Base = DefaultBase\<rparr>"

section \<open>The machine and the process\<close>

datatype printed =
    CaInitialised string string string
  | TokenValue string
  | TokenGranted string duration
  | ServiceStatus string
  | MainError string

text \<open>What a process can change: files, open databases, the service manager, and what was printed.\<close>

record 'm machine =
  m_os :: os
  m_handles :: handles
  m_manager :: 'm
  m_out :: "printed list"

datatype main_error = MainAgent agentd_error | MainService string | MainCore core_error | MainBoot string

text \<open>
  A \<^verbatim>\<open>RunE\<close>: the parsed flags and the arguments in, the machine and the returned error out (\<open>None\<close>
  while it has not returned).
\<close>

type_synonym 'm runE = "flag_env \<Rightarrow> string list \<Rightarrow> 'm machine \<Rightarrow> 'm machine \<times> main_error option option"

record runtime =
  rt_Shutdown :: "string option"

type_synonym 'm core_fn = "flag_env \<Rightarrow> runtime \<Rightarrow> 'm machine \<Rightarrow> 'm machine \<times> core_error option option"

datatype boot_option = WithAppName string | WithVersion string | WithConfigPath string | WithEnvPrefix string

text \<open>What the process finds around it, beside the machine's own record.\<close>

record ('b, 'm) surroundings =
  su_agent :: agentd
  su_sql :: sql_driver
  su_Getenv :: "string \<Rightarrow> string"
  su_Listen :: "string \<Rightarrow> string option"
  su_events :: "serve_event list"
  su_service_New :: "program \<Rightarrow> service_config \<Rightarrow> string + 'm service"
  su_version :: string
  su_Execute :: "'m runE cobra"
  su_DefaultBase :: 'b
  su_Serve :: "'m runE command \<Rightarrow> 'b agentd_app \<Rightarrow> 'm core_fn \<Rightarrow> boot_option list \<Rightarrow> string + 'm runE command"

text \<open>The flags on the root, as every command below it reads them.\<close>

definition with_flags :: "agentd \<Rightarrow> flag_env \<Rightarrow> agentd" where
  "with_flags A env = A\<lparr>ad_data_dir := get_string env ''data-dir'', ad_listen := get_string env ''listen''\<rparr>"

section \<open>The command tree\<close>

definition ca_init_RunE :: "agentd \<Rightarrow> 'm runE" where
  "ca_init_RunE A env args m =
     (case ca_init (with_flags A env) (get_bool env ''force'') (m_os m) of
        (s, Inl err) \<Rightarrow> (m\<lparr>m_os := s\<rparr>, Some (Some (MainAgent err)))
      | (s, Inr (aid, fp)) \<Rightarrow>
          (m\<lparr>m_os := s, m_out := m_out m @ [CaInitialised (dataDirOf (with_flags A env)) aid fp]\<rparr>, Some None))"

definition caInitCmd :: "agentd \<Rightarrow> 'm runE command" where
  "caInitCmd A =
     CobraCommand ''ca'' AnyArgs [] [] [] None
       [CobraCommand ''init'' AnyArgs [] [(''force'', BoolFlag False)] [] (Some (ca_init_RunE A)) []]"

definition token_new_RunE :: "agentd \<Rightarrow> 'm runE" where
  "token_new_RunE A env args m =
     (let role = get_string env ''role''; ttl = get_duration env ''ttl'' in
      case token_new (with_flags A env) role ttl (m_os m) of
        (s, Inl err) \<Rightarrow> (m\<lparr>m_os := s\<rparr>, Some (Some (MainAgent err)))
      | (s, Inr v) \<Rightarrow> (m\<lparr>m_os := s, m_out := m_out m @ [TokenValue v, TokenGranted role ttl]\<rparr>, Some None))"

definition tokenCmd :: "agentd \<Rightarrow> 'm runE command" where
  "tokenCmd A =
     CobraCommand ''token'' AnyArgs [] [] [] None
       [CobraCommand ''new'' AnyArgs []
          [(''role'', StringFlag ''rex:reader''), (''ttl'', DurationFlag (10 * time_Minute))] []
          (Some (token_new_RunE A)) []]"

definition service_RunE ::
  "(program \<Rightarrow> service_config \<Rightarrow> string + 'm service) \<Rightarrow> agentd \<Rightarrow> string \<Rightarrow> service_cmd \<Rightarrow> 'm runE" where
  "service_RunE service_New A version c env args m =
     (case service_command service_New (with_flags A env) version c (m_manager m) of
        (mgr, Inl err) \<Rightarrow> (m\<lparr>m_manager := mgr\<rparr>, Some (Some (MainService err)))
      | (mgr, Inr line) \<Rightarrow>
          (m\<lparr>m_manager := mgr, m_out := m_out m @ (if c = SStatus then [ServiceStatus line] else [])\<rparr>,
           Some None))"

definition serviceCmd ::
  "(program \<Rightarrow> service_config \<Rightarrow> string + 'm service) \<Rightarrow> agentd \<Rightarrow> string \<Rightarrow> 'm runE command" where
  "serviceCmd service_New A version =
     (let action = (\<lambda>name c. CobraCommand name AnyArgs [] [] [] (Some (service_RunE service_New A version c)) []) in
      CobraCommand ''service'' AnyArgs [] [] [] None
        ([action ''install'' SInstall, action ''uninstall'' SUninstall, action ''start'' SStart,
          action ''stop'' SStop] @
         [action ''status'' SStatus, action ''run'' SRun]))"

definition agentCommands ::
  "(program \<Rightarrow> service_config \<Rightarrow> string + 'm service) \<Rightarrow> agentd \<Rightarrow> string \<Rightarrow> 'm runE command list" where
  "agentCommands service_New A version = [caInitCmd A, tokenCmd A, serviceCmd service_New A version]"

section \<open>main\<close>

text \<open>The closure \<^verbatim>\<open>core\<close>, which reads the flags of the serve command.\<close>

definition main_core :: "('b, 'm) surroundings \<Rightarrow> 'm core_fn" where
  "main_core E env rt m =
     (case agentd_core (su_sql E) (su_Getenv E) (rt_Shutdown rt) (with_flags (su_agent E) env) (su_Listen E)
         (su_version E) (su_events E) (m_os m, m_handles m) of
        ((s, hs), r) \<Rightarrow> (m\<lparr>m_os := s, m_handles := hs\<rparr>, r))"

definition serveCmd :: "'m runE command" where
  "serveCmd = CobraCommand ''serve'' AnyArgs [] [] [] None []"

definition agentd_options :: "string \<Rightarrow> boot_option list" where
  "agentd_options version =
     [WithAppName ''rexec-agentd'', WithVersion version, WithConfigPath ''config.yaml'', WithEnvPrefix ''REMOTE_EXEC'']"

definition agentd_root :: "('b, 'm) surroundings \<Rightarrow> 'm runE command \<Rightarrow> 'm runE command" where
  "agentd_root E serve =
     CobraCommand ''rexec-agentd'' AnyArgs
       [(''data-dir'', StringFlag (defaultDataDir (su_agent E))), (''listen'', StringFlag ''127.0.0.1:50000'')]
       [] [] None
       (agentCommands (su_service_New E) (su_agent E) (su_version E) @ [serve])"

text \<open>The exit status, or \<open>None\<close> while the process runs.\<close>

definition agentd_main :: "('b, 'm) surroundings \<Rightarrow> string list \<Rightarrow> 'm machine \<Rightarrow> 'm machine \<times> nat option" where
  "agentd_main E argv m =
     (case su_Serve E serveCmd (agentd_app_New (su_DefaultBase E)) (main_core E) (agentd_options (su_version E)) of
        Inl err \<Rightarrow> (m\<lparr>m_out := m_out m @ [MainError err]\<rparr>, Some 1)
      | Inr serve \<Rightarrow>
          (case su_Execute E (agentd_root E serve) argv of
             Inl err \<Rightarrow> (m, Some 1)
           | Inr None \<Rightarrow> (m, Some 0)
           | Inr (Some (act, env, args)) \<Rightarrow>
               (case act env args m of
                  (m', None) \<Rightarrow> (m', None)
                | (m', Some (Some err)) \<Rightarrow> (m', Some 1)
                | (m', Some None) \<Rightarrow> (m', Some 0))))"

section \<open>Lemmas\<close>

definition exit_status :: "'e option option \<Rightarrow> nat option" where
  "exit_status r = map_option (\<lambda>e. if e = None then 0 else 1) r"

lemma exit_status_simps [simp]:
  "exit_status None = None" "exit_status (Some None) = Some 0" "exit_status (Some (Some e)) = Some 1"
  by (simp_all add: exit_status_def)

lemma exit_status_0 [simp]: "exit_status r = Some 0 \<longleftrightarrow> r = Some None"
  by (cases r) (auto simp: exit_status_def)

text \<open>A command line that names a command of the tree and flags it has, runs it.\<close>

lemma agentd_main_runs:
  assumes "su_Serve E serveCmd (agentd_app_New (su_DefaultBase E)) (main_core E) (agentd_options (su_version E)) = Inr serve"
    and "cobra_laws (su_Execute E)"
    and "find_path (agentd_root E serve) path = Some cmd" "cm_RunE cmd = Some act" "cm_Commands cmd = []"
    and "cm_Required cmd = []" "args_ok (cm_Args cmd) []"
    and "flags_at (agentd_root E serve) path = flags" "list_all (flag_fits flags) fs"
  shows "agentd_main E (path @ concat (map flag_words fs)) m =
    map_prod (\<lambda>x. x) exit_status (act (fold set_flag fs (map_of flags)) [] m)"
proof -
  have "su_Execute E (agentd_root E serve) (path @ concat (map flag_words fs)) =
      Inr (Some (act, fold set_flag fs (map_of (flags_at (agentd_root E serve) path)), []))"
    by (rule cobra_flags [OF assms(2,3,4,5)]) (use assms in simp_all)
  then show ?thesis using assms(1,8)
    by (auto simp: agentd_main_def split: prod.splits option.splits)
qed

lemmas tree_defs = agentd_root_def agentCommands_def caInitCmd_def tokenCmd_def serviceCmd_def
  find_command_def cm_Name_def Let_def

text \<open>The commands on their command lines.\<close>

lemma main_ca_init:
  assumes "su_Serve E serveCmd (agentd_app_New (su_DefaultBase E)) (main_core E) (agentd_options (su_version E)) = Inr serve"
    and "cobra_laws (su_Execute E)"
  shows "agentd_main E [''ca'', ''init'', ''--data-dir'', dir] m = map_prod (\<lambda>x. x) exit_status
    (ca_init_RunE (su_agent E) [''data-dir'' \<mapsto> StringFlag dir, ''listen'' \<mapsto> StringFlag ''127.0.0.1:50000'',
       ''force'' \<mapsto> BoolFlag False] [] m)"
proof -
  let ?root = "agentd_root E serve"
  have at: "find_path ?root [''ca'', ''init''] =
      Some (CobraCommand ''init'' AnyArgs [] [(''force'', BoolFlag False)] [] (Some (ca_init_RunE (su_agent E))) [])"
    by (simp add: tree_defs)
  have fl: "flags_at ?root [''ca'', ''init''] = [(''force'', BoolFlag False),
      (''data-dir'', StringFlag (defaultDataDir (su_agent E))), (''listen'', StringFlag ''127.0.0.1:50000'')]"
    by (simp add: tree_defs)
  show ?thesis
    using agentd_main_runs [OF assms at _ _ _ _ fl, where fs = "[WithValue ''data-dir'' dir]" and m = m]
    by (simp add: fun_upd_twist)
qed

lemma main_token_new:
  assumes "su_Serve E serveCmd (agentd_app_New (su_DefaultBase E)) (main_core E) (agentd_options (su_version E)) = Inr serve"
    and "cobra_laws (su_Execute E)"
  shows "agentd_main E [''token'', ''new'', ''--data-dir'', dir, ''--role'', role] m = map_prod (\<lambda>x. x) exit_status
    (token_new_RunE (su_agent E) [''data-dir'' \<mapsto> StringFlag dir, ''listen'' \<mapsto> StringFlag ''127.0.0.1:50000'',
       ''role'' \<mapsto> StringFlag role, ''ttl'' \<mapsto> DurationFlag (10 * time_Minute)] [] m)"
proof -
  let ?root = "agentd_root E serve"
  have at: "find_path ?root [''token'', ''new''] = Some (CobraCommand ''new'' AnyArgs []
      [(''role'', StringFlag ''rex:reader''), (''ttl'', DurationFlag (10 * time_Minute))] []
      (Some (token_new_RunE (su_agent E))) [])"
    by (simp add: tree_defs)
  have fl: "flags_at ?root [''token'', ''new''] = [(''role'', StringFlag ''rex:reader''),
      (''ttl'', DurationFlag (10 * time_Minute)),
      (''data-dir'', StringFlag (defaultDataDir (su_agent E))), (''listen'', StringFlag ''127.0.0.1:50000'')]"
    by (simp add: tree_defs)
  let ?flags = "[(''role'', StringFlag ''rex:reader''), (''ttl'', DurationFlag (10 * time_Minute)),
      (''data-dir'', StringFlag (defaultDataDir (su_agent E))), (''listen'', StringFlag ''127.0.0.1:50000'')]"
  have "fold set_flag [WithValue ''data-dir'' dir, WithValue ''role'' role] (map_of ?flags) =
      [''data-dir'' \<mapsto> StringFlag dir, ''listen'' \<mapsto> StringFlag ''127.0.0.1:50000'',
       ''role'' \<mapsto> StringFlag role, ''ttl'' \<mapsto> DurationFlag (10 * time_Minute)]"
    by (simp add: fun_eq_iff)
  then show ?thesis
    using agentd_main_runs [OF assms at _ _ _ _ fl, where fs = "[WithValue ''data-dir'' dir, WithValue ''role'' role]" and m = m]
    by simp
qed

text \<open>
  The documented effect of \<^verbatim>\<open>bootstrap.Serve\<close>: the command it is given gets an action that sets the
  runtime up and runs the function; flags of its own do not hide the two of the root.
\<close>

definition boot_serves :: "('b, 'm) surroundings \<Rightarrow> runtime \<Rightarrow> 'm runE command \<Rightarrow> bool" where
  "boot_serves E rt serve \<longleftrightarrow>
     su_Serve E serveCmd (agentd_app_New (su_DefaultBase E)) (main_core E) (agentd_options (su_version E)) = Inr serve \<and>
     cm_Use serve = ''serve'' \<and> cm_Commands serve = [] \<and> cm_Required serve = [] \<and> args_ok (cm_Args serve) [] \<and>
     list_all (\<lambda>(n, v). n \<noteq> ''data-dir'' \<and> n \<noteq> ''listen'') (cm_Flags serve @ cm_Persistent serve) \<and>
     cm_RunE serve = Some (\<lambda>env args m. map_prod (\<lambda>x. x) (map_option (map_option MainCore)) (main_core E env rt m))"

lemma main_serve:
  assumes "boot_serves E rt serve" "cobra_laws (su_Execute E)"
  obtains env where "get_string env ''data-dir'' = dir" "get_string env ''listen'' = ''127.0.0.1:50000''"
    "agentd_main E [''serve'', ''--data-dir'', dir] m = map_prod (\<lambda>x. x) exit_status (main_core E env rt m)"
proof -
  let ?root = "agentd_root E serve"
  let ?own = "cm_Flags serve @ cm_Persistent serve"
  have b: "su_Serve E serveCmd (agentd_app_New (su_DefaultBase E)) (main_core E) (agentd_options (su_version E)) = Inr serve"
      "cm_Use serve = ''serve''" "cm_Commands serve = []" "cm_Required serve = []" "args_ok (cm_Args serve) []"
      "list_all (\<lambda>(n, v). n \<noteq> ''data-dir'' \<and> n \<noteq> ''listen'') ?own"
      "cm_RunE serve = Some (\<lambda>env args m. map_prod (\<lambda>x. x) (map_option (map_option MainCore)) (main_core E env rt m))"
    using assms(1) by (simp_all add: boot_serves_def)
  have at: "find_path ?root [''serve''] = Some serve" using b(2) by (simp add: tree_defs)
  let ?flags = "?own @
      [(''data-dir'', StringFlag (defaultDataDir (su_agent E))), (''listen'', StringFlag ''127.0.0.1:50000'')]"
  have fl: "flags_at ?root [''serve''] = ?flags"
    using b(2) by (simp add: tree_defs)
  have own: "map_of (cm_Flags serve) n = None" "map_of (cm_Persistent serve) n = None"
    if "n = ''data-dir'' \<or> n = ''listen''" for n
    using b(6) that by (auto simp: map_of_eq_None_iff list_all_iff)
  let ?env = "fold set_flag [WithValue ''data-dir'' dir] (map_of ?flags)"
  have "agentd_main E [''serve'', ''--data-dir'', dir] m =
      map_prod (\<lambda>x. x) exit_status (map_prod (\<lambda>x. x) (map_option (map_option MainCore)) (main_core E ?env rt m))"
    using agentd_main_runs [OF b(1) assms(2) at b(7,3,4,5) fl, where fs = "[WithValue ''data-dir'' dir]" and m = m] own
    by (simp add: map_add_def)
  moreover have "exit_status (map_option (map_option MainCore) r) = exit_status r" for r
    by (cases r) (auto simp: exit_status_def)
  moreover have "get_string ?env ''data-dir'' = dir" "get_string ?env ''listen'' = ''127.0.0.1:50000''"
    using own by (simp_all add: map_add_def get_string_def)
  ultimately show thesis
    by (intro that [of ?env]) (simp_all add: prod.map_comp comp_def)
qed

text \<open>Issuing a token leaves the other files of the layout alone.\<close>

lemma FileStore_mutate_frame:
  assumes "FileStore_mutate F J st fn s = (s', r)" "q \<noteq> fs_path st" "q \<noteq> fs_tmp_path st"
  shows "os_files s' q = os_files s q"
proof -
  have "fs_tmp_path st \<noteq> fs_path st" by (simp add: fs_tmp_path_def)
  then have wr: "os_files t' q = os_files t q" if "FileStore_write F J st m t = (t', e)" for m t t' e
    using that assms(2,3)
    by (auto simp: FileStore_write_def os_WriteFile_other os_Rename_def
        split: sum.splits prod.splits option.splits if_splits dest!: os_WriteFile_other [where q = q])
  from assms(1) show ?thesis
    by (auto simp: FileStore_mutate_def wr os_MkdirAll_files split: prod.splits option.splits sum.splits
        dest!: wr os_MkdirAll_files)
qed

lemma token_new_frame:
  assumes "token_new T role ttl s = (s', r)" "q \<noteq> dl_tokens \<lparr>dl_dir = dataDirOf T\<rparr>"
    and "q \<noteq> dl_tokens \<lparr>dl_dir = dataDirOf T\<rparr> @ ''.tmp''"
  shows "os_files s' q = os_files s q"
  using assms
  by (auto simp: token_new_def Let_def FileStore_Issue_def map_prod_def NewFileStore_def fs_tmp_path_def
      split: prod.splits sum.splits dest!: FileStore_mutate_frame [where q = q])

lemma last_file: "plain_name x \<Longrightarrow> last (filepath_Join [d, x]) = last x"
proof -
  assume x: "plain_name x"
  have "strings_Join (es @ [x]) ''/'' = (if es = [] then x else strings_Join es ''/'' @ ''/'' @ x)" for es
    by (simp add: strings_Join_snoc)
  moreover have "x \<noteq> []" using x by (simp add: plain_name_def)
  ultimately show ?thesis by (simp add: filepath_Join_file [OF x] render_path_def)
qed

lemma layout_not_tmp:
  "f \<in> {dl_caCert, dl_caKey, dl_serverCert, dl_serverKey, dl_agentID, dl_policy} \<Longrightarrow> f d \<noteq> dl_tokens d' @ ''.tmp''"
proof
  assume f: "f \<in> {dl_caCert, dl_caKey, dl_serverCert, dl_serverKey, dl_agentID, dl_policy}" "f d = dl_tokens d' @ ''.tmp''"
  then have "last (f d) = CHR ''p''" by simp
  with f(1) show False by (auto simp: layout_defs last_file)
qed

lemma serve_load_cong:
  assumes "serve_load B dir version s = (s, Inr x)" "ad_faults B = no_faults" "uuid_text (ad_uuid B)"
    and "\<And>f. f \<in> {dl_caCert, dl_caKey, dl_serverCert, dl_serverKey, dl_agentID, dl_policy} \<Longrightarrow>
      os_files t (f \<lparr>dl_dir = dir\<rparr>) = os_files s (f \<lparr>dl_dir = dir\<rparr>)"
  shows "serve_load B dir version t = (t, Inr x)"
proof -
  let ?d = "\<lparr>dl_dir = dir\<rparr>"
  have fd: "file_data t (f ?d) = file_data s (f ?d)"
      "os_ReadFile no_faults (f ?d) t = os_ReadFile no_faults (f ?d) s"
    if "f \<in> {dl_caCert, dl_caKey, dl_serverCert, dl_serverKey, dl_agentID, dl_policy}" for f
    using assms(4) [OF that] by (simp_all add: file_data_def os_ReadFile_def)
  have pol: "policy_Load no_faults y (dl_policy ?d) t = policy_Load no_faults y (dl_policy ?d) s" for y
    using fd(2) [of dl_policy] by (simp add: policy_Load_def)
  have rd: "read_or g no_faults p s = (s', Inr y) \<longleftrightarrow> s' = s \<and> snd (read_or g no_faults p s) = Inr y" for g p s' y
    by (auto simp: read_or_def)
  have rdt: "read_or g no_faults (f ?d) t = (t, snd (read_or g no_faults (f ?d) s))"
    if "f \<in> {dl_caCert, dl_caKey, dl_serverCert, dl_serverKey, dl_agentID, dl_policy}" for f g
    using fd(2) [OF that] by (simp add: read_or_def)
  from assms(1,2) obtain caCert caKey ca sc sk aid fp pol' creds where l:
      "snd (read_or AdReadCA no_faults (dl_caCert ?d) s) = Inr caCert"
      "snd (read_or AdReadCAKey no_faults (dl_caKey ?d) s) = Inr caKey"
      "LoadCA (ad_x509 B) caCert caKey = Inr ca"
      "snd (read_or AdReadServerCert no_faults (dl_serverCert ?d) s) = Inr sc"
      "snd (read_or AdReadServerKey no_faults (dl_serverKey ?d) s) = Inr sk"
      and aid: "AgentID no_faults (ad_uuid B) (dl_agentID ?d) s = (s, Inr aid)"
      and l2: "FingerprintPEM (ad_x509 B) sc = Inr fp" "policy_Load no_faults (ad_yaml B) (dl_policy ?d) s = Inr pol'"
      "ServerCreds (ad_x509 B) caCert sc sk = Inr creds"
      and x: "x = (creds, \<lparr>srv_enroller = NewService ca sc aid DefaultLeafValidity, srv_tokens = NewFileStore (dl_tokens ?d),
        srv_agentID = aid, srv_fingerprint = fp, srv_hostname = ad_hostname B, srv_version = version, srv_policy = pol'\<rparr>)"
    by (auto simp: serve_load_def Let_def map_prod_def rd split: prod.splits)
  from AgentID_file [OF assms(3) aid] obtain y where
    "file_data s (dl_agentID ?d) = Some y" "strings_TrimSpace y = aid" "aid \<noteq> []" by blast
  then have aidt: "AgentID no_faults (ad_uuid B) (dl_agentID ?d) t = (t, Inr aid)"
    using AgentID_read [of t "dl_agentID ?d" y] fd(1) [of dl_agentID] by simp
  show ?thesis
    using assms(2) l l2 x aidt by (simp add: serve_load_def Let_def rdt pol)
qed

text \<open>What the flags of a command line make of the machine's record.\<close>

lemma with_flags_simps:
  "ad_x509 (with_flags A env) = ad_x509 A" "ad_faults (with_flags A env) = ad_faults A"
  "ad_json (with_flags A env) = ad_json A" "ad_yaml (with_flags A env) = ad_yaml A"
  "ad_now (with_flags A env) = ad_now A" "ad_uuid (with_flags A env) = ad_uuid A"
  "ad_data_dir (with_flags A env) = get_string env ''data-dir''" "ad_listen (with_flags A env) = get_string env ''listen''"
  by (simp_all add: with_flags_def)

lemma dataDirOf_flags: "get_string env ''data-dir'' = dir \<Longrightarrow> dir \<noteq> [] \<Longrightarrow> dataDirOf (with_flags A env) = dir"
  by (simp add: dataDirOf_def with_flags_simps)

lemma listenOf_flags: "get_string env ''listen'' = a \<Longrightarrow> a \<noteq> [] \<Longrightarrow> listenOf (with_flags A env) = a"
  by (simp add: listenOf_def with_flags_simps)

text \<open>The core of serve, on a directory that loads.\<close>

lemma main_core_serves:
  assumes "serve_load (with_flags (su_agent S) env) dir (su_version S) (m_os m) = (m_os m, Inr (creds, srv))"
    and "dataDirOf (with_flags (su_agent S) env) = dir" "su_Listen S (listenOf (with_flags (su_agent S) env)) = None"
    and "platform_New (su_sql S) (su_Getenv S) (m_handles m) = (hs, Inr plat)"
    and "serve_loop (ad_x509 (su_agent S)) creds srv (su_events S) \<lparr>as_os = m_os m, as_grants = NewGrants\<rparr> = (st, r)"
  shows "\<exists>hs'. map_prod (\<lambda>x. x) exit_status (main_core S env rt m) = (m\<lparr>m_os := as_os st, m_handles := hs'\<rparr>,
    map_option (\<lambda>e. if e = None \<and> rt_Shutdown rt = None then 0 else 1) r)"
proof -
  have "serveAgent (with_flags (su_agent S) env) (su_Listen S) dir (listenOf (with_flags (su_agent S) env)) (su_version S)
      (su_events S) (m_os m) = (as_os st, map_option (map_option AdServe) r)"
    using assms(1,3,5) by (simp add: serveAgent_def with_flags_simps)
  with assms(2,4) show ?thesis
    by (cases r; cases "the r"; cases "rt_Shutdown rt") (auto simp: main_core_def agentd_core_def)
qed

text \<open>A subcommand of \<^verbatim>\<open>service\<close> on its command line.\<close>

lemma main_service:
  assumes "su_Serve E serveCmd (agentd_app_New (su_DefaultBase E)) (main_core E) (agentd_options (su_version E)) = Inr serve"
    and "cobra_laws (su_Execute E)" "(name, c) \<in> {(''install'', SInstall), (''run'', SRun)}"
    and "list_all (flag_fits (cm_Persistent (agentd_root E serve))) fs"
  shows "agentd_main E ([''service'', name] @ concat (map flag_words fs)) m = map_prod (\<lambda>x. x) exit_status
    (service_RunE (su_service_New E) (su_agent E) (su_version E) c
      (fold set_flag fs (map_of (cm_Persistent (agentd_root E serve)))) [] m)"
proof -
  let ?root = "agentd_root E serve"
  have at: "find_path ?root [''service'', name] = Some (CobraCommand name AnyArgs [] [] []
      (Some (service_RunE (su_service_New E) (su_agent E) (su_version E) c)) [])"
    using assms(3) by (auto simp: tree_defs)
  have fl: "flags_at ?root [''service'', name] = cm_Persistent ?root"
    using assms(3) by (auto simp: tree_defs)
  show ?thesis
    using agentd_main_runs [OF assms(1,2) at _ _ _ _ fl assms(4)] by simp
qed

text \<open>
  What a process does with the manager: it fails if there is no service to be had, and otherwise
  exits by the error of the one operation.
\<close>

definition manager_call ::
  "string + 'm service \<Rightarrow> ('m service \<Rightarrow> 'm \<Rightarrow> 'm \<times> string option) \<Rightarrow> 'm machine \<Rightarrow> 'm machine \<times> nat option" where
  "manager_call new f m =
     (case new of
        Inl e \<Rightarrow> (m, Some 1)
      | Inr svc \<Rightarrow> (case f svc (m_manager m) of (mgr, e) \<Rightarrow> (m\<lparr>m_manager := mgr\<rparr>, Some (if e = None then 0 else 1))))"

lemma service_RunE_call:
  assumes "(c, f) \<in> {(SInstall, svc_Install), (SRun, svc_Run)}"
    and "dataDirOf (with_flags A env) = dir" "listenOf (with_flags A env) = addr"
  shows "map_prod (\<lambda>x. x) exit_status (service_RunE New A version c env [] m) =
    manager_call (New (new_program dir addr version) (agent_service_config dir addr)) f m"
  using assms
  by (cases "New (new_program dir addr version) (agent_service_config dir addr)")
     (auto simp: service_RunE_def service_command_def newAgentService_def manager_call_def split: prod.splits option.splits)

text \<open>The two flags do not matter to the loading of a given directory.\<close>

lemma serve_load_flags: "serve_load (with_flags A env) dir version s = serve_load A dir version s"
  by (simp add: serve_load_def with_flags_def Let_def)

text \<open>What the first two commands leave for the third.\<close>

lemma agentd_prepared:
  assumes "x509_laws (ad_x509 (su_agent E))" "cobra_laws (su_Execute E)" "cobra_laws (su_Execute T)"
    and boot: "boot_serves E rt1 serve1" "boot_serves T rt2 serve2"
    and "uuid_text (ad_uuid (su_agent E))" "dir \<noteq> []"
    and init: "agentd_main E [''ca'', ''init'', ''--data-dir'', dir] m = (m1, Some 0)"
    and token: "agentd_main T [''token'', ''new'', ''--data-dir'', dir, ''--role'', role] m1 = (m2, Some 0)"
    and B: "ad_x509 B = ad_x509 (su_agent E)" "ad_faults B = no_faults" "uuid_text (ad_uuid B)"
      "policy_Load no_faults (ad_yaml B) (dl_policy \<lparr>dl_dir = dir\<rparr>) (m_os m) = Inr pol"
  obtains T' s1 v creds srv sk where
    "token_new T' role (10 * time_Minute) s1 = (m_os m2, Inr v)" "dataDirOf T' = dir"
    "ad_json T' = ad_json (su_agent T)" "ad_now T' = ad_now (su_agent T)"
    "m_out m1 = m_out m @ [CaInitialised dir (srv_agentID srv) (srv_fingerprint srv)]"
    "m_out m2 = m_out m1 @ [TokenValue v, TokenGranted role (10 * time_Minute)]"
    "serve_load B dir version (m_os m2) = (m_os m2, Inr (creds, srv))" "srv_policy srv = pol"
    "srv_tokens srv = NewFileStore (dl_tokens \<lparr>dl_dir = dir\<rparr>)" "ca_wf (ad_x509 B) (svc_ca (srv_enroller srv))"
    "ServerCreds (ad_x509 B) (CertPEM (ad_x509 B) (svc_ca (srv_enroller srv))) (serverCertPEM (srv_enroller srv)) sk = Inr creds"
    "svc_agentID (srv_enroller srv) = srv_agentID srv"
    "FingerprintPEM (ad_x509 B) (serverCertPEM (srv_enroller srv)) = Inr (srv_fingerprint srv)"
    "NewCA (ad_x509 B) (ad_rnd (su_agent E) 0) (ad_rnd (su_agent E) 1) (ad_now (su_agent E) 0)
       (''rexec-agentd CA '' @ srv_agentID srv) DefaultCAValidity = Inr (svc_ca (srv_enroller srv))"
proof -
  let ?d = "\<lparr>dl_dir = dir\<rparr>"
  let ?e1 = "[''data-dir'' \<mapsto> StringFlag dir, ''listen'' \<mapsto> StringFlag ''127.0.0.1:50000'', ''force'' \<mapsto> BoolFlag False]"
  let ?e2 = "[''data-dir'' \<mapsto> StringFlag dir, ''listen'' \<mapsto> StringFlag ''127.0.0.1:50000'',
       ''role'' \<mapsto> StringFlag role, ''ttl'' \<mapsto> DurationFlag (10 * time_Minute)]"
  let ?E = "with_flags (su_agent E) ?e1" and ?T = "with_flags (su_agent T) ?e2"
  have dirs: "dataDirOf ?E = dir" "dataDirOf ?T = dir"
    using \<open>dir \<noteq> []\<close> by (simp_all add: dataDirOf_flags get_string_def)
  have b: "su_Serve E serveCmd (agentd_app_New (su_DefaultBase E)) (main_core E) (agentd_options (su_version E)) = Inr serve1"
    "su_Serve T serveCmd (agentd_app_New (su_DefaultBase T)) (main_core T) (agentd_options (su_version T)) = Inr serve2"
    using boot by (simp_all add: boot_serves_def)
  from init obtain s1 aid fp where s1: "ca_init ?E False (m_os m) = (s1, Inr (aid, fp))"
      "m1 = m\<lparr>m_os := s1, m_out := m_out m @ [CaInitialised dir aid fp]\<rparr>"
    unfolding main_ca_init [OF b(1) assms(2)]
    by (auto simp: ca_init_RunE_def get_bool_def dirs split: prod.splits sum.splits)
  from token obtain s2 v where s2: "token_new ?T role (10 * time_Minute) s1 = (s2, Inr v)"
      "m2 = m1\<lparr>m_os := s2, m_out := m_out m1 @ [TokenValue v, TokenGranted role (10 * time_Minute)]\<rparr>"
    unfolding main_token_new [OF b(2) assms(3)]
    by (auto simp: token_new_RunE_def get_string_def get_duration_def s1(2) Let_def split: prod.splits sum.splits)
  have "x509_laws (ad_x509 ?E)" "uuid_text (ad_uuid ?E)" "ad_x509 B = ad_x509 ?E"
    using assms(1,6) B(1) by (simp_all add: with_flags_simps)
  note load = init_then_load [OF this(1,2) s1(1) this(3) B(2) dirs(1) [symmetric] B(4), of version]
  have E: "ad_x509 ?E = ad_x509 B" "ad_rnd ?E = ad_rnd (su_agent E)" "ad_now ?E = ad_now (su_agent E)"
    by (simp_all add: with_flags_def B(1))
  from load [unfolded E] obtain creds srv sk cert where l:
      "serve_load B dir version s1 = (s1, Inr (creds, srv))" "srv_agentID srv = aid"
      "srv_fingerprint srv = fp" "srv_policy srv = pol" "srv_tokens srv = NewFileStore (dl_tokens ?d)"
      "ca_wf (ad_x509 B) (svc_ca (srv_enroller srv))"
      "ServerCreds (ad_x509 B) (CertPEM (ad_x509 B) (svc_ca (srv_enroller srv))) (serverCertPEM (srv_enroller srv)) sk = Inr creds"
      "svc_agentID (srv_enroller srv) = aid" "FingerprintPEM (ad_x509 B) (serverCertPEM (srv_enroller srv)) = Inr fp"
      "NewCA (ad_x509 B) (ad_rnd (su_agent E) 0) (ad_rnd (su_agent E) 1) (ad_now (su_agent E) 0)
         (''rexec-agentd CA '' @ aid) DefaultCAValidity = Inr (svc_ca (srv_enroller srv))"
    by blast
  have "os_files s2 (f ?d) = os_files s1 (f ?d)"
    if "f \<in> {dl_caCert, dl_caKey, dl_serverCert, dl_serverKey, dl_agentID, dl_policy}" for f
  proof -
    have "f ?d \<noteq> dl_tokens ?d" using that layout_distinct [of ?d] by fastforce
    with token_new_frame [OF s2(1)] layout_not_tmp [OF that] show ?thesis by (simp add: dirs(2))
  qed
  then have "serve_load B dir version (m_os m2) = (m_os m2, Inr (creds, srv))"
    using serve_load_cong [OF l(1) B(2,3)] s2(2) by simp
  with l s1(2) s2 dirs(2) show thesis
    by (intro that [of ?T s1 v srv creds sk]) (simp_all add: with_flags_simps)
qed

section \<open>Properties\<close>

text \<open>
  C9: from an empty machine to a serving agent, from the command lines: when \<^verbatim>\<open>rexec-agentd ca init\<close>
  and then \<^verbatim>\<open>rexec-agentd token new\<close> on a directory have exited with 0, \<^verbatim>\<open>rexec-agentd serve\<close> on it
  serves with what its loading of that directory yields: the policy found there, the identity and
  fingerprint the first command printed (the fingerprint that of the stored server certificate),
  the store in which the token the second one printed is good for its role and the default ten
  minutes, and, behind its enrollments and its credentials, the CA that the first command minted
  from its entropy and clock. It serves its calls with exactly these; it does not exit while it
  serves; it exits with 0 when its context ends, its calls are done and the runtime shuts down
  cleanly, with 1 when the server fails.
\<close>

theorem agentd_quickstart:
  assumes laws: "x509_laws (ad_x509 (su_agent E))" "json_laws (ad_json (su_agent T))"
    and cobra: "cobra_laws (su_Execute E)" "cobra_laws (su_Execute T)" "cobra_laws (su_Execute S)"
    and boot: "boot_serves E rt1 serve1" "boot_serves T rt2 serve2" "boot_serves S rt serve3"
    and uuids: "uuid_text (ad_uuid (su_agent E))" "uuid_text (ad_uuid (su_agent S))"
    and "dir \<noteq> []" "utf8_valid role"
    and init: "agentd_main E [''ca'', ''init'', ''--data-dir'', dir] m = (m1, Some 0)"
    and token: "agentd_main T [''token'', ''new'', ''--data-dir'', dir, ''--role'', role] m1 = (m2, Some 0)"
    and S: "ad_x509 (su_agent S) = ad_x509 (su_agent E)" "ad_faults (su_agent S) = no_faults"
      "policy_Load no_faults (ad_yaml (su_agent S)) (dl_policy \<lparr>dl_dir = dir\<rparr>) (m_os m) = Inr pol"
      "platform_New (su_sql S) (su_Getenv S) (m_handles m2) = (hs, Inr plat)"
      "su_Listen S ''127.0.0.1:50000'' = None"
  shows "\<exists>creds srv sk v st r hs'.
    m_out m2 = m_out m @ [CaInitialised dir (srv_agentID srv) (srv_fingerprint srv), TokenValue v, TokenGranted role (10 * time_Minute)] \<and>
    token_entry (ad_json (su_agent T)) (srv_tokens srv) (m_os m2) v = Some (role, ad_now (su_agent T) 0 + 10 * time_Minute) \<and>
    serve_load (su_agent S) dir (su_version S) (m_os m2) = (m_os m2, Inr (creds, srv)) \<and>
    srv_policy srv = pol \<and> svc_agentID (srv_enroller srv) = srv_agentID srv \<and>
    FingerprintPEM (ad_x509 (su_agent E)) (serverCertPEM (srv_enroller srv)) = Inr (srv_fingerprint srv) \<and>
    srv_tokens srv = NewFileStore (dl_tokens \<lparr>dl_dir = dir\<rparr>) \<and>
    NewCA (ad_x509 (su_agent E)) (ad_rnd (su_agent E) 0) (ad_rnd (su_agent E) 1) (ad_now (su_agent E) 0)
      (''rexec-agentd CA '' @ srv_agentID srv) DefaultCAValidity = Inr (svc_ca (srv_enroller srv)) \<and>
    ca_wf (ad_x509 (su_agent E)) (svc_ca (srv_enroller srv)) \<and>
    ServerCreds (ad_x509 (su_agent E)) (CertPEM (ad_x509 (su_agent E)) (svc_ca (srv_enroller srv)))
      (serverCertPEM (srv_enroller srv)) sk = Inr creds \<and>
    serve_loop (ad_x509 (su_agent E)) creds srv (su_events S) \<lparr>as_os = m_os m2, as_grants = NewGrants\<rparr> = (st, r) \<and>
    agentd_main S [''serve'', ''--data-dir'', dir] m2 = (m2\<lparr>m_os := as_os st, m_handles := hs'\<rparr>,
      map_option (\<lambda>e. if e = None \<and> rt_Shutdown rt = None then 0 else 1) r)"
proof -
  obtain env where env: "get_string env ''data-dir'' = dir" "get_string env ''listen'' = ''127.0.0.1:50000''"
    "agentd_main S [''serve'', ''--data-dir'', dir] m2 = map_prod (\<lambda>x. x) exit_status (main_core S env rt m2)"
    using main_serve [OF boot(3) cobra(3)] by blast
  let ?S = "with_flags (su_agent S) env"
  have dirS: "dataDirOf ?S = dir" "listenOf ?S = ''127.0.0.1:50000''"
    using env(1,2) \<open>dir \<noteq> []\<close> by (simp_all add: dataDirOf_flags listenOf_flags)
  have B: "ad_x509 ?S = ad_x509 (su_agent E)" "ad_faults ?S = no_faults" "uuid_text (ad_uuid ?S)"
      "policy_Load no_faults (ad_yaml ?S) (dl_policy \<lparr>dl_dir = dir\<rparr>) (m_os m) = Inr pol"
    using uuids S by (simp_all add: with_flags_simps)
  obtain T' s1 v creds srv sk where p:
    "token_new T' role (10 * time_Minute) s1 = (m_os m2, Inr v)" "dataDirOf T' = dir"
    "ad_json T' = ad_json (su_agent T)" "ad_now T' = ad_now (su_agent T)"
    "m_out m1 = m_out m @ [CaInitialised dir (srv_agentID srv) (srv_fingerprint srv)]"
    "m_out m2 = m_out m1 @ [TokenValue v, TokenGranted role (10 * time_Minute)]"
    "serve_load ?S dir (su_version S) (m_os m2) = (m_os m2, Inr (creds, srv))" "srv_policy srv = pol"
    "srv_tokens srv = NewFileStore (dl_tokens \<lparr>dl_dir = dir\<rparr>)" "ca_wf (ad_x509 ?S) (svc_ca (srv_enroller srv))"
    "ServerCreds (ad_x509 ?S) (CertPEM (ad_x509 ?S) (svc_ca (srv_enroller srv))) (serverCertPEM (srv_enroller srv)) sk = Inr creds"
    "svc_agentID (srv_enroller srv) = srv_agentID srv"
    "FingerprintPEM (ad_x509 ?S) (serverCertPEM (srv_enroller srv)) = Inr (srv_fingerprint srv)"
    "NewCA (ad_x509 ?S) (ad_rnd (su_agent E) 0) (ad_rnd (su_agent E) 1) (ad_now (su_agent E) 0)
       (''rexec-agentd CA '' @ srv_agentID srv) DefaultCAValidity = Inr (svc_ca (srv_enroller srv))"
    by (rule agentd_prepared [OF laws(1) cobra(1,2) boot(1,2) uuids(1) \<open>dir \<noteq> []\<close> init token B, of "su_version S"])
  obtain st r where loop: "serve_loop (ad_x509 (su_agent S)) creds srv (su_events S) \<lparr>as_os = m_os m2, as_grants = NewGrants\<rparr> = (st, r)"
    by fastforce
  from main_core_serves [OF p(7) dirS(1) _ S(4) loop, of rt] obtain hs' where
    "map_prod (\<lambda>x. x) exit_status (main_core S env rt m2) = (m2\<lparr>m_os := as_os st, m_handles := hs'\<rparr>,
       map_option (\<lambda>e. if e = None \<and> rt_Shutdown rt = None then 0 else 1) r)"
    using S(5) dirS(2) by auto
  moreover have "token_entry (ad_json (su_agent T)) (srv_tokens srv) (m_os m2) v = Some (role, ad_now (su_agent T) 0 + 10 * time_Minute)"
    using token_new_stored [OF _ p(1) \<open>utf8_valid role\<close>] laws(2) p(2-4,9) by simp
  moreover have "serve_load (su_agent S) dir (su_version S) (m_os m2) = (m_os m2, Inr (creds, srv))"
    using p(7) unfolding serve_load_flags .
  ultimately show ?thesis using p(5,6,8-14) loop env(3) B(1) S(1)
    by (intro exI [of _ creds] exI [of _ srv] exI [of _ sk] exI [of _ v] exI [of _ st] exI [of _ r] exI [of _ hs']) simp
qed

text \<open>
  C20: the arguments that \<^verbatim>\<open>rexec-agentd service install\<close> registers run the service it was asked for.
  Whatever flags are given, the service manager is asked for a program with the directory and the
  address these resolve to; and the process the manager later starts, with the registered
  arguments as its command line, on whatever machine and with whatever defaults of its own, runs
  a program with the same directory and address, and exits with 0 exactly when the manager's
  run returns no error.
\<close>

theorem service_install_then_run:
  assumes "boot_serves I rt1 serve1" "boot_serves R rt2 serve2" "cobra_laws (su_Execute I)" "cobra_laws (su_Execute R)"
    and "list_all (flag_fits (cm_Persistent (agentd_root I serve1))) fs"
    and "A = with_flags (su_agent I) (fold set_flag fs (map_of (cm_Persistent (agentd_root I serve1))))"
    and "dir = dataDirOf A" "addr = listenOf A"
  shows "agentd_main I ([''service'', ''install''] @ concat (map flag_words fs)) m =
      manager_call (su_service_New I (new_program dir addr (su_version I)) (agent_service_config dir addr)) svc_Install m \<and>
    agentd_main R (sc_Arguments (agent_service_config dir addr)) m' =
      manager_call (su_service_New R (new_program dir addr (su_version R)) (agent_service_config dir addr)) svc_Run m'"
proof
  have b: "su_Serve I serveCmd (agentd_app_New (su_DefaultBase I)) (main_core I) (agentd_options (su_version I)) = Inr serve1"
    "su_Serve R serveCmd (agentd_app_New (su_DefaultBase R)) (main_core R) (agentd_options (su_version R)) = Inr serve2"
    using assms(1,2) by (simp_all add: boot_serves_def)
  have "(''install'', SInstall) \<in> {(''install'', SInstall), (''run'', SRun)}" by simp
  note main_service [OF b(1) assms(3) this assms(5), of m]
  also have "map_prod (\<lambda>x. x) exit_status (service_RunE (su_service_New I) (su_agent I) (su_version I) SInstall
      (fold set_flag fs (map_of (cm_Persistent (agentd_root I serve1)))) [] m) =
      manager_call (su_service_New I (new_program dir addr (su_version I)) (agent_service_config dir addr)) svc_Install m"
    by (rule service_RunE_call) (simp_all only: assms(6-8), simp)
  finally show "agentd_main I ([''service'', ''install''] @ concat (map flag_words fs)) m =
      manager_call (su_service_New I (new_program dir addr (su_version I)) (agent_service_config dir addr)) svc_Install m" .
  let ?fs = "[WithValue ''data-dir'' dir, WithValue ''listen'' addr]"
  let ?env = "fold set_flag ?fs (map_of (cm_Persistent (agentd_root R serve2)))"
  have ne: "dir \<noteq> []" "addr \<noteq> []"
    by (auto simp: assms(7,8) dataDirOf_def defaultDataDir_def filepath_Clean_ne filepath_Join_def listenOf_ne split: option.splits)
  have "get_string ?env ''data-dir'' = dir" "get_string ?env ''listen'' = addr"
    by (simp_all add: agentd_root_def get_string_def)
  then have env: "dataDirOf (with_flags (su_agent R) ?env) = dir" "listenOf (with_flags (su_agent R) ?env) = addr"
    using ne by (blast intro: dataDirOf_flags listenOf_flags)+
  have fits: "list_all (flag_fits (cm_Persistent (agentd_root R serve2))) ?fs" by (simp add: agentd_root_def)
  have "sc_Arguments (agent_service_config dir addr) = [''service'', ''run''] @ concat (map flag_words ?fs)"
    by (simp add: agent_service_config_def)
  moreover have "(''run'', SRun) \<in> {(''install'', SInstall), (''run'', SRun)}" by simp
  note main_service [OF b(2) assms(4) this fits, of m']
  moreover have "(SRun, svc_Run) \<in> {(SInstall, svc_Install), (SRun, svc_Run)}" by simp
  note service_RunE_call [OF this env, of "su_service_New R" "su_version R" m']
  ultimately show "agentd_main R (sc_Arguments (agent_service_config dir addr)) m' =
      manager_call (su_service_New R (new_program dir addr (su_version R)) (agent_service_config dir addr)) svc_Run m'"
    by (simp only:)
qed

section \<open>The properties at concrete inputs\<close>

text \<open>
  A machine with the plain command-line package, a runtime that shuts down cleanly, a database
  that opens, and a service manager that keeps the arguments it was given.
\<close>

definition demo_surroundings :: "(unit, string list) surroundings" where
  "demo_surroundings = \<lparr>su_agent = demo_agentd,
     su_sql = \<lparr>sql_Open = (\<lambda>_. None), sql_Ping = (\<lambda>_. None), sql_Close = (\<lambda>_. None)\<rparr>, su_Getenv = (\<lambda>_. []),
     su_Listen = (\<lambda>_. None), su_events = [CtxDone, GracefulStopped],
     su_service_New = (\<lambda>p cfg. Inr \<lparr>svc_Install = (\<lambda>m. (sc_Arguments cfg, None)), svc_Uninstall = (\<lambda>m. ([], None)),
       svc_Start = (\<lambda>m. (m, None)), svc_Stop = (\<lambda>m. (m, None)), svc_Status = (\<lambda>m. Inr StatusStopped),
       svc_Run = (\<lambda>m. (m, None))\<rparr>),
     su_version = ''dev'', su_Execute = plain_cobra, su_DefaultBase = (),
     su_Serve = (\<lambda>cmd app core opts. Inr (CobraCommand (cm_Use cmd) AnyArgs [] [] []
       (Some (\<lambda>env args m. map_prod (\<lambda>x. x) (map_option (map_option MainCore)) (core env \<lparr>rt_Shutdown = None\<rparr> m))) []))\<rparr>"

definition demo_machine :: "os \<Rightarrow> string list machine" where
  "demo_machine s = \<lparr>m_os = s, m_handles = \<lparr>h_next = 0, h_open = {}\<rparr>, m_manager = [], m_out = []\<rparr>"

lemma demo_surroundings_simps [simp]:
  "su_agent demo_surroundings = demo_agentd" "su_Execute demo_surroundings = plain_cobra"
  "su_events demo_surroundings = [CtxDone, GracefulStopped]" "su_Listen demo_surroundings a = None" "su_version demo_surroundings = ''dev''"
  by (simp_all add: demo_surroundings_def)

lemma demo_boot:
  obtains serve where "boot_serves demo_surroundings \<lparr>rt_Shutdown = None\<rparr> serve"
proof
  show "boot_serves demo_surroundings \<lparr>rt_Shutdown = None\<rparr>
    (CobraCommand ''serve'' AnyArgs [] [] []
       (Some (\<lambda>env args m. map_prod (\<lambda>x. x) (map_option (map_option MainCore)) (main_core demo_surroundings env \<lparr>rt_Shutdown = None\<rparr> m))) [])"
    by (simp add: boot_serves_def serveCmd_def demo_surroundings_def)
qed

text \<open>The listening address does not matter to \<^verbatim>\<open>ca init\<close> and \<^verbatim>\<open>token new\<close>.\<close>

lemma demo_flags:
  "with_flags demo_agentd env = demo_agentd\<lparr>ad_listen := get_string env ''listen''\<rparr>"
  if "get_string env ''data-dir'' = ''/d''"
  using that by (simp add: with_flags_def demo_agentd_def)

lemma listen_irrelevant:
  "dataDirOf (A\<lparr>ad_listen := a\<rparr>) = dataDirOf A" "ca_init (A\<lparr>ad_listen := a\<rparr>) force s = ca_init A force s"
  "token_new (A\<lparr>ad_listen := a\<rparr>) role ttl s = token_new A role ttl s"
proof -
  show d: "dataDirOf (A\<lparr>ad_listen := a\<rparr>) = dataDirOf A" for A a
    by (simp add: dataDirOf_def defaultDataDir_def)
  have "mintServerCert (A\<lparr>ad_listen := a\<rparr>) ca = mintServerCert A ca" for ca
    by (simp add: mintServerCert_def server_request_def)
  with d show "ca_init (A\<lparr>ad_listen := a\<rparr>) force s = ca_init A force s"
    by (simp add: ca_init_def Let_def cong: if_cong)
  show "token_new (A\<lparr>ad_listen := a\<rparr>) role ttl s = token_new A role ttl s"
    by (simp add: token_new_def d)
qed

lemma demo_token_reader:
  assumes "os_files s (dl_tokens \<lparr>dl_dir = ''/d''\<rparr>) = None"
  obtains s1 where "token_new demo_agentd ''rex:reader'' (10 * time_Minute) s = (s1, Inr demo_token)"
    "stored plain_json (NewFileStore (dl_tokens \<lparr>dl_dir = ''/d''\<rparr>)) s1 =
       Some [demo_token \<mapsto> \<lparr>Role = ''rex:reader'', Expiry = 100 + 10 * time_Minute\<rparr>]"
proof -
  let ?m = "[demo_token \<mapsto> \<lparr>Role = ''rex:reader'', Expiry = 100 + 10 * time_Minute\<rparr>]"
    and ?st = "NewFileStore (dl_tokens \<lparr>dl_dir = ''/d''\<rparr>)"
  have "utf8_valid demo_token" using token_randToken_utf8 [OF demo_randToken] .
  moreover have "is_ascii ''rex:reader''" by (simp add: is_ascii_def)
  moreover have "json_instant (100 + 10 * time_Minute)"
    by (simp add: json_instant_def time_Minute_def time_Second_def)
  ultimately have ok: "finite (dom ?m)" "json_text ?m" "json_times ?m"
    by (auto simp: json_text_def json_times_def)
  have fn: "issue_fn demo_token ''rex:reader'' (10 * time_Minute) 100 Map.empty = (?m, Inr ())"
    by (simp add: issue_fn_def)
  have "stored plain_json ?st s = Some Map.empty"
    using assms by (simp add: stored_def file_data_def NewFileStore_def)
  from FileStore_mutate_no_faults [where fn = "issue_fn demo_token ''rex:reader'' (10 * time_Minute) 100",
      OF plain_json_laws this fn ok]
  show thesis using that by (auto simp: token_new_def FileStore_Issue_def demo_randToken Let_def)
qed

text \<open>The machine after the first two commands.\<close>

definition demo_ready :: "string \<Rightarrow> os \<Rightarrow> string list machine" where
  "demo_ready fp s = (demo_machine empty_os)\<lparr>m_os := s, m_out := [CaInitialised ''/d'' sample_uuid fp,
     TokenValue demo_token, TokenGranted ''rex:reader'' (10 * time_Minute)]\<rparr>"

lemma demo_commands:
  obtains s1 s fp where
    "agentd_main demo_surroundings [''ca'', ''init'', ''--data-dir'', ''/d''] (demo_machine empty_os) =
       ((demo_machine empty_os)\<lparr>m_os := s1, m_out := [CaInitialised ''/d'' sample_uuid fp]\<rparr>, Some 0)"
    "agentd_main demo_surroundings [''token'', ''new'', ''--data-dir'', ''/d'', ''--role'', ''rex:reader'']
       ((demo_machine empty_os)\<lparr>m_os := s1, m_out := [CaInitialised ''/d'' sample_uuid fp]\<rparr>) = (demo_ready fp s, Some 0)"
    "stored plain_json (NewFileStore (dl_tokens \<lparr>dl_dir = ''/d''\<rparr>)) s =
       Some [demo_token \<mapsto> \<lparr>Role = ''rex:reader'', Expiry = 100 + 10 * time_Minute\<rparr>]"
proof (rule demo_init)
  fix s fp
  assume s: "ca_init demo_agentd False empty_os = (s, Inr (sample_uuid, fp))"
  obtain serve where boot: "boot_serves demo_surroundings \<lparr>rt_Shutdown = None\<rparr> serve" by (rule demo_boot)
  then have b: "su_Serve demo_surroundings serveCmd (agentd_app_New (su_DefaultBase demo_surroundings))
      (main_core demo_surroundings) (agentd_options (su_version demo_surroundings)) = Inr serve"
    by (simp add: boot_serves_def)
  have c: "cobra_laws (su_Execute demo_surroundings)" using plain_cobra_laws by simp
  let ?m1 = "(demo_machine empty_os)\<lparr>m_os := s, m_out := [CaInitialised ''/d'' sample_uuid fp]\<rparr>"
  have r1: "agentd_main demo_surroundings [''ca'', ''init'', ''--data-dir'', ''/d''] (demo_machine empty_os) = (?m1, Some 0)"
    unfolding main_ca_init [OF b c]
    by (simp add: ca_init_RunE_def demo_flags get_string_def get_bool_def listen_irrelevant demo_machine_def s)
  have "os_files s (dl_tokens \<lparr>dl_dir = ''/d''\<rparr>) = None"
    using ca_init_frame [OF s refl, of "dl_tokens \<lparr>dl_dir = ''/d''\<rparr>"] layout_distinct [of "\<lparr>dl_dir = ''/d''\<rparr>"]
    by (auto simp: empty_os_def)
  then obtain s1 where s1: "token_new demo_agentd ''rex:reader'' (10 * time_Minute) s = (s1, Inr demo_token)"
    "stored plain_json (NewFileStore (dl_tokens \<lparr>dl_dir = ''/d''\<rparr>)) s1 =
       Some [demo_token \<mapsto> \<lparr>Role = ''rex:reader'', Expiry = 100 + 10 * time_Minute\<rparr>]"
    by (rule demo_token_reader)
  have r2: "agentd_main demo_surroundings [''token'', ''new'', ''--data-dir'', ''/d'', ''--role'', ''rex:reader''] ?m1 = (demo_ready fp s1, Some 0)"
    unfolding main_token_new [OF b c]
    by (simp add: token_new_RunE_def demo_flags get_string_def get_duration_def listen_irrelevant s1(1) demo_ready_def)
  show thesis by (rule that [OF r1 r2 s1(2)])
qed

lemma demo_hypotheses:
  "x509_laws (ad_x509 (su_agent demo_surroundings))" "json_laws (ad_json (su_agent demo_surroundings))"
  "cobra_laws (su_Execute demo_surroundings)"
  "uuid_text (ad_uuid (su_agent demo_surroundings))" "''/d'' \<noteq> []" "utf8_valid ''rex:reader''"
  "ad_faults (su_agent demo_surroundings) = no_faults"
  "policy_Load no_faults (ad_yaml (su_agent demo_surroundings)) (dl_policy \<lparr>dl_dir = ''/d''\<rparr>) (m_os (demo_machine empty_os)) =
    Inr policy_Default"
  "su_Listen demo_surroundings ''127.0.0.1:50000'' = None"
proof -
  have "is_ascii ''rex:reader''" by (simp add: is_ascii_def)
  from is_ascii_utf8 [OF this] show "utf8_valid ''rex:reader''" .
qed (use plain_x509_laws plain_json_laws sample_uuid_text plain_cobra_laws in
  \<open>simp_all add: policy_Load_def is_ErrNotExist_def file_data_def empty_os_def demo_machine_def\<close>)

theorem agentd_quickstart_witness:
  "\<exists>m1 m2 m3. agentd_main demo_surroundings [''ca'', ''init'', ''--data-dir'', ''/d''] (demo_machine empty_os) = (m1, Some 0) \<and>
     agentd_main demo_surroundings [''token'', ''new'', ''--data-dir'', ''/d'', ''--role'', ''rex:reader''] m1 = (m2, Some 0) \<and>
     TokenGranted ''rex:reader'' (10 * time_Minute) \<in> set (m_out m2) \<and>
     agentd_main demo_surroundings [''serve'', ''--data-dir'', ''/d''] m2 = (m3, Some 0)"
proof (rule demo_commands)
  fix s1 s fp
  let ?m1 = "(demo_machine empty_os)\<lparr>m_os := s1, m_out := [CaInitialised ''/d'' sample_uuid fp]\<rparr>"
  assume r: "agentd_main demo_surroundings [''ca'', ''init'', ''--data-dir'', ''/d''] (demo_machine empty_os) = (?m1, Some 0)"
    "agentd_main demo_surroundings [''token'', ''new'', ''--data-dir'', ''/d'', ''--role'', ''rex:reader''] ?m1 = (demo_ready fp s, Some 0)"
  obtain serve where boot: "boot_serves demo_surroundings \<lparr>rt_Shutdown = None\<rparr> serve" by (rule demo_boot)
  note h = demo_hypotheses
  obtain hs plat where p: "platform_New (su_sql demo_surroundings) (su_Getenv demo_surroundings) (m_handles (demo_ready fp s)) = (hs, Inr plat)"
    by (auto simp: platform_New_def db_New_def demo_surroundings_def Let_def)
  from agentd_quickstart [OF h(1,2,3,3,3) boot boot boot h(4,4,5,6) r refl h(7,8) p h(9)]
  obtain creds srv st r hs' where
    "serve_loop (ad_x509 (su_agent demo_surroundings)) creds srv (su_events demo_surroundings)
       \<lparr>as_os = m_os (demo_ready fp s), as_grants = NewGrants\<rparr> = (st, r)"
    "agentd_main demo_surroundings [''serve'', ''--data-dir'', ''/d''] (demo_ready fp s) = (demo_ready fp s\<lparr>m_os := as_os st, m_handles := hs'\<rparr>,
      map_option (\<lambda>e. if e = None \<and> rt_Shutdown \<lparr>rt_Shutdown = None\<rparr> = None then 0 else 1) r)"
    by blast
  then have "agentd_main demo_surroundings [''serve'', ''--data-dir'', ''/d''] (demo_ready fp s) =
      (demo_ready fp s\<lparr>m_os := as_os st, m_handles := hs'\<rparr>, Some 0)"
    by auto
  moreover have "TokenGranted ''rex:reader'' (10 * time_Minute) \<in> set (m_out (demo_ready fp s))" by (simp add: demo_ready_def)
  ultimately show ?thesis using r by blast
qed

theorem service_install_then_run_witness:
  "\<exists>m1. agentd_main demo_surroundings [''service'', ''install'', ''--data-dir'', ''/srv''] (demo_machine empty_os) = (m1, Some 0) \<and>
     m_manager m1 = [''service'', ''run'', ''--data-dir'', ''/srv'', ''--listen'', ''127.0.0.1:50000''] \<and>
     agentd_main demo_surroundings (m_manager m1) m1 = (m1, Some 0)"
proof -
  obtain serve where boot: "boot_serves demo_surroundings \<lparr>rt_Shutdown = None\<rparr> serve" by (rule demo_boot)
  have c: "cobra_laws (su_Execute demo_surroundings)" using plain_cobra_laws by simp
  let ?fs = "[WithValue ''data-dir'' ''/srv'']" and ?root = "agentd_root demo_surroundings serve"
  let ?A = "with_flags (su_agent demo_surroundings) (fold set_flag ?fs (map_of (cm_Persistent ?root)))"
  have fits: "list_all (flag_fits (cm_Persistent ?root)) ?fs" by (simp add: agentd_root_def)
  have A: "''/srv'' = dataDirOf ?A" "''127.0.0.1:50000'' = listenOf ?A"
    by (simp_all add: dataDirOf_flags listenOf_flags get_string_def agentd_root_def)
  let ?m1 = "demo_machine empty_os\<lparr>m_manager := [''service'', ''run'', ''--data-dir'', ''/srv'', ''--listen'', ''127.0.0.1:50000'']\<rparr>"
  from service_install_then_run [OF boot boot c c fits refl A, of "demo_machine empty_os" ?m1]
  have "agentd_main demo_surroundings [''service'', ''install'', ''--data-dir'', ''/srv''] (demo_machine empty_os) = (?m1, Some 0)"
    "agentd_main demo_surroundings (m_manager ?m1) ?m1 = (?m1, Some 0)"
    by (simp_all add: manager_call_def demo_surroundings_def agent_service_config_def)
  then show ?thesis by (intro exI [of _ ?m1]) simp
qed

end
