(* ===== verification/Rexec_Main.thy ===== *)
theory Rexec_Main
  imports Command_Tree Controller
begin

text \<open>
  \<^verbatim>\<open>cmd/rexec/main.go\<close>, \<^verbatim>\<open>internal/app/app.go\<close> beside it and the command tree of \<^verbatim>\<open>controllercmds.go\<close>:
  the controller's program from its command line to its exit status. The command-line package and
  the runtime package \<^verbatim>\<open>mantle/bootstrap\<close> are parameters.
\<close>

section \<open>The application\<close>

record 'b rexec_app =
  app_Base :: 'b
  app_Greeting :: string

definition rexec_app_New :: "'b \<Rightarrow> 'b rexec_app" where
  "rexec_app_New DefaultBase = \<lparr>app_Base = DefaultBase, app_Greeting = ''hello''\<rparr>"

section \<open>The machine and the process\<close>

datatype shown =
    ShownOutput bool bytes
  | ShownEnrolled string string string
  | ShownIdentity string string
  | ShownInfo string string string string
  | ShownApproval ApprovalRequest
  | ShownError string
  | LoggedStart string

text \<open>The far end, the controller's own files, and what the process has printed or logged.\<close>

record 's desk =
  dk_far :: 's
  dk_os :: os
  dk_out :: "shown list"

datatype rexec_error = RexecCli cli_error | RexecBoot string

type_synonym 's rexec_runE = "flag_env \<Rightarrow> string list \<Rightarrow> 's desk \<Rightarrow> 's desk \<times> rexec_error option"

datatype rexec_option = RexecAppName string | RexecVersion string

text \<open>
  What the process finds around it. \<^verbatim>\<open>Configure\<close> changes the bare root command; \<^verbatim>\<open>Run\<close> calls the
  function it is given with the loaded configuration and the result of the runtime's \<^verbatim>\<open>Shutdown\<close>.
\<close>

record ('b, 's) rexec_env =
  re_cli :: cli
  re_enrollClient :: "string \<Rightarrow> tls_config \<Rightarrow> string + 's enroll_conn"
  re_agentClient :: "string \<Rightarrow> tls_config \<Rightarrow> string + 's agent_client"
  re_version :: string
  re_Execute :: "'s rexec_runE cobra"
  re_DefaultBase :: 'b
  re_Configure :: "'s rexec_runE command \<Rightarrow> 'b rexec_app \<Rightarrow> rexec_option list \<Rightarrow> string + 's rexec_runE command"
  re_Run :: "('b rexec_app \<Rightarrow> string option \<Rightarrow> 's desk \<Rightarrow> 's desk \<times> string option) \<Rightarrow> 's desk \<Rightarrow> 's desk \<times> string option"

text \<open>The root's flags as the commands read them, and the files as they are now.\<close>

definition cli_of :: "('b, 's) rexec_env \<Rightarrow> flag_env \<Rightarrow> 's desk \<Rightarrow> cli" where
  "cli_of E env m = (re_cli E)\<lparr>cli_credential := get_string env ''credential'',
     cli_endpoint := get_string env ''endpoint'', cli_os := dk_os m\<rparr>"

section \<open>The actions\<close>

definition agentEnroll_RunE :: "('b, 's) rexec_env \<Rightarrow> 's rexec_runE" where
  "agentEnroll_RunE E env args m =
     (let C = cli_of E env m in
      case agent_enroll C (re_enrollClient E) (get_string env ''token'') (get_string env ''cn'') (dk_far m, dk_os m) of
        ((far, fs), Inl err) \<Rightarrow> (m\<lparr>dk_far := far, dk_os := fs\<rparr>, Some (RexecCli err))
      | ((far, fs), Inr cfg) \<Rightarrow>
          (m\<lparr>dk_far := far, dk_os := fs, dk_out := dk_out m @
             [ShownEnrolled (cfg_AgentID cfg) (cfg_Fingerprint cfg) (credentialFlag C)]\<rparr>, None))"

definition agentIdentity_RunE :: "('b, 's) rexec_env \<Rightarrow> 's rexec_runE" where
  "agentIdentity_RunE E env args m =
     (case agent_identity (cli_of E env m) (re_agentClient E) (dk_far m) of
        (far, Inl err) \<Rightarrow> (m\<lparr>dk_far := far\<rparr>, Some (RexecCli err))
      | (far, Inr resp) \<Rightarrow>
          (m\<lparr>dk_far := far, dk_out := dk_out m @ [ShownIdentity (ir_AgentId resp) (ir_Fingerprint resp)]\<rparr>, None))"

definition agentInfo_RunE :: "('b, 's) rexec_env \<Rightarrow> 's rexec_runE" where
  "agentInfo_RunE E env args m =
     (case agent_info (cli_of E env m) (re_agentClient E) (dk_far m) of
        (far, Inl err) \<Rightarrow> (m\<lparr>dk_far := far\<rparr>, Some (RexecCli err))
      | (far, Inr resp) \<Rightarrow>
          (m\<lparr>dk_far := far, dk_out := dk_out m @
             [ShownInfo (Os resp) (Arch resp) (Hostname resp) (Version resp)]\<rparr>, None))"

definition show_output :: "(bool \<times> bytes) list \<Rightarrow> shown list" where
  "show_output out = map (\<lambda>(err, b). ShownOutput err b) out"

definition execRun_RunE :: "('b, 's) rexec_env \<Rightarrow> 's rexec_runE" where
  "execRun_RunE E env args m =
     (case exec_run (cli_of E env m) (re_agentClient E) args (get_string env ''workdir'') (get_strings env ''set-env'') (dk_far m) of
        (far, out, err) \<Rightarrow> (m\<lparr>dk_far := far, dk_out := dk_out m @ show_output out\<rparr>, map_option RexecCli err))"

text \<open>The line with the pending approval goes to standard output before the error.\<close>

definition execDeploy_RunE :: "('b, 's) rexec_env \<Rightarrow> 's rexec_runE" where
  "execDeploy_RunE E env args m =
     (case exec_deploy (cli_of E env m) (re_agentClient E) args (get_string env ''workdir'') (get_strings env ''set-env'')
         (get_string env ''approval'') (get_bool env ''yes'') (dk_far m) of
        (far, out, err) \<Rightarrow>
          (m\<lparr>dk_far := far, dk_out := dk_out m @ show_output out @
             (case err of Some (CliNeedsApproval a) \<Rightarrow> [ShownApproval a] | _ \<Rightarrow> [])\<rparr>, map_option RexecCli err))"

section \<open>The command tree\<close>

definition agentEnrollCmd :: "('b, 's) rexec_env \<Rightarrow> 's rexec_runE command" where
  "agentEnrollCmd E = CobraCommand ''enroll'' NoArgs []
     [(''token'', StringFlag []), (''cn'', StringFlag [])] [''token''] (Some (agentEnroll_RunE E)) []"

definition agentIdentityCmd :: "('b, 's) rexec_env \<Rightarrow> 's rexec_runE command" where
  "agentIdentityCmd E = CobraCommand ''identity'' NoArgs [] [] [] (Some (agentIdentity_RunE E)) []"

definition agentInfoCmd :: "('b, 's) rexec_env \<Rightarrow> 's rexec_runE command" where
  "agentInfoCmd E = CobraCommand ''info'' NoArgs [] [] [] (Some (agentInfo_RunE E)) []"

definition agentGroup :: "('b, 's) rexec_env \<Rightarrow> 's rexec_runE command" where
  "agentGroup E = CobraCommand ''agent'' AnyArgs [] [] [] None
     [agentEnrollCmd E, agentIdentityCmd E, agentInfoCmd E]"

definition execRunCmd :: "('b, 's) rexec_env \<Rightarrow> 's rexec_runE command" where
  "execRunCmd E = CobraCommand ''run <command> [args...]'' (MinimumNArgs 1) []
     [(''workdir'', StringFlag []), (''set-env'', StringArrayFlag [])] [] (Some (execRun_RunE E)) []"

definition execDeployCmd :: "('b, 's) rexec_env \<Rightarrow> 's rexec_runE command" where
  "execDeployCmd E = CobraCommand ''deploy <command> [args...]'' (MinimumNArgs 1) []
     [(''workdir'', StringFlag []), (''set-env'', StringArrayFlag []), (''approval'', StringFlag []),
      (''yes'', BoolFlag False)] [] (Some (execDeploy_RunE E)) []"

definition execGroup :: "('b, 's) rexec_env \<Rightarrow> 's rexec_runE command" where
  "execGroup E = CobraCommand ''exec'' AnyArgs [] [] [] None [execRunCmd E, execDeployCmd E]"

definition controllerCommands :: "('b, 's) rexec_env \<Rightarrow> 's rexec_runE command list" where
  "controllerCommands E = [agentGroup E, execGroup E]"

section \<open>main\<close>

text \<open>The function of the root's own action: a line in the log and the shutdown.\<close>

definition root_RunE :: "('b, 's) rexec_env \<Rightarrow> 's rexec_runE" where
  "root_RunE E env args m =
     (case re_Run E (\<lambda>cfg shutdown m. (m\<lparr>dk_out := dk_out m @ [LoggedStart (app_Greeting cfg)]\<rparr>, shutdown)) m of
        (m', err) \<Rightarrow> (m', map_option RexecBoot err))"

definition bare_root :: "'s rexec_runE command" where
  "bare_root = CobraCommand ''rexec'' AnyArgs [] [] [] None []"

definition rexec_root :: "('b, 's) rexec_env \<Rightarrow> 's rexec_runE command \<Rightarrow> 's rexec_runE command" where
  "rexec_root E root =
     CobraCommand (cm_Use root) (cm_Args root)
       (cm_Persistent root @
        [(''endpoint'', StringFlag []), (''credential'', StringFlag (defaultControllerConfig (re_cli E)))])
       (cm_Flags root) (cm_Required root) (Some (root_RunE E)) (cm_Commands root @ controllerCommands E)"

definition rexec_main :: "('b, 's) rexec_env \<Rightarrow> string list \<Rightarrow> 's desk \<Rightarrow> 's desk \<times> nat" where
  "rexec_main E argv m =
     (case re_Configure E bare_root (rexec_app_New (re_DefaultBase E))
         [RexecAppName ''rexec'', RexecVersion (re_version E)] of
        Inl err \<Rightarrow> (m\<lparr>dk_out := dk_out m @ [ShownError err]\<rparr>, 1)
      | Inr root \<Rightarrow>
          (case re_Execute E (rexec_root E root) argv of
             Inl err \<Rightarrow> (m, 1)
           | Inr None \<Rightarrow> (m, 0)
           | Inr (Some (act, env, args)) \<Rightarrow>
               (case act env args m of (m', err) \<Rightarrow> (m', if err \<noteq> None then 1 else 0))))"

section \<open>Lemmas\<close>

text \<open>
  \<^verbatim>\<open>Configure\<close> succeeds and leaves room for the program's own flags and commands (a flag that is
  defined twice panics).
\<close>

definition configured :: "('b, 's) rexec_env \<Rightarrow> 's rexec_runE command \<Rightarrow> bool" where
  "configured E root \<longleftrightarrow>
     re_Configure E bare_root (rexec_app_New (re_DefaultBase E)) [RexecAppName ''rexec'', RexecVersion (re_version E)] = Inr root \<and>
     list_all (\<lambda>(n, v). n \<noteq> ''endpoint'' \<and> n \<noteq> ''credential'') (cm_Persistent root) \<and>
     list_all (\<lambda>c. cm_Name c \<noteq> ''agent'' \<and> cm_Name c \<noteq> ''exec'') (cm_Commands root)"

lemma rexec_main_runs:
  assumes "configured E root" "cobra_laws (re_Execute E)"
    and "find_path (rexec_root E root) path = Some cmd" "cm_RunE cmd = Some act" "cm_Commands cmd = []"
    and "flags_at (rexec_root E root) path = flags" "list_all (item_ok flags) items"
    and "set (cm_Required cmd) \<subseteq> set (map flag_arg_name (item_flags items))"
    and "args_ok (cm_Args cmd) (item_args items @ the_rest rest)"
  shows "rexec_main E (path @ concat (map item_words items) @ dashed rest) m =
    (case act (fold set_flag (item_flags items) (map_of flags)) (item_args items @ the_rest rest) m of
       (m', err) \<Rightarrow> (m', if err \<noteq> None then 1 else 0))"
proof -
  have "re_Execute E (rexec_root E root) (path @ concat (map item_words items) @ dashed rest) =
      Inr (Some (act, fold set_flag (item_flags items) (map_of (flags_at (rexec_root E root) path)), item_args items @ the_rest rest))"
    by (rule cobra_lawsD [OF assms(2-5)]) (use assms in simp_all)
  with assms(1,6) show ?thesis by (simp add: rexec_main_def configured_def)
qed

lemma find_among: "find P (xs @ ys) = (case find P xs of None \<Rightarrow> find P ys | Some x \<Rightarrow> Some x)"
  by (induction xs) auto

lemmas rexec_tree_defs = rexec_root_def controllerCommands_def agentGroup_def execGroup_def agentEnrollCmd_def
  agentIdentityCmd_def agentInfoCmd_def execRunCmd_def execDeployCmd_def find_command_def cm_Name_def find_among

lemma own_commands:
  assumes "configured E root" "w \<in> {''agent'', ''exec''}"
  shows "find_command (rexec_root E root) w = Some (if w = ''agent'' then agentGroup E else execGroup E)"
proof -
  have "find (\<lambda>s. cm_Name s = w) (cm_Commands root) = None"
    using assms by (auto simp: configured_def find_None_iff list_all_iff)
  then show ?thesis using assms(2)
    by (auto simp: find_command_def rexec_root_def find_among controllerCommands_def agentGroup_def execGroup_def cm_Name_def)
qed

lemma exec_at:
  assumes "configured E root"
  shows "find_path (rexec_root E root) [''exec'', ''run''] = Some (execRunCmd E)"
    "find_path (rexec_root E root) [''exec'', ''deploy''] = Some (execDeployCmd E)"
    "flags_at (rexec_root E root) [''exec'', ''run''] =
      [(''workdir'', StringFlag []), (''set-env'', StringArrayFlag [])] @ cm_Persistent (rexec_root E root)"
    "flags_at (rexec_root E root) [''exec'', ''deploy''] =
      [(''workdir'', StringFlag []), (''set-env'', StringArrayFlag []), (''approval'', StringFlag []),
       (''yes'', BoolFlag False)] @ cm_Persistent (rexec_root E root)"
  using own_commands [OF assms, of "''exec''"]
  by (simp_all add: find_command_def execGroup_def execRunCmd_def execDeployCmd_def cm_Name_def)

lemma main_exec_run:
  assumes "configured E root" "cobra_laws (re_Execute E)" "flags = flags_at (rexec_root E root) [''exec'', ''run'']"
    and "list_all (item_ok flags) items" "args = item_args items @ the_rest rest" "args \<noteq> []"
  shows "rexec_main E ([''exec'', ''run''] @ concat (map item_words items) @ dashed rest) m =
    (case execRun_RunE E (fold set_flag (item_flags items) (map_of flags)) args m of
       (m', err) \<Rightarrow> (m', if err \<noteq> None then 1 else 0))"
  unfolding assms(5)
  by (rule rexec_main_runs [OF assms(1,2) exec_at(1) [OF assms(1)] _ _ assms(3) [symmetric] assms(4)])
     (use assms(5,6) in \<open>auto simp: execRunCmd_def Suc_le_eq\<close>)

lemma main_exec_deploy:
  assumes "configured E root" "cobra_laws (re_Execute E)" "flags = flags_at (rexec_root E root) [''exec'', ''deploy'']"
    and "list_all (item_ok flags) items" "args = item_args items @ the_rest rest" "args \<noteq> []"
  shows "rexec_main E ([''exec'', ''deploy''] @ concat (map item_words items) @ dashed rest) m =
    (case execDeploy_RunE E (fold set_flag (item_flags items) (map_of flags)) args m of
       (m', err) \<Rightarrow> (m', if err \<noteq> None then 1 else 0))"
  unfolding assms(5)
  by (rule rexec_main_runs [OF assms(1,2) exec_at(2) [OF assms(1)] _ _ assms(3) [symmetric] assms(4)])
     (use assms(5,6) in \<open>auto simp: execDeployCmd_def Suc_le_eq\<close>)

text \<open>What the flags of \<^verbatim>\<open>exec deploy\<close> say when none, or only \<^verbatim>\<open>--yes\<close>, is given.\<close>

lemma deploy_flags:
  assumes "configured E root" "flags = flags_at (rexec_root E root) [''exec'', ''deploy'']"
  defines "yes \<equiv> (map_of flags)(''yes'' \<mapsto> BoolFlag True)"
  shows "get_string (map_of flags) ''workdir'' = []" "get_strings (map_of flags) ''set-env'' = []"
    "get_string (map_of flags) ''approval'' = []" "get_bool (map_of flags) ''yes'' = False"
    "get_string yes ''workdir'' = []" "get_strings yes ''set-env'' = []"
    "get_string yes ''approval'' = []" "get_bool yes ''yes'' = True"
  using exec_at(4) [OF assms(1)] unfolding yes_def
  by (simp_all add: assms(2) get_string_def get_strings_def get_bool_def)

text \<open>\<^verbatim>\<open>--yes\<close> among the arguments is the flag; after a double dash it is an argument.\<close>

lemma main_deploy_yes:
  assumes "configured E root" "cobra_laws (re_Execute E)" "flags = flags_at (rexec_root E root) [''exec'', ''deploy'']"
    and "list_all looks_plain (c # pre @ post)"
  shows "rexec_main E ([''exec'', ''deploy'', c] @ pre @ [''--yes''] @ post) m =
      (case execDeploy_RunE E ((map_of flags)(''yes'' \<mapsto> BoolFlag True)) (c # pre @ post) m of
         (m', err) \<Rightarrow> (m', if err \<noteq> None then 1 else 0))"
    "rexec_main E ([''exec'', ''deploy'', ''--'', c] @ pre @ [''--yes''] @ post) m =
      (case execDeploy_RunE E (map_of flags) (c # pre @ [''--yes''] @ post) m of
         (m', err) \<Rightarrow> (m', if err \<noteq> None then 1 else 0))"
proof -
  let ?items = "Inr c # map Inr pre @ Inl (Switch ''yes'') # map Inr post"
  have i: "list_all (item_ok flags) ?items" "item_flags ?items = [Switch ''yes'']" "item_args ?items = c # pre @ post"
    "concat (map item_words ?items) = [c] @ pre @ [''--yes''] @ post"
    using assms(4) exec_at(4) [OF assms(1)] by (simp_all add: assms(3) del: map_map)
  from main_exec_deploy [OF assms(1-3) i(1) refl, of None m] i(2-4)
  show "rexec_main E ([''exec'', ''deploy'', c] @ pre @ [''--yes''] @ post) m =
      (case execDeploy_RunE E ((map_of flags)(''yes'' \<mapsto> BoolFlag True)) (c # pre @ post) m of
         (m', err) \<Rightarrow> (m', if err \<noteq> None then 1 else 0))"
    by (simp add: dashed_def the_rest_def)
  from main_exec_deploy [OF assms(1-3), of "[]" "c # pre @ [''--yes''] @ post" "Some (c # pre @ [''--yes''] @ post)" m]
  show "rexec_main E ([''exec'', ''deploy'', ''--'', c] @ pre @ [''--yes''] @ post) m =
      (case execDeploy_RunE E (map_of flags) (c # pre @ [''--yes''] @ post) m of
         (m', err) \<Rightarrow> (m', if err \<noteq> None then 1 else 0))"
    by (simp add: dashed_def the_rest_def)
qed

text \<open>A gated command without options: without \<^verbatim>\<open>--yes\<close> it is asked for, with it it runs.\<close>

lemma deploy_verdicts:
  assumes "dialAgent C new = Inr (agent_conn srv worlds ctx)"
    and "caller_role ctx = RoleAdmin" "Policy_Evaluate (srv_policy srv) c = DecisionAsk"
    and "policy_randID (w_rnd (worlds n)) = Inr fresh" "fresh \<noteq> []"
    and "w_now (worlds (n + 1)) \<le> w_now (worlds n) + 5 * time_Minute"
    and "args \<noteq> []" "hd args = c" "c \<noteq> []"
  shows "(\<exists>s1. exec_deploy C new args [] [] [] False (s, n) = ((s1, n + 1), [], Some (CliNeedsApproval
          \<lparr>Operation = strings_TrimSpace (c @ '' '' @ strings_Join (tl args) '' ''),
           Reason = approval_reason, ar_ApprovalId = fresh\<rparr>))) \<and>
      exec_deploy C new args [] [] [] True (s, n) = ((s\<lparr>as_grants := (as_grants s)(fresh := None)\<rparr>, n + 2),
         reported (worlds (n + 1)) \<lparr>er_Command = c, er_Args = tl args, er_WorkingDir = [], er_Env = [], er_ApprovalId = []\<rparr>)"
proof -
  have h: "hd args \<noteq> []" "Policy_Evaluate (srv_policy srv) (hd args) = DecisionAsk" "parseEnv [] = Inr []"
    using assms(3,8,9) by (simp_all add: parseEnv_def)
  from exec_deploy_approval_core [OF assms(1) h(3) assms(2,7) h(1,2) assms(4-6), of "[]" s] assms(8)
  show ?thesis by auto
qed

lemma main_agent_enroll:
  assumes "configured E root" "cobra_laws (re_Execute E)"
  obtains env where "get_string env ''endpoint'' = ep" "get_string env ''token'' = v" "get_string env ''cn'' = []"
    "get_string env ''credential'' = defaultControllerConfig (re_cli E)"
    "\<forall>m. rexec_main E [''agent'', ''enroll'', ''--endpoint'', ep, ''--token'', v] m =
      (case agentEnroll_RunE E env [] m of (m', err) \<Rightarrow> (m', if err \<noteq> None then 1 else 0))"
proof -
  let ?root = "rexec_root E root" and ?fs = "[WithValue ''endpoint'' ep, WithValue ''token'' v]"
  let ?flags = "[(''token'', StringFlag []), (''cn'', StringFlag [])] @ cm_Persistent root @
      [(''endpoint'', StringFlag []), (''credential'', StringFlag (defaultControllerConfig (re_cli E)))]"
  have at: "find_path ?root [''agent'', ''enroll''] = Some (agentEnrollCmd E)"
    "flags_at ?root [''agent'', ''enroll''] = ?flags"
    using own_commands [OF assms(1), of "''agent''"]
    by (simp_all add: find_command_def agentGroup_def agentEnrollCmd_def cm_Name_def) (simp add: rexec_root_def)
  have own: "map_of (cm_Persistent root) n = None" if "n = ''endpoint'' \<or> n = ''credential''" for n
    using assms(1) that by (auto simp: configured_def map_of_eq_None_iff list_all_iff)
  have fits: "list_all (item_ok ?flags) (map Inl ?fs)" using own by (simp add: map_add_def)
  let ?env = "fold set_flag ?fs (map_of ?flags)"
  have "rexec_main E ([''agent'', ''enroll''] @ concat (map item_words (map Inl ?fs)) @ dashed None) m =
      (case agentEnroll_RunE E (fold set_flag (item_flags (map Inl ?fs)) (map_of ?flags)) (item_args (map Inl ?fs) @ the_rest None) m of
        (m', err) \<Rightarrow> (m', if err \<noteq> None then 1 else 0))" for m
    by (rule rexec_main_runs [OF assms at(1) _ _ at(2) fits])
       (simp_all add: agentEnrollCmd_def the_rest_def del: map_map list.map)
  then have run: "rexec_main E [''agent'', ''enroll'', ''--endpoint'', ep, ''--token'', v] m =
      (case agentEnroll_RunE E ?env [] m of (m', err) \<Rightarrow> (m', if err \<noteq> None then 1 else 0))" for m
    by (simp add: dashed_def the_rest_def)
  show thesis
    by (rule that [OF _ _ _ _ allI [OF run]]) (use own in \<open>simp_all add: get_string_def map_add_def\<close>)
qed

section \<open>Properties\<close>

text \<open>
  C13: \<^verbatim>\<open>rexec exec run\<close> from its command line, flags and arguments mixed or the arguments after a
  double dash: an operator or admin whose credential dials an agent sees the output of the
  command, all of it and in order, and the exit status of \<^verbatim>\<open>rexec\<close> is 0 exactly when the remote
  command started, was not cancelled, and exited with 0 (as a 32-bit code). It is 1 for every other
  code: the remote code itself is not passed on.
\<close>

theorem exec_run_exit_status:
  assumes "configured E root" "cobra_laws (re_Execute E)" "flags = flags_at (rexec_root E root) [''exec'', ''run'']"
    and "list_all (item_ok flags) items" "args = item_args items @ the_rest rest" "args \<noteq> []" "hd args \<noteq> []"
    and "given = fold set_flag (item_flags items) (map_of flags)"
    and "dialAgent (cli_of E given m) (re_agentClient E) = Inr (agent_conn srv worlds ctx)"
    and "parseEnv (get_strings given ''set-env'') = Inr env" "caller_role ctx \<in> {RoleOperator, RoleAdmin}"
    and "dk_far m = (s, n)"
  shows "rexec_main E ([''exec'', ''run''] @ concat (map item_words items) @ dashed rest) m =
    (case behaviour (worlds n) \<lparr>er_Command = hd args, er_Args = tl args, er_WorkingDir = get_string given ''workdir'',
        er_Env = env, er_ApprovalId = []\<rparr> of
       StartError e \<Rightarrow> (m\<lparr>dk_far := (s, n + 1)\<rparr>, 1)
     | Started pieces code cancelled \<Rightarrow>
         (m\<lparr>dk_far := (s, n + 1), dk_out := dk_out m @ show_output pieces\<rparr>,
          if 2 ^ 32 dvd code \<and> (code = 0 \<longrightarrow> cancelled = None) then 0 else 1))"
proof -
  have "execRun_RunE E given args m =
    (case exec_run (cli_of E given m) (re_agentClient E) args (get_string given ''workdir'') (get_strings given ''set-env'') (s, n) of
      (far, out, err) \<Rightarrow> (m\<lparr>dk_far := far, dk_out := dk_out m @ show_output out\<rparr>, map_option RexecCli err))"
    by (simp add: execRun_RunE_def assms(12))
  then show ?thesis
    unfolding main_exec_run [OF assms(1-6)] assms(8) [symmetric]
    using exec_run_end_to_end_core [OF assms(9,10,11,6,7), of "get_string given ''workdir''" s n]
    by (auto simp: Let_def show_output_def split: proc.splits)
qed

text \<open>
  C14: \<^verbatim>\<open>rexec exec deploy\<close> takes \<^verbatim>\<open>--yes\<close> from the arguments of the remote command. Under a policy that
  asks, \<^verbatim>\<open>deploy c ... --yes ...\<close> approves itself: the command is run, once, without a human and
  without its own \<^verbatim>\<open>--yes\<close>. Only after a double dash is \<^verbatim>\<open>--yes\<close> the command's: then nothing
  is run, the request for approval is printed, and the exit status is 1.
\<close>

theorem deploy_takes_remote_yes:
  assumes "configured E root" "cobra_laws (re_Execute E)" "flags = flags_at (rexec_root E root) [''exec'', ''deploy'']"
    and "list_all looks_plain (c # pre @ post)" "c \<noteq> []"
    and "dialAgent (cli_of E (map_of flags) m) (re_agentClient E) = Inr (agent_conn srv worlds ctx)"
    and "caller_role ctx = RoleAdmin" "Policy_Evaluate (srv_policy srv) c = DecisionAsk"
    and "policy_randID (w_rnd (worlds n)) = Inr fresh" "fresh \<noteq> []"
    and "w_now (worlds (n + 1)) \<le> w_now (worlds n) + 5 * time_Minute"
    and "dk_far m = (s, n)"
  shows "rexec_main E ([''exec'', ''deploy'', c] @ pre @ [''--yes''] @ post) m =
      (case reported (worlds (n + 1)) \<lparr>er_Command = c, er_Args = pre @ post, er_WorkingDir = [], er_Env = [], er_ApprovalId = []\<rparr> of
         (out, err) \<Rightarrow> (m\<lparr>dk_far := (s\<lparr>as_grants := (as_grants s)(fresh := None)\<rparr>, n + 2),
            dk_out := dk_out m @ show_output out\<rparr>, if err = None then 0 else 1)) \<and>
    (\<exists>s1. rexec_main E ([''exec'', ''deploy'', ''--'', c] @ pre @ [''--yes''] @ post) m =
      (m\<lparr>dk_far := (s1, n + 1), dk_out := dk_out m @ [ShownApproval
         \<lparr>Operation = strings_TrimSpace (c @ '' '' @ strings_Join (pre @ [''--yes''] @ post) '' ''),
          Reason = approval_reason, ar_ApprovalId = fresh\<rparr>]\<rparr>, 1))"
proof
  let ?env = "(map_of flags)(''yes'' \<mapsto> BoolFlag True)"
  have C: "cli_of E ?env m = cli_of E (map_of flags) m" by (simp add: cli_of_def get_string_def)
  note g = deploy_flags [OF assms(1,3)]
  note lines = main_deploy_yes [OF assms(1-4), of m]
  note verdicts = deploy_verdicts [OF assms(6-11), of _ s] and h = assms(5,12)
  show "rexec_main E ([''exec'', ''deploy'', c] @ pre @ [''--yes''] @ post) m =
      (case reported (worlds (n + 1)) \<lparr>er_Command = c, er_Args = pre @ post, er_WorkingDir = [], er_Env = [], er_ApprovalId = []\<rparr> of
         (out, err) \<Rightarrow> (m\<lparr>dk_far := (s\<lparr>as_grants := (as_grants s)(fresh := None)\<rparr>, n + 2),
            dk_out := dk_out m @ show_output out\<rparr>, if err = None then 0 else 1))"
    unfolding lines(1) using verdicts [of "c # pre @ post"] h
    by (auto simp: execDeploy_RunE_def C g reported_def split: prod.splits option.splits)
  obtain s1 where "exec_deploy (cli_of E (map_of flags) m) (re_agentClient E) (c # pre @ [''--yes''] @ post) [] [] [] False (s, n) =
      ((s1, n + 1), [], Some (CliNeedsApproval
         \<lparr>Operation = strings_TrimSpace (c @ '' '' @ strings_Join (pre @ [''--yes''] @ post) '' ''),
          Reason = approval_reason, ar_ApprovalId = fresh\<rparr>))"
    using verdicts [of "c # pre @ [''--yes''] @ post"] h by auto
  then show "\<exists>s1. rexec_main E ([''exec'', ''deploy'', ''--'', c] @ pre @ [''--yes''] @ post) m =
      (m\<lparr>dk_far := (s1, n + 1), dk_out := dk_out m @ [ShownApproval
         \<lparr>Operation = strings_TrimSpace (c @ '' '' @ strings_Join (pre @ [''--yes''] @ post) '' ''),
          Reason = approval_reason, ar_ApprovalId = fresh\<rparr>]\<rparr>, 1)"
    unfolding lines(2) by (intro exI [of _ s1]) (simp add: execDeploy_RunE_def g h show_output_def)
qed

section \<open>The properties at concrete inputs\<close>

text \<open>A desk with a credential that dials the modelled agent, and a runtime that adds nothing.\<close>

definition demo_rexec :: "cli \<Rightarrow> Server \<Rightarrow> (nat \<Rightarrow> world) \<Rightarrow> string \<Rightarrow> (unit, agent_state \<times> nat) rexec_env" where
  "demo_rexec C srv worlds role = \<lparr>re_cli = C, re_enrollClient = (\<lambda>_ _. Inl ''no bootstrap''),
     re_agentClient = (\<lambda>_ _. Inr (agent_conn srv worlds (role_ctx role))), re_version = ''dev'', re_Execute = plain_cobra,
     re_DefaultBase = (), re_Configure = (\<lambda>cmd app opts. Inr cmd), re_Run = (\<lambda>f m. f (rexec_app_New ()) None m)\<rparr>"

definition demo_desk :: "cli \<Rightarrow> (agent_state \<times> nat) desk" where
  "demo_desk C = \<lparr>dk_far = (fresh_agent, 0), dk_os = cli_os C, dk_out = []\<rparr>"

lemma demo_rexec_configured: "configured (demo_rexec C srv worlds role) bare_root"
  by (simp add: configured_def demo_rexec_def bare_root_def)

text \<open>A desk whose default credential dials the agent, whoever the agent takes it for.\<close>

definition desk_dials :: "cli \<Rightarrow> bool" where
  "desk_dials C \<longleftrightarrow> (\<forall>srv worlds role env.
     get_string env ''credential'' = defaultControllerConfig C \<and> get_string env ''endpoint'' = [] \<longrightarrow>
     dialAgent (cli_of (demo_rexec C srv worlds role) env (demo_desk C)) (\<lambda>_ _. Inr (agent_conn srv worlds (role_ctx role))) =
       Inr (agent_conn srv worlds (role_ctx role)))"

lemma demo_rexec_dial:
  obtains C where "desk_dials C"
proof (rule demo_cli_dial)
  fix cfg
  assume d: "\<And>conn :: (agent_state \<times> nat) agent_client. dialAgent (demo_cli cfg) (\<lambda>_ _. Inr conn) = Inr conn"
  define home where "home = filepath_Join [''.rexec'', ''config.yaml'']"
  define C where "C = (demo_cli cfg)\<lparr>cli_os := \<lparr>os_files = [home \<mapsto> \<lparr>f_data = fst config_coder cfg, f_mode = perm_0600\<rparr>], os_dirs = {}\<rparr>\<rparr>"
  have home: "home \<noteq> []" unfolding home_def by code_simp
  have "defaultControllerConfig C = home" by (simp add: C_def demo_cli_def defaultControllerConfig_def home_def)
  have load: "Config_Load no_faults plain_yaml home (cli_os C) = Inr cfg"
  proof -
    have "yaml_Unmarshal plain_yaml (fst config_coder cfg) = Inr cfg"
      using plain_yaml_laws unfolding yaml_laws_def by (simp add: plain_yaml_def)
    then show ?thesis by (simp add: C_def Config_Load_def file_data_def)
  qed
  show thesis
  proof (rule that [of C], unfold desk_dials_def, intro allI impI, elim conjE)
    fix srv worlds role and env :: flag_env
    assume e: "get_string env ''credential'' = defaultControllerConfig C" "get_string env ''endpoint'' = []"
    let ?D = "cli_of (demo_rexec C srv worlds role) env (demo_desk C)"
    have same: "cli_faults ?D = no_faults" "cli_yaml ?D = plain_yaml" "credentialFlag ?D = home" "cli_os ?D = cli_os C"
      "cli_x509 ?D = cli_x509 (demo_cli cfg)" "endpointFlag ?D = []" "endpointFlag (demo_cli cfg) = []"
      using e \<open>defaultControllerConfig C = home\<close> home
      by (simp_all add: cli_of_def demo_rexec_def demo_desk_def C_def demo_cli_def credentialFlag_def endpointFlag_def)
    let ?conn = "agent_conn srv worlds (role_ctx role)"
    show "dialAgent ?D (\<lambda>_ _. Inr ?conn) = Inr ?conn"
      using d [of ?conn] unfolding dialAgent_def same load demo_cli_load by (auto split: list.splits)
  qed
qed

text \<open>A command that prints a line and exits with 3.\<close>

definition exits_with_3 :: os_exec where
  "exits_with_3 c args d env = Started [(False, ''FAIL'')] 3 None"

lemma demo_rexec_simps [simp]:
  "re_Execute (demo_rexec C srv worlds role) = plain_cobra" "re_cli (demo_rexec C srv worlds role) = C"
  "re_agentClient (demo_rexec C srv worlds role) = (\<lambda>_ _. Inr (agent_conn srv worlds (role_ctx role)))"
  "dk_far (demo_desk C) = (fresh_agent, 0)" "dk_out (demo_desk C) = []"
  by (simp_all add: demo_rexec_def demo_desk_def)

theorem exec_run_exit_status_witness:
  "\<exists>C. rexec_main (demo_rexec C (demo_server ask_policy) (\<lambda>n. demo_world exits_with_3 (int n)) RoleOperator)
     [''exec'', ''run'', ''go'', ''test'', ''--set-env'', ''CI=1'', ''./...''] (demo_desk C) =
     (demo_desk C\<lparr>dk_far := (fresh_agent, 1), dk_out := [ShownOutput False ''FAIL'']\<rparr>, 1)"
proof -
  obtain C where dial: "desk_dials C" by (rule demo_rexec_dial)
  let ?W = "\<lambda>n. demo_world exits_with_3 (int n)"
  let ?E = "demo_rexec C (demo_server ask_policy) ?W RoleOperator"
  let ?flags = "flags_at (rexec_root ?E bare_root) [''exec'', ''run'']"
  let ?items = "[Inr ''go'', Inr ''test'', Inl (WithValue ''set-env'' ''CI=1''), Inr ''./...''] :: cli_item list"
  let ?given = "fold set_flag (item_flags ?items) (map_of ?flags)"
  have cfgd: "configured ?E bare_root" by (rule demo_rexec_configured)
  have fl: "?flags = [(''workdir'', StringFlag []), (''set-env'', StringArrayFlag []), (''endpoint'', StringFlag []),
      (''credential'', StringFlag (defaultControllerConfig C))]"
    using exec_at(3) [OF cfgd] by (simp add: rexec_root_def bare_root_def)
  have items: "list_all (item_ok ?flags) ?items" unfolding fl by (simp add: looks_plain_def)
  have g: "get_string ?given ''credential'' = defaultControllerConfig C" "get_string ?given ''endpoint'' = []"
    "get_strings ?given ''set-env'' = [''CI=1'']"
    unfolding fl by (simp_all add: get_string_def get_strings_def)
  have env: "parseEnv (get_strings ?given ''set-env'') = Inr [(''CI'', ''1'')]" unfolding g(3) by code_simp
  have d: "dialAgent (cli_of ?E ?given (demo_desk C)) (re_agentClient ?E) =
      Inr (agent_conn (demo_server ask_policy) ?W (role_ctx RoleOperator))"
    using dial g(1,2) by (simp add: desk_dials_def)
  have args: "item_args ?items @ the_rest None \<noteq> []" "hd (item_args ?items @ the_rest None) \<noteq> []" by simp_all
  have law: "cobra_laws (re_Execute ?E)" using plain_cobra_laws by simp
  have role: "caller_role (role_ctx RoleOperator) \<in> {RoleOperator, RoleAdmin}" by (simp add: role_ctx_role)
  have "dk_far (demo_desk C) = (fresh_agent, 0)" by simp
  from exec_run_exit_status [OF cfgd law refl items refl args refl d env role this]
  show ?thesis
    by (intro exI [of _ C]) (simp add: dashed_def the_rest_def behaviour_def exits_with_3_def show_output_def)
qed

theorem deploy_takes_remote_yes_witness:
  "\<exists>C. rexec_main (demo_rexec C (demo_server ask_policy) (\<lambda>n. demo_world one_liner (int n)) RoleAdmin)
     [''exec'', ''deploy'', ''apt-get'', ''upgrade'', ''--yes''] (demo_desk C) =
     (demo_desk C\<lparr>dk_far := (fresh_agent, 2), dk_out := [ShownOutput False ''ok'']\<rparr>, 0)"
proof -
  obtain C where dial: "desk_dials C" by (rule demo_rexec_dial)
  let ?W = "\<lambda>n. demo_world one_liner (int n)"
  let ?E = "demo_rexec C (demo_server ask_policy) ?W RoleAdmin"
  let ?flags = "flags_at (rexec_root ?E bare_root) [''exec'', ''deploy'']"
  have cfgd: "configured ?E bare_root" by (rule demo_rexec_configured)
  have fl: "?flags = [(''workdir'', StringFlag []), (''set-env'', StringArrayFlag []), (''approval'', StringFlag []),
      (''yes'', BoolFlag False), (''endpoint'', StringFlag []), (''credential'', StringFlag (defaultControllerConfig C))]"
    using exec_at(4) [OF cfgd] by (simp add: rexec_root_def bare_root_def)
  have g: "get_string (map_of ?flags) ''credential'' = defaultControllerConfig C" "get_string (map_of ?flags) ''endpoint'' = []"
    unfolding fl by (simp_all add: get_string_def)
  have d: "dialAgent (cli_of ?E (map_of ?flags) (demo_desk C)) (re_agentClient ?E) =
      Inr (agent_conn (demo_server ask_policy) ?W (role_ctx RoleAdmin))"
    using dial g by (simp add: desk_dials_def)
  have law: "cobra_laws (re_Execute ?E)" using plain_cobra_laws by simp
  have plain: "list_all looks_plain (''apt-get'' # [''upgrade''] @ [])" "''apt-get'' \<noteq> []" by (simp_all add: looks_plain_def)
  have aid: "policy_randID (w_rnd (?W 0)) = Inr demo_approval" "demo_approval \<noteq> []"
    by (simp_all add: demo_randID demo_approval_def)
  have ask: "Policy_Evaluate (srv_policy (demo_server ask_policy)) ''apt-get'' = DecisionAsk"
    by (simp add: demo_server_def Policy_Evaluate_def)
  have now: "w_now (?W (0 + 1)) \<le> w_now (?W 0) + 5 * time_Minute" by (simp add: time_Minute_def time_Second_def)
  have far: "dk_far (demo_desk C) = (fresh_agent, 0)" by simp
  have r: "reported (?W (0 + 1)) (exec_request ''apt-get'' ([''upgrade''] @ []) []) = ([(False, ''ok'')], None)"
    by (simp add: reported_def run_verdict_def behaviour_def one_liner_def)
  have "NewGrants(demo_approval := None) = NewGrants" by (simp add: NewGrants_def)
  with deploy_takes_remote_yes [OF cfgd law refl plain d role_ctx_admin ask aid now far, THEN conjunct1]
  show ?thesis unfolding r by (intro exI [of _ C]) (simp add: show_output_def)
qed

end
