(* ===== verification/Command_Lines.thy ===== *)
theory Command_Lines
  imports Agentd_Main Rexec_Main
begin





section \<open>Properties\<close>


section \<open>The property at a concrete input\<close>

text \<open>A desk without a credential, whose bootstrap connection reaches the given agent.\<close>

definition demo_joiner :: "agent_state enroll_conn \<Rightarrow> (unit, agent_state) rexec_env" where
  "demo_joiner conn = \<lparr>re_cli = demo_joining, re_enrollClient = (\<lambda>_ _. Inr conn), re_agentClient = (\<lambda>_ _. Inl ''unused''),
     re_version = ''dev'', re_Execute = plain_cobra, re_DefaultBase = (), re_Configure = (\<lambda>cmd app opts. Inr cmd),
     re_Run = (\<lambda>f m. f (rexec_app_New ()) None m)\<rparr>"

lemma demo_joiner_simps [simp]:
  "re_cli (demo_joiner conn) = demo_joining" "re_enrollClient (demo_joiner conn) = (\<lambda>_ _. Inr conn)"
  "re_Execute (demo_joiner conn) = plain_cobra"
  by (simp_all add: demo_joiner_def)





end
