(* ===== verification/Graceful_Stop.thy ===== *)
theory Graceful_Stop
  imports Daemon Concurrent_Deploys
begin

text \<open>
  The end of \<^verbatim>\<open>serveAgent\<close> in \<^verbatim>\<open>cmd/rexec-agentd/agentcmds.go\<close>, with calls that overlap: the goroutine
  that runs \<^verbatim>\<open>srv.Serve\<close> and hands its result over the channel \<^verbatim>\<open>errCh\<close>, the \<^verbatim>\<open>select\<close> between the
  cancelled context and that channel, and \<^verbatim>\<open>GracefulStop\<close>, documented to refuse new calls and to
  return when the ones in flight are answered; \<^verbatim>\<open>Serve\<close> returns nil once it has been called. The
  calls take the steps of theory \<^verbatim>\<open>Concurrent_Deploys\<close>, each in its own goroutine: taking and
  releasing the mutex of the approvals, using the token store behind its lock, running, answering.
\<close>

section \<open>The goroutines\<close>

text \<open>What connections bring, by number: the certificates presented, and the call made.\<close>

type_synonym arrival = "certificate list \<times> call"

definition arrived :: "x509_env \<Rightarrow> tls_config \<Rightarrow> (nat \<Rightarrow> arrival) \<Rightarrow> nat \<Rightarrow> call" where
  "arrived X creds conns i =
     (case conns i of (certs, c) \<Rightarrow>
        (case server_peer X creds (w_now (call_world c)) certs of None \<Rightarrow> c | Some info \<Rightarrow> with_peer info c))"

definition handshake :: "x509_env \<Rightarrow> tls_config \<Rightarrow> arrival \<Rightarrow> bool" where
  "handshake X creds p \<longleftrightarrow> server_peer X creds (w_now (call_world (snd p))) (fst p) \<noteq> None"

text \<open>The goroutine serves, has a result to put into the channel, or has ended.\<close>

datatype goroutine = Accepting | Handing "string option" | Gone

datatype serve_pc = AtSelect | InGracefulStop | Done "string option"

record live =
  lv_calls :: daemon_calls
  lv_cancelled :: bool
  lv_open :: bool
  lv_accepted :: "nat set"
  lv_goroutine :: goroutine
  lv_errCh :: "string option option"
  lv_main :: serve_pc

definition live_start :: "token_map \<Rightarrow> agent_state \<Rightarrow> live" where
  "live_start m0 st = \<lparr>lv_calls = calls_start m0 st, lv_cancelled = False, lv_open = True, lv_accepted = {},
     lv_goroutine = Accepting, lv_errCh = None, lv_main = AtSelect\<rparr>"

definition lv_inflight :: "live \<Rightarrow> nat set" where
  "lv_inflight s = {i \<in> lv_accepted s. cd_at (lv_calls s) i \<notin> range Answered}"

abbreviation enrolls :: "(nat \<Rightarrow> arrival) \<Rightarrow> nat \<Rightarrow> bool" where
  "enrolls conns i \<equiv> \<exists>req. call_rpc (snd (conns i)) = RpcEnroll req"

text \<open>A step of call \<open>i\<close>: towards its answer, or, for an enrollment, in the token store.\<close>

definition advances :: "(nat \<Rightarrow> arrival) \<Rightarrow> nat \<Rightarrow> daemon_calls \<Rightarrow> daemon_calls \<Rightarrow> bool" where
  "advances conns i c d \<longleftrightarrow> moves i c d \<and> cd_store d = cd_store c \<or>
     enrolls conns i \<and> cd_at d = cd_at c \<and> turns i (cd_store c) (cd_store d)"

text \<open>A step of others: the files change, or another process uses the token store.\<close>

definition outside :: "(nat \<Rightarrow> arrival) \<Rightarrow> daemon_calls \<Rightarrow> daemon_calls \<Rightarrow> bool" where
  "outside conns c d \<longleftrightarrow> cd_at d = cd_at c \<and>
     (\<forall>i. enrolls conns i \<longrightarrow> ls_caller (cd_store d) i = ls_caller (cd_store c) i)"

inductive live_step ::
  "(nat \<Rightarrow> store_call) \<Rightarrow> x509_env \<Rightarrow> tls_config \<Rightarrow> Server \<Rightarrow> (nat \<Rightarrow> arrival) \<Rightarrow> live \<Rightarrow> live \<Rightarrow> bool"
  for procs X creds srv conns where
  lv_accept: "lv_open s \<Longrightarrow> i \<notin> lv_accepted s \<Longrightarrow> handshake X creds (conns i) \<Longrightarrow>
    live_step procs X creds srv conns s (s\<lparr>lv_accepted := insert i (lv_accepted s)\<rparr>)"
| lv_call: "i \<in> lv_accepted s \<Longrightarrow> call_step procs srv (arrived X creds conns) (lv_calls s) d \<Longrightarrow>
    advances conns i (lv_calls s) d \<Longrightarrow> live_step procs X creds srv conns s (s\<lparr>lv_calls := d\<rparr>)"
| lv_others: "call_step procs srv (arrived X creds conns) (lv_calls s) d \<Longrightarrow> outside conns (lv_calls s) d \<Longrightarrow>
    live_step procs X creds srv conns s (s\<lparr>lv_calls := d\<rparr>)"
| lv_cancel: "\<not> lv_cancelled s \<Longrightarrow> live_step procs X creds srv conns s (s\<lparr>lv_cancelled := True\<rparr>)"
| lv_serve_fails: "lv_goroutine s = Accepting \<Longrightarrow> lv_open s \<Longrightarrow>
    live_step procs X creds srv conns s (s\<lparr>lv_goroutine := Handing (Some e)\<rparr>)"
| lv_serve_stopped: "lv_goroutine s = Accepting \<Longrightarrow> \<not> lv_open s \<Longrightarrow>
    live_step procs X creds srv conns s (s\<lparr>lv_goroutine := Handing None\<rparr>)"
| lv_hand_over: "lv_goroutine s = Handing r \<Longrightarrow> lv_errCh s = None \<Longrightarrow>
    live_step procs X creds srv conns s (s\<lparr>lv_goroutine := Gone, lv_errCh := Some r\<rparr>)"
| lv_select_ctx: "lv_main s = AtSelect \<Longrightarrow> lv_cancelled s \<Longrightarrow>
    live_step procs X creds srv conns s (s\<lparr>lv_main := InGracefulStop, lv_open := False\<rparr>)"
| lv_select_err: "lv_main s = AtSelect \<Longrightarrow> lv_errCh s = Some r \<Longrightarrow>
    live_step procs X creds srv conns s (s\<lparr>lv_main := Done r, lv_errCh := None\<rparr>)"
| lv_stopped: "lv_main s = InGracefulStop \<Longrightarrow> lv_inflight s = {} \<Longrightarrow>
    live_step procs X creds srv conns s (s\<lparr>lv_main := Done None\<rparr>)"

inductive live_reach ::
  "(nat \<Rightarrow> store_call) \<Rightarrow> x509_env \<Rightarrow> tls_config \<Rightarrow> Server \<Rightarrow> (nat \<Rightarrow> arrival) \<Rightarrow> token_map \<Rightarrow> agent_state \<Rightarrow> live \<Rightarrow> bool"
  for procs X creds srv conns m0 st where
  lv_init: "live_reach procs X creds srv conns m0 st (live_start m0 st)"
| lv_next: "live_reach procs X creds srv conns m0 st s \<Longrightarrow> live_step procs X creds srv conns s t \<Longrightarrow>
    live_reach procs X creds srv conns m0 st t"

section \<open>Invariant\<close>

text \<open>
  The calls are in a state of \<open>Concurrent_Deploys\<close>, and those not accepted have not begun; the
  listener closes only by \<^verbatim>\<open>GracefulStop\<close>, and nil can only come out of \<^verbatim>\<open>Serve\<close> after that; the
  channel is empty until the goroutine is gone.
\<close>

definition calls_ok ::
  "(nat \<Rightarrow> store_call) \<Rightarrow> x509_env \<Rightarrow> tls_config \<Rightarrow> Server \<Rightarrow> (nat \<Rightarrow> arrival) \<Rightarrow> token_map \<Rightarrow> agent_state \<Rightarrow> live \<Rightarrow> bool" where
  "calls_ok procs X creds srv conns m0 st s \<longleftrightarrow>
     calls_reach procs srv (arrived X creds conns) m0 st (lv_calls s) \<and> finite (lv_accepted s) \<and>
     (\<forall>i \<in> lv_accepted s. handshake X creds (conns i)) \<and>
     (\<forall>i. i \<notin> lv_accepted s \<longrightarrow> cd_at (lv_calls s) i = Arrived \<and>
        (enrolls conns i \<longrightarrow> ls_caller (cd_store (lv_calls s)) i = Waiting))"

definition main_ok :: "live \<Rightarrow> bool" where
  "main_ok s \<longleftrightarrow>
     (lv_open s \<longleftrightarrow> lv_main s = AtSelect \<or> (\<exists>e. lv_main s = Done (Some e))) \<and>
     (lv_goroutine s = Handing None \<or> lv_errCh s = Some None \<longrightarrow> \<not> lv_open s) \<and>
     (lv_goroutine s \<noteq> Gone \<longrightarrow> lv_errCh s = None) \<and>
     (lv_main s \<in> {InGracefulStop, Done None} \<longrightarrow> lv_cancelled s) \<and>
     (lv_main s = Done None \<longrightarrow> lv_inflight s = {}) \<and>
     ((\<exists>e. lv_main s = Done (Some e)) \<longrightarrow> lv_goroutine s = Gone)"

lemma advances_simps:
  assumes "advances conns i c d" "j \<noteq> i"
  shows "cd_at d j = cd_at c j" "enrolls conns j \<Longrightarrow> ls_caller (cd_store d) j = ls_caller (cd_store c) j"
  using assms unfolding advances_def moves_def turns_def by (metis fun_upd_other)+

lemma answered_no_more: "advances conns i c d \<Longrightarrow> cd_at c i = Answered a \<Longrightarrow> cd_at d i = Answered a"
  by (auto simp: advances_def moves_def)

lemma calls_ok_step:
  assumes "live_step procs X creds srv conns s t" "calls_ok procs X creds srv conns m0 st s"
  shows "calls_ok procs X creds srv conns m0 st t"
  using assms(1)
proof cases
  case (lv_call i d)
  have "calls_reach procs srv (arrived X creds conns) m0 st d"
    using assms(2) lv_call(3) reach_step unfolding calls_ok_def by blast
  moreover have "cd_at d j = cd_at (lv_calls s) j"
      "enrolls conns j \<Longrightarrow> ls_caller (cd_store d) j = ls_caller (cd_store (lv_calls s)) j" if "j \<notin> lv_accepted s" for j
    using advances_simps [OF lv_call(4), of j] that lv_call(2) by auto
  ultimately show ?thesis using assms(2) lv_call(1) unfolding calls_ok_def by simp
next
  case (lv_others d)
  have "calls_reach procs srv (arrived X creds conns) m0 st d"
    using assms(2) lv_others(2) reach_step unfolding calls_ok_def by blast
  then show ?thesis using assms(2) lv_others(1,3) unfolding calls_ok_def outside_def by simp
qed (use assms(2) in \<open>auto simp: calls_ok_def\<close>)

lemma inflight_step:
  assumes "i \<in> lv_accepted s" "advances conns i (lv_calls s) d \<or> outside conns (lv_calls s) d"
  shows "lv_inflight (s\<lparr>lv_calls := d\<rparr>) \<subseteq> lv_inflight s"
proof (rule subsetI)
  fix j assume j: "j \<in> lv_inflight (s\<lparr>lv_calls := d\<rparr>)"
  from assms(2) show "j \<in> lv_inflight s"
  proof
    assume a: "advances conns i (lv_calls s) d"
    show ?thesis
    proof (cases "j = i")
      case True
      with j answered_no_more [OF a] show ?thesis by (auto simp: lv_inflight_def)
    next
      case False
      with j advances_simps(1) [OF a False] show ?thesis by (auto simp: lv_inflight_def)
    qed
  next
    assume "outside conns (lv_calls s) d"
    with j show ?thesis by (auto simp: lv_inflight_def outside_def)
  qed
qed

lemma main_ok_step:
  assumes "live_step procs X creds srv conns s t" "main_ok s"
  shows "main_ok t"
  using assms(1)
proof cases
  case (lv_accept i)
  with assms(2) show ?thesis by (auto simp: main_ok_def)
next
  case (lv_call i d)
  with assms(2) inflight_step [OF lv_call(2)] show ?thesis by (auto simp: main_ok_def)
next
  case (lv_others d)
  then have "lv_inflight t = lv_inflight s" by (simp add: lv_inflight_def outside_def)
  with lv_others assms(2) show ?thesis by (auto simp: main_ok_def)
next
  case (lv_select_err r)
  with assms(2) show ?thesis by (cases r) (auto simp: main_ok_def)
qed (use assms(2) in \<open>auto simp: main_ok_def lv_inflight_def\<close>)

lemma live_reach_ok:
  "live_reach procs X creds srv conns m0 st s \<Longrightarrow> calls_ok procs X creds srv conns m0 st s \<and> main_ok s"
proof (induction rule: live_reach.induct)
  case lv_init
  have "calls_ok procs X creds srv conns m0 st (live_start m0 st)"
    by (auto simp: calls_ok_def live_start_def calls_start_def lock_init_def
        intro: reach_start [of procs srv "arrived X creds conns" m0 st, unfolded calls_start_def lock_init_def])
  then show ?case by (simp add: main_ok_def live_start_def)
next
  case (lv_next s t)
  then show ?case using calls_ok_step main_ok_step by blast
qed

section \<open>The way to the return\<close>

text \<open>The steps a call, and with it a stopping server, is away from the end.\<close>

definition call_left :: "(nat \<Rightarrow> arrival) \<Rightarrow> daemon_calls \<Rightarrow> nat \<Rightarrow> nat" where
  "call_left conns c i = steps_left (cd_at c i) + (if enrolls conns i then store_left (ls_caller (cd_store c) i) else 0)"

definition stop_measure :: "(nat \<Rightarrow> arrival) \<Rightarrow> live \<Rightarrow> nat" where
  "stop_measure conns s = (\<Sum>i\<in>lv_accepted s. call_left conns (lv_calls s) i) +
     (case lv_goroutine s of Accepting \<Rightarrow> 2 | Handing r \<Rightarrow> 1 | Gone \<Rightarrow> 0) +
     (if lv_main s = InGracefulStop then 1 else 0)"

lemma arrived_simps [simp]:
  "call_rpc (arrived X creds conns i) = call_rpc (snd (conns i))"
  "call_world (arrived X creds conns i) = call_world (snd (conns i))"
  by (simp_all add: arrived_def split: prod.split option.split)

lemma advances_left:
  assumes "advances conns i c d"
  shows "call_left conns d i < call_left conns c i" "call_left conns d j \<le> call_left conns c j"
proof -
  show less: "call_left conns d i < call_left conns c i"
    using assms by (auto simp: advances_def moves_def turns_def call_left_def)
  show "call_left conns d j \<le> call_left conns c j"
    using less advances_simps [OF assms, of j] by (cases "j = i") (auto simp: call_left_def)
qed

lemma advances_measure:
  assumes "advances conns i (lv_calls s) d" "i \<in> lv_accepted s" "finite (lv_accepted s)"
  shows "stop_measure conns (s\<lparr>lv_calls := d\<rparr>) < stop_measure conns s"
proof -
  have "(\<Sum>j\<in>lv_accepted s. call_left conns d j) < (\<Sum>j\<in>lv_accepted s. call_left conns (lv_calls s) j)"
    by (rule sum_strict_mono_ex1 [OF assms(3)]) (use advances_left [OF assms(1)] assms(2) in blast)+
  then show ?thesis by (simp add: stop_measure_def)
qed

lemma outside_measure:
  assumes "outside conns (lv_calls s) d"
  shows "stop_measure conns (s\<lparr>lv_calls := d\<rparr>) = stop_measure conns s"
proof -
  have "call_left conns d i = call_left conns (lv_calls s) i" for i
    using assms by (auto simp: outside_def call_left_def)
  then show ?thesis by (simp add: stop_measure_def)
qed

lemma stop_step:
  assumes "live_step procs X creds srv conns s t" "calls_ok procs X creds srv conns m0 st s" "main_ok s"
    and "lv_main s = InGracefulStop"
  shows "stop_measure conns t < stop_measure conns s \<or>
      stop_measure conns t = stop_measure conns s \<and> (\<exists>d. t = s\<lparr>lv_calls := d\<rparr> \<and> outside conns (lv_calls s) d)"
    and "lv_main t = InGracefulStop \<or> lv_main t = Done None \<and> lv_inflight s = {}"
proof -
  have fin: "finite (lv_accepted s)" using assms(2) by (simp add: calls_ok_def)
  from assms(1) have "(stop_measure conns t < stop_measure conns s \<or>
      stop_measure conns t = stop_measure conns s \<and> (\<exists>d. t = s\<lparr>lv_calls := d\<rparr> \<and> outside conns (lv_calls s) d)) \<and>
    (lv_main t = InGracefulStop \<or> lv_main t = Done None \<and> lv_inflight s = {})"
  proof cases
    case (lv_call i d)
    with advances_measure [OF lv_call(4,2) fin] assms(4) show ?thesis by simp
  next
    case (lv_others d)
    with outside_measure [OF lv_others(3)] assms(4) show ?thesis by auto
  qed (use assms(3,4) in \<open>auto simp: main_ok_def stop_measure_def\<close>)
  then show "stop_measure conns t < stop_measure conns s \<or>
      stop_measure conns t = stop_measure conns s \<and> (\<exists>d. t = s\<lparr>lv_calls := d\<rparr> \<and> outside conns (lv_calls s) d)"
    and "lv_main t = InGracefulStop \<or> lv_main t = Done None \<and> lv_inflight s = {}" by simp_all
qed

lemma answered_left:
  assumes "calls_ok procs X creds srv conns m0 st s" "cd_at (lv_calls s) i = Answered a"
  shows "call_left conns (lv_calls s) i = 0"
proof (cases "enrolls conns i")
  case True
  then obtain req where "call_rpc (arrived X creds conns i) = RpcEnroll req" by auto
  moreover have "calls_reach procs srv (arrived X creds conns) m0 st (lv_calls s)"
    using assms(1) by (simp add: calls_ok_def)
  ultimately obtain r where "ls_caller (cd_store (lv_calls s)) i = Returned r"
    using answer_enrolled assms(2) by metis
  with assms(2) show ?thesis by (simp add: call_left_def)
qed (simp add: call_left_def assms(2))

lemma stop_measure_bound:
  assumes "calls_ok procs X creds srv conns m0 st s"
  shows "stop_measure conns s \<le> 11 * card (lv_inflight s) + 3"
proof -
  let ?left = "call_left conns (lv_calls s)"
  have fin: "finite (lv_accepted s)" using assms by (simp add: calls_ok_def)
  have "?left i \<le> 11" for i
    using steps_left_le [of "cd_at (lv_calls s) i"] store_left_le [of "ls_caller (cd_store (lv_calls s)) i"]
    by (auto simp: call_left_def)
  then have "(\<Sum>i\<in>lv_inflight s. ?left i) \<le> (\<Sum>i\<in>lv_inflight s. 11)" by (intro sum_mono)
  moreover have "(\<Sum>i\<in>lv_accepted s. ?left i) = (\<Sum>i\<in>lv_inflight s. ?left i)"
    using fin answered_left [OF assms] by (intro sum.mono_neutral_right) (auto simp: lv_inflight_def)
  ultimately show ?thesis by (simp add: stop_measure_def split: goroutine.split)
qed

text \<open>What goes on when a call is in flight: it, another one, or a process inside the token store.\<close>

lemma inflight_goes_on:
  assumes "calls_ok procs X creds srv conns m0 st s" "i \<in> lv_inflight s"
  shows "\<exists>d. call_step procs srv (arrived X creds conns) (lv_calls s) d \<and>
    ((\<exists>j \<in> lv_accepted s. advances conns j (lv_calls s) d) \<or>
     outside conns (lv_calls s) d \<and> (\<exists>j. \<not> enrolls conns j \<and> in_section (ls_caller (cd_store (lv_calls s)) j) \<and>
       turns j (cd_store (lv_calls s)) (cd_store d)))"
proof -
  let ?c = "lv_calls s" and ?calls = "arrived X creds conns"
  have reach: "calls_reach procs srv ?calls m0 st ?c" using assms(1) by (simp add: calls_ok_def)
  have begun: "j \<in> lv_accepted s" if "cd_at ?c j \<noteq> Arrived \<or> enrolls conns j \<and> ls_caller (cd_store ?c) j \<noteq> Waiting" for j
    using assms(1) that by (auto simp: calls_ok_def)
  have i: "i \<in> lv_accepted s" "cd_at ?c i \<notin> range Answered" using assms(2) by (simp_all add: lv_inflight_def)
  have moved: "cd_store d = cd_store ?c" if "call_step procs srv ?calls ?c d" "moves j ?c d" for d j
    using call_step_moves [OF that(1)] that(2) by (auto simp: moves_def)
  consider (started) "cd_at ?c i \<noteq> Arrived" | (enroll) "cd_at ?c i = Arrived" "enrolls conns i"
    | (other) "cd_at ?c i = Arrived" "\<not> enrolls conns i" by blast
  then show ?thesis
  proof cases
    case started
    with i(2) have "steps_left (cd_at ?c i) \<in> {1, 2, 3, 4}" by (cases "cd_at ?c i") auto
    from started_call_moves [OF this, of procs srv ?calls] obtain d where
      "call_step procs srv ?calls ?c d" "moves i ?c d" by blast
    with moved i(1) show ?thesis by (auto simp: advances_def)
  next
    case other
    from arrived_call_moves [OF calls_reach_inv [OF reach] other(1), of procs] other(2) obtain d j where
      d: "call_step procs srv ?calls ?c d" "moves j ?c d" "j = i \<or> cd_at ?c j \<noteq> Arrived" by auto
    with begun i(1) have "j \<in> lv_accepted s" by blast
    with d moved show ?thesis by (auto simp: advances_def)
  next
    case enroll
    from enroll_moves [OF reach enroll(1)] enroll(2) obtain d j where d: "call_step procs srv ?calls ?c d"
      "moves j ?c d \<and> j = i \<or> cd_at d = cd_at ?c \<and> turns j (cd_store ?c) (cd_store d) \<and>
        (in_section (ls_caller (cd_store ?c) j) \<or> j = i \<and> ls_caller (cd_store d) j = Entered)" by auto
    show ?thesis
    proof (cases "moves j ?c d \<and> j = i")
      case True
      with d(1) moved i(1) show ?thesis by (auto simp: advances_def)
    next
      case False
      with d(2) have t: "cd_at d = cd_at ?c" "turns j (cd_store ?c) (cd_store d)"
        "in_section (ls_caller (cd_store ?c) j) \<or> j = i" by auto
      show ?thesis
      proof (cases "enrolls conns j")
        case True
        have "ls_caller (cd_store ?c) j \<noteq> Waiting" if "in_section (ls_caller (cd_store ?c) j)"
          using that by auto
        with t(3) True begun [of j] i(1) have "j \<in> lv_accepted s" by blast
        with True d(1) t show ?thesis by (auto simp: advances_def)
      next
        case False
        with t enroll(2) have "in_section (ls_caller (cd_store ?c) j)" by auto
        moreover have "outside conns ?c d"
          using t(1,2) False unfolding outside_def turns_def by (metis fun_upd_other)
        ultimately show ?thesis using False d(1) t(2) by blast
      qed
    qed
  qed
qed

section \<open>The loop it comes to\<close>

abbreviation event_of :: "arrival \<Rightarrow> serve_event" where
  "event_of p \<equiv> Incoming (fst p) (snd p)"

definition ending :: "string option \<Rightarrow> serve_event list" where
  "ending r = (if r = None then [CtxDone, GracefulStopped] else [ServeErr r])"

text \<open>The state of the loop after the calls of some arrivals.\<close>

definition loop_state ::
  "x509_env \<Rightarrow> tls_config \<Rightarrow> Server \<Rightarrow> (nat \<Rightarrow> arrival) \<Rightarrow> agent_state \<Rightarrow> nat list \<Rightarrow> agent_state" where
  "loop_state X creds srv conns st is = fst (serve_loop X creds srv (map (\<lambda>i. event_of (conns i)) is) st)"

lemma tls_admit_arrived:
  assumes "handshake X creds (conns i)"
  shows "tls_admit X creds (fst (conns i)) (snd (conns i)) = [arrived X creds conns i]"
    and "tls_call X creds srv (fst (conns i)) (snd (conns i)) st =
      map_prod id Some (serve_call AgentTable srv (arrived X creds conns i) st)"
  using assms by (auto simp: tls_admit_def tls_call_peer handshake_def arrived_def split: prod.split option.split)

lemma served_ending:
  "\<forall>i \<in> set is. handshake X creds (conns i) \<Longrightarrow>
     served X creds (map (\<lambda>i. event_of (conns i)) is @ ending r) = map (arrived X creds conns) is"
  by (induction "is") (auto simp: ending_def tls_admit_arrived)

lemma loop_state_all:
  assumes "\<forall>i \<in> set is. handshake X creds (conns i)"
  shows "loop_state X creds srv conns st is = serve_all AgentTable srv (map (arrived X creds conns) is) st"
proof -
  have "served X creds (map (\<lambda>i. event_of (conns i)) is) = map (arrived X creds conns) is"
    using assms by (induction "is") (auto simp: tls_admit_arrived)
  then show ?thesis by (simp add: loop_state_def serve_loop_state)
qed

lemma loop_ends:
  "snd (serve_loop X creds srv (map (\<lambda>i. event_of (conns i)) is @ ending r) st) = Some r"
  by (induction "is" arbitrary: st) (auto simp: ending_def)

lemma written_accepted:
  assumes "calls_ok procs X creds srv conns m0 st s"
  shows "set (write_order (lv_calls s)) \<subseteq> lv_accepted s"
proof
  fix i assume "i \<in> set (write_order (lv_calls s))"
  then have "map_of (cd_log (lv_calls s)) i \<noteq> None" by (simp add: write_order_def map_of_eq_None_iff)
  moreover have "calls_inv srv (arrived X creds conns) st (lv_calls s)"
    using assms by (auto simp: calls_ok_def intro: calls_reach_inv)
  ultimately have "cd_at (lv_calls s) i \<noteq> Arrived" using calls_invD(2) [of _ _ _ _ i] by (metis stands.simps(1))
  with assms show "i \<in> lv_accepted s" by (auto simp: calls_ok_def)
qed

section \<open>Properties\<close>

text \<open>
  C18: what \<^verbatim>\<open>serveAgent\<close> has done when it returns. In every reachable state in which it has
  returned, whatever the schedule of arrivals, of the steps of overlapping calls, of other
  processes, of the cancellation and of the end of \<^verbatim>\<open>Serve\<close>: its result and the pending approvals
  are those of the serving loop over some of the accepted calls one at a time (the ones that changed
  the approvals, in that order), ended by the end of the context or the server's error; it
  returned nil only on a cancelled context and with every call it had accepted answered; it
  answered only calls it had accepted, each of them, other than an enrollment, as the loop would
  have after the calls that came before, and an enrollment as the handler does on what its
  \<^verbatim>\<open>Consume\<close> returned.
\<close>

theorem graceful_stop_refines_loop:
  assumes "live_reach procs X creds srv conns m0 st s" "lv_main s = Done r"
  shows "snd (serve_loop X creds srv (map (\<lambda>i. event_of (conns i)) (write_order (lv_calls s)) @ ending r) st) = Some r \<and>
    cd_grants (lv_calls s) =
      as_grants (fst (serve_loop X creds srv (map (\<lambda>i. event_of (conns i)) (write_order (lv_calls s)) @ ending r) st)) \<and>
    set (write_order (lv_calls s)) \<subseteq> lv_accepted s \<and> distinct (write_order (lv_calls s)) \<and>
    (r = None \<longrightarrow> lv_cancelled s \<and> (\<forall>i \<in> lv_accepted s. \<exists>a. cd_at (lv_calls s) i = Answered a)) \<and>
    (\<forall>i a. cd_at (lv_calls s) i = Answered a \<longrightarrow> i \<in> lv_accepted s \<and>
       (case call_rpc (snd (conns i)) of
          RpcEnroll req \<Rightarrow> \<exists>k. ls_caller (cd_store (lv_calls s)) i = Returned k \<and>
            a = AnsEnroll (enroll_answer (call_world (snd (conns i))) srv req k)
        | _ \<Rightarrow> snd (tls_call X creds srv (fst (conns i)) (snd (conns i))
            (loop_state X creds srv conns st (written_before i (lv_calls s)))) = Some a))"
proof -
  have ok: "calls_ok procs X creds srv conns m0 st s" and main: "main_ok s"
    using live_reach_ok [OF assms(1)] by simp_all
  let ?calls = "arrived X creds conns" and ?c = "lv_calls s"
  have reach: "calls_reach procs srv ?calls m0 st ?c" and shake: "\<forall>i \<in> lv_accepted s. handshake X creds (conns i)"
    using ok by (simp_all add: calls_ok_def)
  have before: "set (written_before i ?c) \<subseteq> lv_accepted s" for i
    using written_accepted [OF ok] set_takeWhileD by (force simp: written_before_def)
  have acc: "i \<in> lv_accepted s" if "cd_at ?c i = Answered a" for i a
    using ok that by (auto simp: calls_ok_def)
  have ans: "snd (tls_call X creds srv (fst (conns i)) (snd (conns i)) (loop_state X creds srv conns st (written_before i ?c))) = Some a"
    if "cd_at ?c i = Answered a" "\<not> enrolls conns i" for i a
    using answer_served [OF reach that(1)] that(2) before [of i] shake acc [OF that(1)]
    by (simp add: loop_state_all subset_iff tls_admit_arrived)
  have enr: "\<exists>k. ls_caller (cd_store ?c) i = Returned k \<and> a = AnsEnroll (enroll_answer (call_world (snd (conns i))) srv req k)"
    if "cd_at ?c i = Answered a" "call_rpc (snd (conns i)) = RpcEnroll req" for i a req
    using answer_enrolled [OF reach that(1), of req] that(2) by auto
  have "\<forall>i \<in> set (write_order ?c). handshake X creds (conns i)"
    using written_accepted [OF ok] shake by blast
  then have "fst (serve_loop X creds srv (map (\<lambda>i. event_of (conns i)) (write_order ?c) @ ending r) st) =
      serve_all AgentTable srv (map ?calls (write_order ?c)) st"
    by (simp add: serve_loop_state served_ending)
  moreover note overlapping = calls_reach_written [OF reach]
  moreover have "lv_cancelled s \<and> lv_inflight s = {}" if "r = None"
    using main assms(2) that by (simp add: main_ok_def)
  ultimately show ?thesis
    using acc ans enr written_accepted [OF ok] loop_ends by (auto simp: lv_inflight_def split: rpc.split)
qed

text \<open>
  C19: a graceful stop waits for the calls in flight, and only for them. In every reachable state in
  which \<^verbatim>\<open>GracefulStop\<close> is running: some step can be taken, one that brings the return nearer, or
  one by which another process inside the token store comes nearer to leaving it; every step of
  the daemon, of whatever goroutine, brings the return nearer, and there are at most eleven for
  each call in flight and three more, while steps of others leave it where it is; no step returns
  while a call is in flight, and nothing cuts a call short. The goroutine of \<^verbatim>\<open>Serve\<close>, to whose
  channel nobody listens any more, is not blocked on it.
\<close>

theorem graceful_stop_waits:
  assumes "live_reach procs X creds srv conns m0 st s" "lv_main s = InGracefulStop"
  shows "(\<exists>t. live_step procs X creds srv conns s t \<and> (stop_measure conns t < stop_measure conns s \<or>
      (\<exists>j. \<not> enrolls conns j \<and> in_section (ls_caller (cd_store (lv_calls s)) j) \<and>
         turns j (cd_store (lv_calls s)) (cd_store (lv_calls t))))) \<and>
    (\<forall>t. live_step procs X creds srv conns s t \<longrightarrow>
      (stop_measure conns t < stop_measure conns s \<or>
       stop_measure conns t = stop_measure conns s \<and> (\<exists>d. t = s\<lparr>lv_calls := d\<rparr> \<and> outside conns (lv_calls s) d)) \<and>
      (lv_main t = InGracefulStop \<or> lv_main t = Done None \<and> lv_inflight s = {})) \<and>
    stop_measure conns s \<le> 11 * card (lv_inflight s) + 3 \<and>
    (\<forall>r. lv_goroutine s = Handing r \<longrightarrow>
      live_step procs X creds srv conns s (s\<lparr>lv_goroutine := Gone, lv_errCh := Some r\<rparr>))"
proof (intro conjI allI impI)
  have ok: "calls_ok procs X creds srv conns m0 st s" and main: "main_ok s"
    using live_reach_ok [OF assms(1)] by simp_all
  then have fin: "finite (lv_accepted s)" by (simp add: calls_ok_def)
  show "\<exists>t. live_step procs X creds srv conns s t \<and> (stop_measure conns t < stop_measure conns s \<or>
      (\<exists>j. \<not> enrolls conns j \<and> in_section (ls_caller (cd_store (lv_calls s)) j) \<and>
         turns j (cd_store (lv_calls s)) (cd_store (lv_calls t))))"
  proof (cases "lv_inflight s = {}")
    case True
    have "stop_measure conns (s\<lparr>lv_main := Done None\<rparr>) < stop_measure conns s"
      using assms(2) by (simp add: stop_measure_def)
    with lv_stopped [OF assms(2) True] show ?thesis by blast
  next
    case False
    then obtain i where "i \<in> lv_inflight s" by blast
    from inflight_goes_on [OF ok this] obtain d where d: "call_step procs srv (arrived X creds conns) (lv_calls s) d"
      "(\<exists>j \<in> lv_accepted s. advances conns j (lv_calls s) d) \<or>
       outside conns (lv_calls s) d \<and> (\<exists>j. \<not> enrolls conns j \<and> in_section (ls_caller (cd_store (lv_calls s)) j) \<and>
         turns j (cd_store (lv_calls s)) (cd_store d))" by blast
    have "live_step procs X creds srv conns s (s\<lparr>lv_calls := d\<rparr>)"
      using d lv_call lv_others by blast
    with d(2) advances_measure [OF _ _ fin, of conns _ d] show ?thesis
      by (intro exI [of _ "s\<lparr>lv_calls := d\<rparr>"]) auto
  qed
  show "stop_measure conns t < stop_measure conns s \<or>
      stop_measure conns t = stop_measure conns s \<and> (\<exists>d. t = s\<lparr>lv_calls := d\<rparr> \<and> outside conns (lv_calls s) d)"
    and "lv_main t = InGracefulStop \<or> lv_main t = Done None \<and> lv_inflight s = {}"
    if "live_step procs X creds srv conns s t" for t
    using stop_step [OF that ok main assms(2)] by blast+
  show "stop_measure conns s \<le> 11 * card (lv_inflight s) + 3" by (rule stop_measure_bound [OF ok])
  show "live_step procs X creds srv conns s (s\<lparr>lv_goroutine := Gone, lv_errCh := Some r\<rparr>)" if "lv_goroutine s = Handing r" for r
    using lv_hand_over [OF that] main that by (simp add: main_ok_def)
qed

section \<open>The properties at concrete inputs\<close>

text \<open>A call arrives, the context ends, the call is answered while the server stops.\<close>

abbreviation demo_conns :: "nat \<Rightarrow> arrival" where
  "demo_conns \<equiv> \<lambda>i. ([], demo_call RoleReader 0 RpcInfo)"

definition demo_stopping :: live where
  "demo_stopping = (live_start Map.empty fresh_agent)\<lparr>lv_accepted := {0}, lv_cancelled := True,
     lv_main := InGracefulStop, lv_open := False\<rparr>"

lemma demo_stopping_reach:
  "live_reach quiet plain_x509 zero_tls (demo_server ask_policy) demo_conns Map.empty fresh_agent demo_stopping"
  (is "?R demo_stopping")
proof -
  let ?s = "live_start Map.empty fresh_agent"
  let ?s1 = "?s\<lparr>lv_accepted := insert 0 (lv_accepted ?s)\<rparr>"
  have "?R ?s1"
    by (rule lv_next [OF lv_init lv_accept]) (simp_all add: live_start_def handshake_def server_peer_def zero_tls_def)
  then have "?R (?s1\<lparr>lv_cancelled := True\<rparr>)"
    by (rule lv_next [OF _ lv_cancel]) (simp add: live_start_def)
  then have "?R (?s1\<lparr>lv_cancelled := True\<rparr>\<lparr>lv_main := InGracefulStop, lv_open := False\<rparr>)"
    by (rule lv_next [OF _ lv_select_ctx]) (simp_all add: live_start_def)
  then show ?thesis by (simp add: demo_stopping_def live_start_def)
qed

lemma demo_stopping_simps [simp]:
  "lv_main demo_stopping = InGracefulStop" "lv_accepted demo_stopping = {0}" "lv_goroutine demo_stopping = Accepting"
  "lv_calls demo_stopping = calls_start Map.empty fresh_agent"
  by (simp_all add: demo_stopping_def live_start_def)

theorem graceful_stop_waits_witness:
  "stop_measure demo_conns demo_stopping \<le> 14 \<and> lv_inflight demo_stopping = {0} \<and>
   (\<exists>t :: live. live_step quiet plain_x509 zero_tls (demo_server ask_policy) demo_conns demo_stopping t)"
proof -
  have "lv_inflight demo_stopping = {0}" by (auto simp: lv_inflight_def calls_start_def)
  with graceful_stop_waits [OF demo_stopping_reach demo_stopping_simps(1)] show ?thesis by auto
qed

theorem graceful_stop_refines_loop_witness:
  "\<exists>(s :: live) a. lv_main s = Done None \<and> cd_at (lv_calls s) 0 = Answered a \<and>
     snd (tls_call plain_x509 zero_tls (demo_server ask_policy) [] (demo_call RoleReader 0 RpcInfo) fresh_agent) = Some a"
proof -
  let ?X = plain_x509 and ?srv = "demo_server ask_policy" and ?c = "calls_start Map.empty fresh_agent"
  let ?calls = "arrived ?X zero_tls demo_conns"
  let ?a = "snd (serve_call AgentTable ?srv (?calls 0) \<lparr>as_os = cd_os ?c, as_grants = cd_grants ?c\<rparr>)"
  let ?d = "?c\<lparr>cd_at := (cd_at ?c)(0 := Answered ?a)\<rparr>"
  let ?t = "demo_stopping\<lparr>lv_calls := ?d\<rparr>" and ?u = "demo_stopping\<lparr>lv_calls := ?d, lv_main := Done None\<rparr>"
  have rpc: "call_rpc (demo_call RoleReader 0 RpcInfo) = RpcInfo" by (simp add: demo_call_def)
  have "call_step quiet ?srv ?calls ?c ?d"
    by (rule call_direct) (simp_all add: calls_start_def call_locks_def rpc)
  then have "live_step quiet ?X zero_tls ?srv demo_conns demo_stopping ?t"
    by (intro lv_call [where i = 0]) (simp_all add: advances_def moves_def calls_start_def)
  moreover have "lv_inflight ?t = {}" by (auto simp: lv_inflight_def)
  then have "live_step quiet ?X zero_tls ?srv demo_conns ?t ?u"
    using lv_stopped [of ?t] by simp
  ultimately have u: "live_reach quiet ?X zero_tls ?srv demo_conns Map.empty fresh_agent ?u"
    using demo_stopping_reach lv_next by blast
  have m: "lv_main ?u = Done None" and at: "cd_at (lv_calls ?u) 0 = Answered ?a" and wb: "written_before 0 (lv_calls ?u) = []"
    by (simp_all add: calls_start_def written_before_def write_order_def)
  have ls: "loop_state ?X zero_tls ?srv demo_conns fresh_agent [] = fresh_agent" by (simp add: loop_state_def)
  have "snd (tls_call ?X zero_tls ?srv [] (demo_call RoleReader 0 RpcInfo) fresh_agent) = Some ?a"
    using graceful_stop_refines_loop [OF u m, THEN conjunct2, THEN conjunct2, THEN conjunct2, THEN conjunct2, THEN conjunct2,
        THEN spec [of _ 0], THEN spec [of _ ?a], THEN mp, OF at, THEN conjunct2]
    by (simp only: rpc rpc.case fst_conv snd_conv wb ls)
  with m at show ?thesis by blast
qed

end
