(* ===== verification/Agent_Wire.thy ===== *)
theory Agent_Wire
  imports Controller
begin

text \<open>
  \<^verbatim>\<open>internal/proto/rexec/v1/agent_grpc.pb.go\<close> around the handlers of \<open>Agent_Rpc\<close>: the decoding of
  requests, the service descriptor, and the client's stubs. Protobuf's coding of messages and
  gRPC's finding of a registered method and carrying of a call are parameters with their
  documented laws.
\<close>

section \<open>Messages on the wire\<close>

datatype proto_type =
    T_EnrollRequest | T_EnrollResponse | T_IdentityRequest | T_IdentityResponse
  | T_InfoRequest | T_InfoResponse | T_ExecRequest

datatype proto_message =
    M_EnrollRequest (the_EnrollRequest: EnrollRequest)
  | M_EnrollResponse (the_EnrollResponse: EnrollResponse)
  | M_IdentityRequest
  | M_IdentityResponse (the_IdentityResponse: IdentityResponse)
  | M_InfoRequest
  | M_InfoResponse (the_InfoResponse: InfoResponse)
  | M_ExecRequest (the_ExecRequest: ExecRequest)

fun proto_type_of :: "proto_message \<Rightarrow> proto_type" where
  "proto_type_of (M_EnrollRequest m) = T_EnrollRequest"
| "proto_type_of (M_EnrollResponse m) = T_EnrollResponse"
| "proto_type_of M_IdentityRequest = T_IdentityRequest"
| "proto_type_of (M_IdentityResponse m) = T_IdentityResponse"
| "proto_type_of M_InfoRequest = T_InfoRequest"
| "proto_type_of (M_InfoResponse m) = T_InfoResponse"
| "proto_type_of (M_ExecRequest m) = T_ExecRequest"

text \<open>Both can fail, with the status gRPC makes of it; what was encoded decodes, and to its own type.\<close>

record proto_codec =
  pb_Marshal :: "proto_message \<Rightarrow> status + bytes"
  pb_Unmarshal :: "proto_type \<Rightarrow> bytes \<Rightarrow> status + proto_message"

definition proto_laws :: "proto_codec \<Rightarrow> bool" where
  "proto_laws P \<longleftrightarrow>
     (\<forall>m b. pb_Marshal P m = Inr b \<longrightarrow> pb_Unmarshal P (proto_type_of m) b = Inr m) \<and>
     (\<forall>t b m. pb_Unmarshal P t b = Inr m \<longrightarrow> proto_type_of m = t)"

lemma proto_lawsD:
  assumes "proto_laws P"
  shows "pb_Marshal P m = Inr b \<Longrightarrow> pb_Unmarshal P (proto_type_of m) b = Inr m"
    "pb_Unmarshal P t b = Inr m \<Longrightarrow> proto_type_of m = t"
  using assms by (auto simp: proto_laws_def)

section \<open>The generated handlers\<close>

text \<open>
  A handler decodes the request through a function it is given: a unary one before it calls the
  interceptor, a stream one when it runs, after the interceptor.
\<close>

type_synonym decoder = "proto_type \<Rightarrow> status + proto_message"
type_synonym unary_handler =
  "world \<Rightarrow> Server \<Rightarrow> grpc_context \<Rightarrow> decoder \<Rightarrow> Table option \<Rightarrow> agent_state \<Rightarrow> agent_state \<times> (status + proto_message)"
type_synonym stream_handler =
  "world \<Rightarrow> Server \<Rightarrow> decoder \<Rightarrow> server_stream \<Rightarrow> agent_state \<times> sent \<Rightarrow> (agent_state \<times> sent) \<times> status option"

definition Enroll_Handler :: unary_handler where
  "Enroll_Handler W srv ctx dec interceptor s =
     (case dec T_EnrollRequest of
        Inl err \<Rightarrow> (s, Inl err)
      | Inr inp \<Rightarrow> map_prod id (map_sum id M_EnrollResponse)
          (case interceptor of
             None \<Rightarrow> Server_Enroll W srv (the_EnrollRequest inp) s
           | Some table \<Rightarrow> UnaryInterceptor table ctx inp m_Enroll (\<lambda>ctx req. Server_Enroll W srv (the_EnrollRequest req)) s))"

definition Identity_Handler :: unary_handler where
  "Identity_Handler W srv ctx dec interceptor s =
     (case dec T_IdentityRequest of
        Inl err \<Rightarrow> (s, Inl err)
      | Inr inp \<Rightarrow> map_prod id (map_sum id M_IdentityResponse)
          (case interceptor of
             None \<Rightarrow> Server_Identity W srv () s
           | Some table \<Rightarrow> UnaryInterceptor table ctx inp m_Identity (\<lambda>ctx req. Server_Identity W srv ()) s))"

definition Info_Handler :: unary_handler where
  "Info_Handler W srv ctx dec interceptor s =
     (case dec T_InfoRequest of
        Inl err \<Rightarrow> (s, Inl err)
      | Inr inp \<Rightarrow> map_prod id (map_sum id M_InfoResponse)
          (case interceptor of
             None \<Rightarrow> Server_Info W srv () s
           | Some table \<Rightarrow> UnaryInterceptor table ctx inp m_Info (\<lambda>ctx req. Server_Info W srv ()) s))"

definition Run_Handler :: stream_handler where
  "Run_Handler W srv RecvMsg stream st =
     (case RecvMsg T_ExecRequest of
        Inl err \<Rightarrow> (st, Some err)
      | Inr m \<Rightarrow> Server_Run W srv (the_ExecRequest m) stream st)"

definition Deploy_Handler :: stream_handler where
  "Deploy_Handler W srv RecvMsg stream st =
     (case RecvMsg T_ExecRequest of
        Inl err \<Rightarrow> (st, Some err)
      | Inr m \<Rightarrow> Server_Deploy W srv (the_ExecRequest m) stream st)"

section \<open>The service\<close>

record service_desc =
  sd_ServiceName :: string
  sd_Methods :: "(string \<times> unary_handler) list"
  sd_Streams :: "(string \<times> stream_handler) list"

definition Agent_ServiceDesc :: service_desc where
  "Agent_ServiceDesc = \<lparr>sd_ServiceName = ''rexec.v1.Agent'',
     sd_Methods = [(''Enroll'', Enroll_Handler), (''Identity'', Identity_Handler), (''Info'', Info_Handler)],
     sd_Streams = [(''Run'', Run_Handler), (''Deploy'', Deploy_Handler)]\<rparr>"

definition method_path :: "service_desc \<Rightarrow> string \<Rightarrow> string" where
  "method_path sd n = ''/'' @ sd_ServiceName sd @ ''/'' @ n"

text \<open>
  What a server with one registered service does with a path: the handler of the method of that
  name, and none for any other path.
\<close>

type_synonym lookup = "service_desc \<Rightarrow> string \<Rightarrow> (unary_handler + stream_handler) option"

definition lookup_laws :: "lookup \<Rightarrow> bool" where
  "lookup_laws find_method \<longleftrightarrow>
     (\<forall>sd. distinct (map fst (sd_Methods sd) @ map fst (sd_Streams sd)) \<longrightarrow>
        (\<forall>n h. (n, h) \<in> set (sd_Methods sd) \<longrightarrow> find_method sd (method_path sd n) = Some (Inl h)) \<and>
        (\<forall>n h. (n, h) \<in> set (sd_Streams sd) \<longrightarrow> find_method sd (method_path sd n) = Some (Inr h)) \<and>
        (\<forall>path. path \<notin> method_path sd ` (fst ` set (sd_Methods sd) \<union> fst ` set (sd_Streams sd)) \<longrightarrow>
           find_method sd path = None))"

datatype wire_answer = WireUnary "status + bytes" | WireStream "ExecChunk list" "status option"

definition unknown_method :: "string \<Rightarrow> status" where
  "unknown_method path = Errorf Unimplemented ''unknown method %v'' [path]"

text \<open>
  The server that \<^verbatim>\<open>RegisterAgentServer\<close> fills, with the interceptors chained in front: one call,
  from the bytes of its request. (A message that a stream cannot encode is one of its failing sends.)
\<close>

definition wire_serve ::
  "lookup \<Rightarrow> proto_codec \<Rightarrow> Table \<Rightarrow> world \<Rightarrow> Server \<Rightarrow> server_stream \<Rightarrow> string \<Rightarrow> bytes \<Rightarrow>
   agent_state \<Rightarrow> agent_state \<times> wire_answer" where
  "wire_serve find_method P table W srv ss path payload s =
     (let dec = (\<lambda>t. pb_Unmarshal P t payload) in
      case find_method Agent_ServiceDesc path of
        None \<Rightarrow> (s, WireUnary (Inl (unknown_method path)))
      | Some (Inl h) \<Rightarrow>
          map_prod id WireUnary
            (case h W srv (ss_Context ss) dec (Some table) s of
               (s', Inl e) \<Rightarrow> (s', Inl e)
             | (s', Inr m) \<Rightarrow> (s', pb_Marshal P m))
      | Some (Inr h) \<Rightarrow>
          (case StreamInterceptor table ss_Context ss path (\<lambda>ss. h W srv dec ss) (s, nothing_sent) of
             ((s', out), e) \<Rightarrow> (s', WireStream (sent_msgs out) e)))"

section \<open>The client's stubs\<close>

text \<open>
  A connection carries a unary call, or opens a stream of a descriptor's index and path, on which
  one message is sent, the sending side is closed, and the rest is received. Its own state is
  unspecified.
\<close>

record 's client_stream =
  cs_SendMsg :: "proto_message \<Rightarrow> 's \<Rightarrow> 's \<times> status option"
  cs_CloseSend :: "'s \<Rightarrow> 's \<times> status option"
  cs_received :: "'s \<Rightarrow> incoming"

record 's client_conn =
  cc_Invoke :: "string \<Rightarrow> proto_message \<Rightarrow> proto_type \<Rightarrow> 's \<Rightarrow> 's \<times> (status + proto_message)"
  cc_NewStream :: "string \<times> stream_handler \<Rightarrow> string \<Rightarrow> 's \<Rightarrow> 's \<times> (status + 's client_stream)"

definition agentClient_Enroll :: "'s client_conn \<Rightarrow> EnrollRequest \<Rightarrow> 's \<Rightarrow> 's \<times> (status + EnrollResponse)" where
  "agentClient_Enroll cc inp s =
     map_prod id (map_sum id the_EnrollResponse) (cc_Invoke cc m_Enroll (M_EnrollRequest inp) T_EnrollResponse s)"

definition agentClient_Identity :: "'s client_conn \<Rightarrow> 's \<Rightarrow> 's \<times> (status + IdentityResponse)" where
  "agentClient_Identity cc s =
     map_prod id (map_sum id the_IdentityResponse) (cc_Invoke cc m_Identity M_IdentityRequest T_IdentityResponse s)"

definition agentClient_Info :: "'s client_conn \<Rightarrow> 's \<Rightarrow> 's \<times> (status + InfoResponse)" where
  "agentClient_Info cc s =
     map_prod id (map_sum id the_InfoResponse) (cc_Invoke cc m_Info M_InfoRequest T_InfoResponse s)"

definition agentClient_Run :: "'s client_conn \<Rightarrow> ExecRequest \<Rightarrow> 's \<Rightarrow> 's \<times> (status + incoming)" where
  "agentClient_Run cc inp s =
     (case cc_NewStream cc (sd_Streams Agent_ServiceDesc ! 0) m_Run s of
        (s1, Inl err) \<Rightarrow> (s1, Inl err)
      | (s1, Inr x) \<Rightarrow>
          (case cs_SendMsg x (M_ExecRequest inp) s1 of
             (s2, Some err) \<Rightarrow> (s2, Inl err)
           | (s2, None) \<Rightarrow>
               (case cs_CloseSend x s2 of
                  (s3, Some err) \<Rightarrow> (s3, Inl err)
                | (s3, None) \<Rightarrow> (s3, Inr (cs_received x s3)))))"

definition agentClient_Deploy :: "'s client_conn \<Rightarrow> ExecRequest \<Rightarrow> 's \<Rightarrow> 's \<times> (status + incoming)" where
  "agentClient_Deploy cc inp s =
     (case cc_NewStream cc (sd_Streams Agent_ServiceDesc ! 1) m_Deploy s of
        (s1, Inl err) \<Rightarrow> (s1, Inl err)
      | (s1, Inr x) \<Rightarrow>
          (case cs_SendMsg x (M_ExecRequest inp) s1 of
             (s2, Some err) \<Rightarrow> (s2, Inl err)
           | (s2, None) \<Rightarrow>
               (case cs_CloseSend x s2 of
                  (s3, Some err) \<Rightarrow> (s3, Inl err)
                | (s3, None) \<Rightarrow> (s3, Inr (cs_received x s3)))))"

text \<open>The client, as the record of the four calls the commands make; the stub of Enroll is used by itself.\<close>

definition NewAgentClient :: "'s client_conn \<Rightarrow> 's agent_client" where
  "NewAgentClient cc = \<lparr>cl_Identity = agentClient_Identity cc, cl_Info = agentClient_Info cc,
     cl_Run = agentClient_Run cc, cl_Deploy = agentClient_Deploy cc\<rparr>"

text \<open>
  The documented behaviour of a connection that does not break, to a server that does \<open>srv_call\<close>
  with the bytes of a request: what is sent and received is encoded and decoded, and a call takes
  place once, on the path it names.
\<close>

definition conn_laws ::
  "proto_codec \<Rightarrow> ('s \<Rightarrow> 'f) \<Rightarrow> (string \<Rightarrow> bytes \<Rightarrow> 'f \<Rightarrow> 'f \<times> wire_answer) \<Rightarrow> 's client_conn \<Rightarrow> bool" where
  "conn_laws P far srv_call cc \<longleftrightarrow>
     (\<forall>path inp t s b f r. pb_Marshal P inp = Inr b \<and> srv_call path b (far s) = (f, WireUnary r) \<longrightarrow>
        (\<exists>s'. far s' = f \<and> cc_Invoke cc path inp t s = (s', case r of Inl e \<Rightarrow> Inl e | Inr d \<Rightarrow> pb_Unmarshal P t d))) \<and>
     (\<forall>desc path inp s b f ms e. pb_Marshal P inp = Inr b \<and> srv_call path b (far s) = (f, WireStream ms e) \<longrightarrow>
        (\<exists>x s1 s2 s3. cc_NewStream cc desc path s = (s1, Inr x) \<and> cs_SendMsg x inp s1 = (s2, None) \<and>
           cs_CloseSend x s2 = (s3, None) \<and> far s3 = f \<and> cs_received x s3 = (ms, e)))"

lemma conn_unary:
  assumes "conn_laws P far srv_call cc" "pb_Marshal P inp = Inr b" "srv_call path b (far s) = (f, WireUnary r)"
  obtains s' where "far s' = f" "cc_Invoke cc path inp t s = (s', case r of Inl e \<Rightarrow> Inl e | Inr d \<Rightarrow> pb_Unmarshal P t d)"
  using assms unfolding conn_laws_def by blast

lemma conn_stream:
  assumes "conn_laws P far srv_call cc" "pb_Marshal P inp = Inr b" "srv_call path b (far s) = (f, WireStream ms e)"
  obtains x s1 s2 s3 where "cc_NewStream cc desc path s = (s1, Inr x)" "cs_SendMsg x inp s1 = (s2, None)"
    "cs_CloseSend x s2 = (s3, None)" "far s3 = f" "cs_received x s3 = (ms, e)"
  using assms unfolding conn_laws_def by meson

section \<open>Lemmas\<close>

text \<open>What the bytes of a call ask for, if they ask for anything.\<close>

definition request_type :: "string \<Rightarrow> proto_type option" where
  "request_type path =
     (if path = m_Enroll then Some T_EnrollRequest else if path = m_Identity then Some T_IdentityRequest
      else if path = m_Info then Some T_InfoRequest else if path = m_Run \<or> path = m_Deploy then Some T_ExecRequest
      else None)"

definition rpc_of :: "string \<Rightarrow> proto_message \<Rightarrow> rpc" where
  "rpc_of path m =
     (if path = m_Enroll then RpcEnroll (the_EnrollRequest m) else if path = m_Identity then RpcIdentity
      else if path = m_Info then RpcInfo else if path = m_Run then RpcRun (the_ExecRequest m)
      else RpcDeploy (the_ExecRequest m))"

fun request_message :: "rpc \<Rightarrow> proto_message" where
  "request_message (RpcEnroll r) = M_EnrollRequest r"
| "request_message RpcIdentity = M_IdentityRequest"
| "request_message RpcInfo = M_InfoRequest"
| "request_message (RpcRun r) = M_ExecRequest r"
| "request_message (RpcDeploy r) = M_ExecRequest r"

definition encodable :: "proto_codec \<Rightarrow> proto_message \<Rightarrow> bool" where
  "encodable P m \<longleftrightarrow> (\<exists>b. pb_Marshal P m = Inr b)"

fun answer_encodable :: "proto_codec \<Rightarrow> answer \<Rightarrow> bool" where
  "answer_encodable P (AnsEnroll (Inr r)) = encodable P (M_EnrollResponse r)"
| "answer_encodable P (AnsIdentity (Inr r)) = encodable P (M_IdentityResponse r)"
| "answer_encodable P (AnsInfo (Inr r)) = encodable P (M_InfoResponse r)"
| "answer_encodable P a = True"

text \<open>The stub of a call, with what its caller sees as an answer.\<close>

fun stub_call :: "'s client_conn \<Rightarrow> rpc \<Rightarrow> 's \<Rightarrow> 's \<times> answer" where
  "stub_call cc (RpcEnroll r) s = map_prod id AnsEnroll (agentClient_Enroll cc r s)"
| "stub_call cc RpcIdentity s = map_prod id AnsIdentity (agentClient_Identity cc s)"
| "stub_call cc RpcInfo s = map_prod id AnsInfo (agentClient_Info cc s)"
| "stub_call cc (RpcRun r) s =
     (case agentClient_Run cc r s of (s', Inl e) \<Rightarrow> (s', AnsStream [] (Some e)) | (s', Inr (ms, e)) \<Rightarrow> (s', AnsStream ms e))"
| "stub_call cc (RpcDeploy r) s =
     (case agentClient_Deploy cc r s of (s', Inl e) \<Rightarrow> (s', AnsStream [] (Some e)) | (s', Inr (ms, e)) \<Rightarrow> (s', AnsStream ms e))"

text \<open>The answer, encoded.\<close>

fun wire_of :: "proto_codec \<Rightarrow> answer \<Rightarrow> wire_answer" where
  "wire_of P (AnsEnroll r) = WireUnary (case r of Inl e \<Rightarrow> Inl e | Inr m \<Rightarrow> pb_Marshal P (M_EnrollResponse m))"
| "wire_of P (AnsIdentity r) = WireUnary (case r of Inl e \<Rightarrow> Inl e | Inr m \<Rightarrow> pb_Marshal P (M_IdentityResponse m))"
| "wire_of P (AnsInfo r) = WireUnary (case r of Inl e \<Rightarrow> Inl e | Inr m \<Rightarrow> pb_Marshal P (M_InfoResponse m))"
| "wire_of P (AnsStream ms e) = WireStream ms e"

lemma find_agent_method:
  assumes "lookup_laws find_method"
  shows "find_method Agent_ServiceDesc path =
    (if path = m_Enroll then Some (Inl Enroll_Handler) else if path = m_Identity then Some (Inl Identity_Handler)
     else if path = m_Info then Some (Inl Info_Handler) else if path = m_Run then Some (Inr Run_Handler)
     else if path = m_Deploy then Some (Inr Deploy_Handler) else None)"
proof -
  have p: "method_path Agent_ServiceDesc ''Enroll'' = m_Enroll" "method_path Agent_ServiceDesc ''Identity'' = m_Identity"
    "method_path Agent_ServiceDesc ''Info'' = m_Info" "method_path Agent_ServiceDesc ''Run'' = m_Run"
    "method_path Agent_ServiceDesc ''Deploy'' = m_Deploy"
    by (simp_all add: method_path_def Agent_ServiceDesc_def m_Enroll_def m_Identity_def m_Info_def m_Run_def m_Deploy_def)
  have "distinct (map fst (sd_Methods Agent_ServiceDesc) @ map fst (sd_Streams Agent_ServiceDesc))"
    by (simp add: Agent_ServiceDesc_def)
  with assms have l: "\<And>n h. (n, h) \<in> set (sd_Methods Agent_ServiceDesc) \<Longrightarrow>
      find_method Agent_ServiceDesc (method_path Agent_ServiceDesc n) = Some (Inl h)"
    "\<And>n h. (n, h) \<in> set (sd_Streams Agent_ServiceDesc) \<Longrightarrow>
      find_method Agent_ServiceDesc (method_path Agent_ServiceDesc n) = Some (Inr h)"
    "\<And>path. path \<notin> method_path Agent_ServiceDesc ` (fst ` set (sd_Methods Agent_ServiceDesc) \<union> fst ` set (sd_Streams Agent_ServiceDesc)) \<Longrightarrow>
      find_method Agent_ServiceDesc path = None"
    unfolding lookup_laws_def by blast+
  have "find_method Agent_ServiceDesc m_Enroll = Some (Inl Enroll_Handler)"
    "find_method Agent_ServiceDesc m_Identity = Some (Inl Identity_Handler)"
    "find_method Agent_ServiceDesc m_Info = Some (Inl Info_Handler)"
    "find_method Agent_ServiceDesc m_Run = Some (Inr Run_Handler)"
    "find_method Agent_ServiceDesc m_Deploy = Some (Inr Deploy_Handler)"
    unfolding p [symmetric] by (rule l; simp add: Agent_ServiceDesc_def)+
  moreover have "find_method Agent_ServiceDesc path = None" if "path \<notin> {m_Enroll, m_Identity, m_Info, m_Run, m_Deploy}"
    by (rule l(3)) (use that p in \<open>simp add: Agent_ServiceDesc_def\<close>)
  ultimately show ?thesis by auto
qed

text \<open>The decoded handlers are the ones behind the interceptors.\<close>

lemma decoded_handlers:
  "dec T_EnrollRequest = Inr m \<Longrightarrow> Enroll_Handler W srv ctx dec (Some table) s =
     map_prod id (map_sum id M_EnrollResponse) (Agent_Enroll_Handler table W srv ctx (the_EnrollRequest m) s)"
  "dec T_IdentityRequest = Inr m \<Longrightarrow> Identity_Handler W srv ctx dec (Some table) s =
     map_prod id (map_sum id M_IdentityResponse) (Agent_Identity_Handler table W srv ctx s)"
  "dec T_InfoRequest = Inr m \<Longrightarrow> Info_Handler W srv ctx dec (Some table) s =
     map_prod id (map_sum id M_InfoResponse) (Agent_Info_Handler table W srv ctx s)"
  by (auto simp: Enroll_Handler_def Identity_Handler_def Info_Handler_def Agent_Enroll_Handler_def
      Agent_Identity_Handler_def Agent_Info_Handler_def UnaryInterceptor_def split: option.splits sum.splits)

lemma undecoded_stream:
  assumes "h \<in> {Run_Handler, Deploy_Handler}" "dec T_ExecRequest = Inl e"
  shows "StreamInterceptor table ss_Context ss path (\<lambda>ss. h W srv dec ss) st =
    (st, Some (case gate_verdict table (ss_Context ss) path of Some refused \<Rightarrow> refused | None \<Rightarrow> e))"
  using assms
  by (auto simp: Run_Handler_def Deploy_Handler_def StreamInterceptor_def gate_verdict_def split: option.splits sum.splits)

lemma decoded_stream:
  assumes "dec T_ExecRequest = Inr m"
  shows "StreamInterceptor table ss_Context ss m_Run (\<lambda>ss. Run_Handler W srv dec ss) st = Agent_Run_Handler table W srv ss (the_ExecRequest m) st"
    "StreamInterceptor table ss_Context ss m_Deploy (\<lambda>ss. Deploy_Handler W srv dec ss) st = Agent_Deploy_Handler table W srv ss (the_ExecRequest m) st"
proof -
  have "Run_Handler W srv dec = Server_Run W srv (the_ExecRequest m)" "Deploy_Handler W srv dec = Server_Deploy W srv (the_ExecRequest m)"
    using assms by (simp_all add: fun_eq_iff Run_Handler_def Deploy_Handler_def)
  then show "StreamInterceptor table ss_Context ss m_Run (\<lambda>ss. Run_Handler W srv dec ss) st = Agent_Run_Handler table W srv ss (the_ExecRequest m) st"
    "StreamInterceptor table ss_Context ss m_Deploy (\<lambda>ss. Deploy_Handler W srv dec ss) st = Agent_Deploy_Handler table W srv ss (the_ExecRequest m) st"
    by (simp_all add: Agent_Run_Handler_def Agent_Deploy_Handler_def)
qed

section \<open>Properties\<close>

lemma wire_answers:
  "(case map_prod id (map_sum id f) r of (s', Inl e) \<Rightarrow> (s', Inl e) | (s', Inr m) \<Rightarrow> (s', pb_Marshal P m)) =
     map_prod id (\<lambda>r. case r of Inl e \<Rightarrow> Inl e | Inr m \<Rightarrow> pb_Marshal P (f m)) r"
  by (cases r; cases "snd r") auto

lemma wire_stream_answers:
  "(case r of ((s', out), e) \<Rightarrow> (s', WireStream (sent_msgs out) e)) = map_prod id (wire_of P) (stream_answer r)"
  by (cases r rule: stream_answer.cases) simp

lemma wire_call_spec_core:
  assumes "lookup_laws find_method"
  shows "wire_serve find_method P table W srv ss path payload s =
    (case request_type path of
       None \<Rightarrow> (s, WireUnary (Inl (unknown_method path)))
     | Some t \<Rightarrow>
         (case pb_Unmarshal P t payload of
            Inl e \<Rightarrow> (s, if path \<in> {m_Run, m_Deploy}
              then WireStream [] (Some (case gate_verdict table (ss_Context ss) path of Some refused \<Rightarrow> refused | None \<Rightarrow> e))
              else WireUnary (Inl e))
          | Inr m \<Rightarrow> map_prod id (wire_of P)
              (serve_call table srv \<lparr>call_world = W, call_stream = ss, call_rpc = rpc_of path m\<rparr> s)))"
proof -
  note f = find_agent_method [OF assms]
  consider "path = m_Enroll" | "path = m_Identity" | "path = m_Info" | "path = m_Run" | "path = m_Deploy"
    | "path \<notin> {m_Enroll, m_Identity, m_Info, m_Run, m_Deploy}" by blast
  then show ?thesis
  proof cases
    case 1
    show ?thesis
    proof (cases "pb_Unmarshal P T_EnrollRequest payload")
      case (Inl e)
      with 1 show ?thesis by (simp add: f wire_serve_def request_type_def Enroll_Handler_def)
    next
      case (Inr m)
      with 1 decoded_handlers(1) [of "\<lambda>t. pb_Unmarshal P t payload" m] show ?thesis
        by (simp add: f wire_serve_def request_type_def rpc_of_def serve_call_def wire_answers prod.map_comp comp_def)
    qed
  next
    case 2
    show ?thesis
    proof (cases "pb_Unmarshal P T_IdentityRequest payload")
      case (Inl e)
      with 2 show ?thesis by (simp add: f wire_serve_def request_type_def Identity_Handler_def)
    next
      case (Inr m)
      with 2 decoded_handlers(2) [of "\<lambda>t. pb_Unmarshal P t payload" m] show ?thesis
        by (simp add: f wire_serve_def request_type_def rpc_of_def serve_call_def wire_answers prod.map_comp comp_def)
    qed
  next
    case 3
    show ?thesis
    proof (cases "pb_Unmarshal P T_InfoRequest payload")
      case (Inl e)
      with 3 show ?thesis by (simp add: f wire_serve_def request_type_def Info_Handler_def)
    next
      case (Inr m)
      with 3 decoded_handlers(3) [of "\<lambda>t. pb_Unmarshal P t payload" m] show ?thesis
        by (simp add: f wire_serve_def request_type_def rpc_of_def serve_call_def wire_answers prod.map_comp comp_def)
    qed
  next
    case 4
    show ?thesis
    proof (cases "pb_Unmarshal P T_ExecRequest payload")
      case (Inl e)
      with 4 undecoded_stream [of Run_Handler "\<lambda>t. pb_Unmarshal P t payload" e] show ?thesis
        by (simp add: f wire_serve_def request_type_def)
    next
      case (Inr m)
      with 4 decoded_stream(1) [of "\<lambda>t. pb_Unmarshal P t payload" m] show ?thesis
        by (simp add: f wire_serve_def request_type_def rpc_of_def serve_call_def wire_stream_answers)
    qed
  next
    case 5
    show ?thesis
    proof (cases "pb_Unmarshal P T_ExecRequest payload")
      case (Inl e)
      with 5 undecoded_stream [of Deploy_Handler "\<lambda>t. pb_Unmarshal P t payload" e] show ?thesis
        by (simp add: f wire_serve_def request_type_def)
    next
      case (Inr m)
      with 5 decoded_stream(2) [of "\<lambda>t. pb_Unmarshal P t payload" m] show ?thesis
        by (simp add: f wire_serve_def request_type_def rpc_of_def serve_call_def wire_stream_answers)
    qed
  next
    case 6
    then have "find_method Agent_ServiceDesc path = None" using f [of path] by auto
    with 6 show ?thesis by (auto simp: wire_serve_def request_type_def)
  qed
qed

text \<open>
  C10: a call from its bytes. Whatever arrives, on whatever path, from whatever peer: on a path of
  the service with a request that decodes, it is the call of that request, behind the
  interceptors, and its answer is the encoded one. On any other path it is Unimplemented; and
  bytes that do not decode change nothing and are refused, by the decoder before the caller's role is
  looked at for the unary methods, and after it for the streams, so that a caller without the
  role learns nothing from the decoder there.
\<close>

theorem wire_call_spec:
  assumes "lookup_laws find_method"
  shows "wire_serve find_method P table W srv ss path payload s =
    (case request_type path of
       None \<Rightarrow> (s, WireUnary (Inl (unknown_method path)))
     | Some t \<Rightarrow>
         (case pb_Unmarshal P t payload of
            Inl e \<Rightarrow> (s, if path \<in> {m_Run, m_Deploy}
              then WireStream [] (Some (case gate_verdict table (ss_Context ss) path of Some refused \<Rightarrow> refused | None \<Rightarrow> e))
              else WireUnary (Inl e))
          | Inr m \<Rightarrow> map_prod id (wire_of P)
              (serve_call table srv \<lparr>call_world = W, call_stream = ss, call_rpc = rpc_of path m\<rparr> s)))"
  by (rule wire_call_spec_core [OF assms])

lemma map_prod_id_eq: "map_prod id f p = (st, a) \<Longrightarrow> a = f (snd p)"
  by (cases p) auto

lemma stream_answer_eq: "stream_answer p = (st, a) \<Longrightarrow> \<exists>ms e. a = AnsStream ms e"
  by (cases p rule: stream_answer.cases) auto

text \<open>What a stub on a lawful connection gets, from the answer on the wire.\<close>

lemma stub_unary:
  assumes "conn_laws P far srv_call cc" "proto_laws P" "encodable P q"
    and "\<And>b. pb_Marshal P q = Inr b \<Longrightarrow> srv_call path b (far s) = (f, WireUnary (case r of Inl e \<Rightarrow> Inl e | Inr m \<Rightarrow> pb_Marshal P (con m)))"
    and "case r of Inl e \<Rightarrow> True | Inr m \<Rightarrow> encodable P (con m)" "\<And>m. proto_type_of (con m) = t" "\<And>m. sel (con m) = m"
  shows "map_prod far id (map_prod id (map_sum id sel) (cc_Invoke cc path q t s)) = (f, r)"
proof -
  obtain b where b: "pb_Marshal P q = Inr b" using assms(3) by (auto simp: encodable_def)
  obtain s' where s': "far s' = f" "cc_Invoke cc path q t s =
      (s', case (case r of Inl e \<Rightarrow> Inl e | Inr m \<Rightarrow> pb_Marshal P (con m)) of Inl e \<Rightarrow> Inl e | Inr d \<Rightarrow> pb_Unmarshal P t d)"
    by (rule conn_unary [OF assms(1) b assms(4) [OF b], of t])
  show ?thesis
  proof (cases r)
    case (Inl e)
    with s' show ?thesis by simp
  next
    case (Inr m)
    then obtain d where d: "pb_Marshal P (con m) = Inr d" using assms(5) by (auto simp: encodable_def)
    with proto_lawsD(1) [OF assms(2) d] assms(6,7) s' Inr show ?thesis by simp
  qed
qed

text \<open>The answer on the wire to the request of a call, on the call's path.\<close>

lemma wire_of_call:
  assumes "proto_laws P" "lookup_laws find_method"
    and "serve_call table srv \<lparr>call_world = W, call_stream = ss, call_rpc = r\<rparr> s = (st', a)"
    and "pb_Marshal P (request_message r) = Inr b"
  shows "wire_serve find_method P table W srv ss (full_method r) b s = (st', wire_of P a)"
proof -
  have "request_type (full_method r) = Some (proto_type_of (request_message r))" "rpc_of (full_method r) (request_message r) = r"
    by (cases r; simp add: request_type_def rpc_of_def)+
  with proto_lawsD(1) [OF assms(1,4)] assms(3) show ?thesis
    by (simp add: wire_call_spec_core [OF assms(2)])
qed

text \<open>The streaming stubs run through their three steps.\<close>

lemma stubs_stream:
  assumes "proto_laws P" "lookup_laws find_method"
    and "conn_laws P far (wire_serve find_method P table W srv ss) cc"
    and "serve_call table srv \<lparr>call_world = W, call_stream = ss, call_rpc = r\<rparr> (far s) = (st', a)"
    and "encodable P (request_message r)" "r = RpcRun q \<or> r = RpcDeploy q"
  obtains ms e x s1 s2 s3 where "a = AnsStream ms e" "cc_NewStream cc desc (full_method r) s = (s1, Inr x)"
    "cs_SendMsg x (M_ExecRequest q) s1 = (s2, None)" "cs_CloseSend x s2 = (s3, None)" "far s3 = st'" "cs_received x s3 = (ms, e)"
proof -
  have "\<exists>ms e. a = AnsStream ms e"
    using assms(6,4) by (elim disjE) (auto simp: serve_call_def dest: stream_answer_eq)
  then obtain ms e where a: "a = AnsStream ms e" by blast
  have q: "request_message r = M_ExecRequest q" using assms(6) by auto
  obtain b where b: "pb_Marshal P (M_ExecRequest q) = Inr b" using assms(5) q by (auto simp: encodable_def)
  have "wire_serve find_method P table W srv ss (full_method r) b (far s) = (st', WireStream ms e)"
    using wire_of_call [OF assms(1,2,4)] b q a by simp
  from conn_stream [OF assms(3) b this] a show ?thesis using that by metis
qed

text \<open>
  C15: the generated stubs call the method they are named after. On a connection to a server with
  the service registered, a stub, from the request of its caller to the result, does
  what calling the handler of the same name behind the interceptors does, with the request and
  the answer unchanged, once; provided the messages can be encoded at all.
\<close>

theorem stubs_reach_handlers:
  assumes "proto_laws P" "lookup_laws find_method"
    and "conn_laws P far (wire_serve find_method P table W srv ss) cc"
    and "serve_call table srv \<lparr>call_world = W, call_stream = ss, call_rpc = r\<rparr> (far s) = (st', a)"
    and "encodable P (request_message r)" "answer_encodable P a"
  shows "map_prod far id (stub_call cc r s) = (st', a)"
proof (cases r)
  case (RpcEnroll q)
  then obtain x where a: "a = AnsEnroll x" using assms(4) by (auto simp: serve_call_def dest: map_prod_id_eq)
  have "map_prod far id (agentClient_Enroll cc q s) = (st', x)"
    unfolding agentClient_Enroll_def
    by (rule stub_unary [OF assms(3,1), where con = M_EnrollResponse])
       (use assms(5,6) RpcEnroll a wire_of_call [OF assms(1,2,4)] in \<open>auto split: sum.splits\<close>)
  with RpcEnroll a show ?thesis by (simp add: prod.map_comp comp_def map_prod_def split: prod.splits)
next
  case RpcIdentity
  then obtain x where a: "a = AnsIdentity x" using assms(4) by (auto simp: serve_call_def dest: map_prod_id_eq)
  have "map_prod far id (agentClient_Identity cc s) = (st', x)"
    unfolding agentClient_Identity_def
    by (rule stub_unary [OF assms(3,1), where con = M_IdentityResponse])
       (use assms(5,6) RpcIdentity a wire_of_call [OF assms(1,2,4)] in \<open>auto split: sum.splits\<close>)
  with RpcIdentity a show ?thesis by (simp add: prod.map_comp comp_def map_prod_def split: prod.splits)
next
  case RpcInfo
  then obtain x where a: "a = AnsInfo x" using assms(4) by (auto simp: serve_call_def dest: map_prod_id_eq)
  have "map_prod far id (agentClient_Info cc s) = (st', x)"
    unfolding agentClient_Info_def
    by (rule stub_unary [OF assms(3,1), where con = M_InfoResponse])
       (use assms(5,6) RpcInfo a wire_of_call [OF assms(1,2,4)] in \<open>auto split: sum.splits\<close>)
  with RpcInfo a show ?thesis by (simp add: prod.map_comp comp_def map_prod_def split: prod.splits)
next
  case (RpcRun q)
  obtain ms e x s1 s2 s3 where "a = AnsStream ms e"
    "cc_NewStream cc (sd_Streams Agent_ServiceDesc ! 0) (full_method r) s = (s1, Inr x)"
    "cs_SendMsg x (M_ExecRequest q) s1 = (s2, None)" "cs_CloseSend x s2 = (s3, None)" "far s3 = st'" "cs_received x s3 = (ms, e)"
    by (rule stubs_stream [OF assms(1-5) disjI1 [OF RpcRun], where desc = "sd_Streams Agent_ServiceDesc ! 0"])
  with RpcRun show ?thesis by (simp add: agentClient_Run_def)
next
  case (RpcDeploy q)
  obtain ms e x s1 s2 s3 where "a = AnsStream ms e"
    "cc_NewStream cc (sd_Streams Agent_ServiceDesc ! 1) (full_method r) s = (s1, Inr x)"
    "cs_SendMsg x (M_ExecRequest q) s1 = (s2, None)" "cs_CloseSend x s2 = (s3, None)" "far s3 = st'" "cs_received x s3 = (ms, e)"
    by (rule stubs_stream [OF assms(1-5) disjI2 [OF RpcDeploy], where desc = "sd_Streams Agent_ServiceDesc ! 1"])
  with RpcDeploy show ?thesis by (simp add: agentClient_Deploy_def)
qed

section \<open>The properties at concrete inputs\<close>

text \<open>Messages by their fields, each with its length; methods by searching the lists.\<close>

definition pairs_coder :: "(string \<times> string) list coder" where
  "pairs_coder = list_coder (pair_coder string_coder string_coder)"

definition exec_coder :: "ExecRequest coder" where
  "exec_coder = via (\<lambda>r. (er_Command r, er_Args r, er_WorkingDir r, er_Env r, er_ApprovalId r))
     (\<lambda>(c, a, w, e, i). \<lparr>er_Command = c, er_Args = a, er_WorkingDir = w, er_Env = e, er_ApprovalId = i\<rparr>)
     (pair_coder string_coder (pair_coder (list_coder string_coder) (pair_coder string_coder
       (pair_coder pairs_coder string_coder))))"

definition fields_coder :: "string list coder" where
  "fields_coder = list_coder string_coder"

fun plain_Marshal :: "proto_message \<Rightarrow> status + bytes" where
  "plain_Marshal (M_EnrollRequest r) = Inr (fst fields_coder [Token r, CsrPem r])"
| "plain_Marshal (M_EnrollResponse r) = Inr (fst fields_coder [ClientCertPem r, CaPem r, AgentId r, er_Fingerprint r])"
| "plain_Marshal M_IdentityRequest = Inr []"
| "plain_Marshal (M_IdentityResponse r) = Inr (fst fields_coder [ir_AgentId r, ir_Fingerprint r])"
| "plain_Marshal M_InfoRequest = Inr []"
| "plain_Marshal (M_InfoResponse r) = Inr (fst fields_coder [Os r, Arch r, Hostname r, Version r])"
| "plain_Marshal (M_ExecRequest r) = Inr (fst exec_coder r)"

definition bad_message :: status where
  "bad_message = Errorf Internal ''grpc: error unmarshalling request'' []"

fun plain_Unmarshal :: "proto_type \<Rightarrow> bytes \<Rightarrow> status + proto_message" where
  "plain_Unmarshal T_IdentityRequest d = (if d = [] then Inr M_IdentityRequest else Inl bad_message)"
| "plain_Unmarshal T_InfoRequest d = (if d = [] then Inr M_InfoRequest else Inl bad_message)"
| "plain_Unmarshal T_ExecRequest d = (case snd exec_coder d of Some (r, []) \<Rightarrow> Inr (M_ExecRequest r) | _ \<Rightarrow> Inl bad_message)"
| "plain_Unmarshal T_EnrollRequest d =
     (case snd fields_coder d of Some ([t, c], []) \<Rightarrow> Inr (M_EnrollRequest \<lparr>Token = t, CsrPem = c\<rparr>) | _ \<Rightarrow> Inl bad_message)"
| "plain_Unmarshal T_EnrollResponse d =
     (case snd fields_coder d of
        Some ([c, ca, i, f], []) \<Rightarrow> Inr (M_EnrollResponse \<lparr>ClientCertPem = c, CaPem = ca, AgentId = i, er_Fingerprint = f\<rparr>)
      | _ \<Rightarrow> Inl bad_message)"
| "plain_Unmarshal T_IdentityResponse d =
     (case snd fields_coder d of Some ([i, f], []) \<Rightarrow> Inr (M_IdentityResponse \<lparr>ir_AgentId = i, ir_Fingerprint = f\<rparr>) | _ \<Rightarrow> Inl bad_message)"
| "plain_Unmarshal T_InfoResponse d =
     (case snd fields_coder d of
        Some ([p, a, h, v], []) \<Rightarrow> Inr (M_InfoResponse \<lparr>Os = p, Arch = a, Hostname = h, Version = v\<rparr>)
      | _ \<Rightarrow> Inl bad_message)"

definition plain_proto :: proto_codec where
  "plain_proto = \<lparr>pb_Marshal = plain_Marshal, pb_Unmarshal = plain_Unmarshal\<rparr>"

lemma plain_proto_laws: "proto_laws plain_proto"
proof -
  have fields: "snd fields_coder (fst fields_coder xs) = Some (xs, [])" for xs
    by (simp add: good_coder_whole fields_coder_def)
  have "good_coder exec_coder"
    unfolding exec_coder_def pairs_coder_def by (rule good_via) auto
  then have exec: "snd exec_coder (fst exec_coder r) = Some (r, [])" for r by (rule good_coder_whole)
  have "plain_Marshal m = Inr b \<Longrightarrow> plain_Unmarshal (proto_type_of m) b = Inr m" for m b
    by (cases m) (auto simp: fields exec)
  moreover have "plain_Unmarshal t d = Inr m \<Longrightarrow> proto_type_of m = t" for t d m
    by (cases t) (auto split: option.splits list.splits prod.splits if_splits)
  ultimately show ?thesis by (simp add: proto_laws_def plain_proto_def)
qed

definition plain_lookup :: lookup where
  "plain_lookup sd path =
     (case find (\<lambda>(n, h). method_path sd n = path) (sd_Methods sd) of
        Some (n, h) \<Rightarrow> Some (Inl h)
      | None \<Rightarrow> (case find (\<lambda>(n, h). method_path sd n = path) (sd_Streams sd) of
          Some (n, h) \<Rightarrow> Some (Inr h) | None \<Rightarrow> None))"

lemma method_path_inject [simp]: "method_path sd n = method_path sd n' \<longleftrightarrow> n = n'"
  by (simp add: method_path_def)

lemma find_method_in:
  "distinct (map fst xs) \<Longrightarrow> (n, h) \<in> set xs \<Longrightarrow> find (\<lambda>(n', h). method_path sd n' = method_path sd n) xs = Some (n, h)"
  by (induction xs) force+

lemma find_method_out:
  "path \<notin> method_path sd ` fst ` set xs \<Longrightarrow> find (\<lambda>(n', h). method_path sd n' = path) xs = None"
  by (induction xs) auto

lemma plain_lookup_laws: "lookup_laws plain_lookup"
  unfolding lookup_laws_def
proof (intro allI impI conjI)
  fix sd :: service_desc and n h
  assume d: "distinct (map fst (sd_Methods sd) @ map fst (sd_Streams sd))"
  show "plain_lookup sd (method_path sd n) = Some (Inl h)" if "(n, h) \<in> set (sd_Methods sd)"
    using d find_method_in [OF _ that] by (simp add: plain_lookup_def)
next
  fix sd :: service_desc and n h
  assume d: "distinct (map fst (sd_Methods sd) @ map fst (sd_Streams sd))"
  show "plain_lookup sd (method_path sd n) = Some (Inr h)" if "(n, h) \<in> set (sd_Streams sd)"
  proof -
    have "method_path sd n \<notin> method_path sd ` fst ` set (sd_Methods sd)" using d that by force
    with find_method_out [OF this] find_method_in [OF _ that] d show ?thesis by (simp add: plain_lookup_def)
  qed
next
  fix sd :: service_desc and path
  assume "path \<notin> method_path sd ` (fst ` set (sd_Methods sd) \<union> fst ` set (sd_Streams sd))"
  then have "path \<notin> method_path sd ` fst ` set (sd_Methods sd)" "path \<notin> method_path sd ` fst ` set (sd_Streams sd)" by auto
  from this [THEN find_method_out] show "plain_lookup sd path = None" by (simp add: plain_lookup_def)
qed

text \<open>A connection that carries each call to the server at once; it remembers the message sent and the answer.\<close>

definition plain_conn ::
  "proto_codec \<Rightarrow> (string \<Rightarrow> bytes \<Rightarrow> 'f \<Rightarrow> 'f \<times> wire_answer) \<Rightarrow> ('f \<times> bytes \<times> incoming) client_conn" where
  "plain_conn P srv_call = \<lparr>
     cc_Invoke = (\<lambda>path m t (f, p, l).
       case pb_Marshal P m of
         Inl e \<Rightarrow> ((f, p, l), Inl e)
       | Inr b \<Rightarrow> (case srv_call path b f of
           (f', WireUnary r) \<Rightarrow> ((f', p, l), case r of Inl e \<Rightarrow> Inl e | Inr d \<Rightarrow> pb_Unmarshal P t d)
         | (f', WireStream ms e) \<Rightarrow> ((f', p, l), Inl bad_message))),
     cc_NewStream = (\<lambda>desc path s. (s, Inr \<lparr>
       cs_SendMsg = (\<lambda>m (f, p, l). case pb_Marshal P m of Inl e \<Rightarrow> ((f, p, l), Some e) | Inr b \<Rightarrow> ((f, b, l), None)),
       cs_CloseSend = (\<lambda>(f, p, l). case srv_call path p f of
           (f', WireUnary r) \<Rightarrow> ((f', p, l), Some bad_message)
         | (f', WireStream ms e) \<Rightarrow> ((f', p, (ms, e)), None)),
       cs_received = (\<lambda>(f, p, l). l)\<rparr>))\<rparr>"

lemma plain_conn_laws:
  fixes srv_call :: "string \<Rightarrow> bytes \<Rightarrow> 'f \<Rightarrow> 'f \<times> wire_answer"
  shows "conn_laws P fst srv_call (plain_conn P srv_call)"
  unfolding conn_laws_def
proof (intro conjI allI impI; elim conjE)
  fix path m t b f r and s :: "'f \<times> bytes \<times> incoming"
  assume h: "pb_Marshal P m = Inr b" "srv_call path b (fst s) = (f, WireUnary r)"
  obtain f0 p l where "s = (f0, p, l)" by (cases s)
  with h show "\<exists>s'. fst s' = f \<and> cc_Invoke (plain_conn P srv_call) path m t s =
      (s', case r of Inl e \<Rightarrow> Inl e | Inr d \<Rightarrow> pb_Unmarshal P t d)"
    by (simp add: plain_conn_def)
next
  fix desc path m b f ms e and s :: "'f \<times> bytes \<times> incoming"
  assume h: "pb_Marshal P m = Inr b" "srv_call path b (fst s) = (f, WireStream ms e)"
  obtain f0 p l where "s = (f0, p, l)" by (cases s)
  with h show "\<exists>x s1 s2 s3. cc_NewStream (plain_conn P srv_call) desc path s = (s1, Inr x) \<and> cs_SendMsg x m s1 = (s2, None) \<and>
      cs_CloseSend x s2 = (s3, None) \<and> fst s3 = f \<and> cs_received x s3 = (ms, e)"
    by (simp add: plain_conn_def)
qed

text \<open>Bytes that are no request, from a reader, to Run: refused for the role.\<close>

theorem wire_call_spec_witness:
  "wire_serve plain_lookup plain_proto AgentTable (demo_world one_liner 0) (demo_server ask_policy)
     (good_stream (role_ctx RoleReader)) m_Run ''?'' fresh_agent =
   (fresh_agent, WireStream [] (Some (insufficient RoleReader RoleOperator)))"
proof -
  have "pb_Unmarshal plain_proto T_ExecRequest ''?'' = Inl bad_message" by code_simp
  moreover have "gate_verdict AgentTable (role_ctx RoleReader) m_Run = Some (insufficient RoleReader RoleOperator)"
    by code_simp
  moreover have "request_type m_Run = Some T_ExecRequest" by (simp add: request_type_def)
  ultimately show ?thesis by (simp add: wire_call_spec [OF plain_lookup_laws])
qed

theorem stubs_reach_handlers_witness:
  "\<exists>s. stub_call (plain_conn plain_proto (wire_serve plain_lookup plain_proto AgentTable (demo_world one_liner 0)
      (demo_server ask_policy) (good_stream (role_ctx RoleOperator)))) (RpcRun (exec_request ''ls'' [''-l''] []))
     (fresh_agent, [], ([], None)) = (s, AnsStream [ExecChunk_Stdout ''ok'', ExecChunk_ExitCode 0] None) \<and> fst s = fresh_agent"
proof -
  let ?serve = "wire_serve plain_lookup plain_proto AgentTable (demo_world one_liner 0) (demo_server ask_policy) (good_stream (role_ctx RoleOperator))"
  let ?req = "exec_request ''ls'' [''-l''] []" and ?s = "(fresh_agent, [], ([], None)) :: agent_state \<times> bytes \<times> incoming"
  have "caller_role (role_ctx RoleOperator) \<in> {RoleOperator, RoleAdmin}" by (simp add: role_ctx_role)
  then have gate: "gate_verdict AgentTable (role_ctx RoleOperator) m_Run = None" by (simp add: admitted_roles(1))
  have "serve_call AgentTable (demo_server ask_policy) \<lparr>call_world = demo_world one_liner 0,
      call_stream = good_stream (role_ctx RoleOperator), call_rpc = RpcRun ?req\<rparr> (fst ?s) =
      (fresh_agent, AnsStream [ExecChunk_Stdout ''ok'', ExecChunk_ExitCode 0] None)"
    by (simp add: serve_call_def handlers_via_gate gate Server_Run_def runStream_good behaviour_def one_liner_def wire_def to_int32_def)
  moreover have "encodable plain_proto (request_message (RpcRun ?req))"
    by (simp add: encodable_def plain_proto_def)
  ultimately have "map_prod fst id (stub_call (plain_conn plain_proto ?serve) (RpcRun ?req) ?s) =
      (fresh_agent, AnsStream [ExecChunk_Stdout ''ok'', ExecChunk_ExitCode 0] None)"
    by (intro stubs_reach_handlers [OF plain_proto_laws plain_lookup_laws plain_conn_laws]) simp_all
  then show ?thesis by (cases "stub_call (plain_conn plain_proto ?serve) (RpcRun ?req) ?s") auto
qed

end
