(* ===== verification/Spec2Isabelle.thy ===== *)
theory Spec2Isabelle
  imports Token_Lock Daemon Service_Control Platform_Db Concurrent_Deploys Concurrent_Enroll
    Command_Lines Graceful_Stop Agent_Wire
begin

text \<open>
  remote-exec is a Go program for running commands on a remote machine over mutually
  authenticated TLS. A daemon, \<^verbatim>\<open>rexec-agentd\<close>, owns a certificate authority; an operator mints
  single-use join tokens; a controller, \<^verbatim>\<open>rexec\<close>, redeems one for a client certificate whose
  organization is its role, and from then on runs commands under it. Commands that an agent's
  owner calls destructive pass a role check, the agent's policy, and a one-time approval.

  This development translates the program's own code into definitions and proves what makes it
  correct, from the single file operation up to statements about a daemon and a controller that
  talk to each other.

  \<^bold>\<open>Parts and theories.\<close> Names are those of the code, with the receiver or package in front where
  needed (\<open>FileStore_Issue\<close>, \<open>policy_Load\<close>) and a \<open>_\<close> added where a field name is taken.

  \<^item> \<open>Rexec_Prelude\<close>: errors as sums with their sequencing \<open>and_then\<close>, \<open>and_then_st\<close>, time,
    entropy, the shared lemma collections. \<open>Go_Strings\<close>, \<open>Go_Encoding\<close>, \<open>Go_OS\<close>: the operations of
    the standard library the code calls, written out: \<^verbatim>\<open>strings\<close>, \<^verbatim>\<open>path/filepath\<close>, base64, hex,
    UTF-8, and the file system as a map with a plan of faults per operation.
  \<^item> \<open>One_Time\<close>: the locales \<open>one_time_store\<close> and \<open>expiring_store\<close>, the contract that join tokens and
    approvals share: whatever sequence of operations runs, an identifier is redeemed at most as
    often as it was issued, for what it was issued for, and not after its deadline. \<open>Token_Store\<close>
    interprets it as \<open>tok\<close>, \<open>Policy_Grants\<close> as \<open>gr\<close>.
  \<^item> \<open>Token_Store\<close>, \<open>Json_Codec\<close>: \<^verbatim>\<open>internal/token/token.go\<close>. The state is the file system; every
    step of \<^verbatim>\<open>mutate\<close> can fail. \<open>Token_Lock\<close>: the same calls by concurrent callers as a step relation
    over the lock file, the temporary file and the token file, for any sharing of handles and with
    or without the short cut of a handle that is locked already; every read, write and rename can
    fail, and a read that cannot open the store takes it for empty.
  \<^item> \<open>Policy_Rules\<close>, \<open>Policy_Grants\<close>: \<^verbatim>\<open>internal/policy/policy.go\<close> and \<^verbatim>\<open>grants.go\<close>, the rules for
    destructive commands and the pending approvals (a map in the daemon's memory).
  \<^item> \<open>X509\<close>, \<open>Coders\<close>, \<open>X509_Instance\<close>: certificates as the code fills and reads them, the interface
    of \<^verbatim>\<open>crypto/x509\<close>, \<^verbatim>\<open>encoding/pem\<close> and \<^verbatim>\<open>ed25519\<close> with its laws, and a concrete instance of it.
    \<open>Pki\<close>: \<^verbatim>\<open>internal/pki/pki.go\<close>, minting, loading, signing, fingerprints.
  \<^item> \<open>Authz\<close>: \<^verbatim>\<open>internal/authz/authz.go\<close>, roles, the method table and both interceptors, which
    interpret one locale \<open>rpc_gate\<close> (\<open>unary\<close>, \<open>strm\<close>).
  \<^item> \<open>Identity\<close>, \<open>Enroll\<close>, \<open>Execute\<close>: \<^verbatim>\<open>internal/identity/identity.go\<close>, \<^verbatim>\<open>internal/enroll/enroll.go\<close>,
    \<^verbatim>\<open>internal/execute/execute.go\<close>. The interface \<^verbatim>\<open>TokenConsumer\<close> of the enrollment is the locale
    \<open>token_consumer\<close>, interpreted on the token store as \<open>fstore\<close>.
  \<^item> \<open>Agent_Proto\<close>, \<open>Agentserver\<close>, \<open>Agent_Rpc\<close>: the messages, the handlers of
    \<^verbatim>\<open>internal/agentserver/agentserver.go\<close>, and a call through the generated handlers of
    \<^verbatim>\<open>agent_grpc.pb.go\<close>, that is through the interceptors. The state of the agent is its file system
    and its approvals; what a call reads of its surroundings is a record \<open>world\<close>.
    \<open>Concurrent_Enroll\<close>: overlapping enrollments over the daemon's one token store,
    beside other processes that use the same files. \<open>Concurrent_Deploys\<close>: all calls overlapping in
    time, a deploy split at the mutex of \<^verbatim>\<open>policy.Grants\<close>, an enrollment at its \<^verbatim>\<open>Consume\<close>, which
    takes the steps of \<open>Token_Lock\<close>. \<open>Agent_Wire\<close>: the rest of \<^verbatim>\<open>agent_grpc.pb.go\<close>, the
    service descriptor, the handlers with the decoding of requests, and the client's stubs.
  \<^item> \<open>Clientconfig\<close>, \<open>Transport\<close>: \<^verbatim>\<open>internal/clientconfig/clientconfig.go\<close> and
    \<^verbatim>\<open>internal/transport/transport.go\<close>: the credential file, TLS configurations, dialing, enrollment
    over the bootstrap channel, and which client certificates a server accepts (\<open>server_peer\<close>).
  \<^item> \<open>Controller\<close>: \<^verbatim>\<open>cmd/rexec/controllercmds.go\<close>, the five commands over an arbitrary far end, and
    the modelled agent as one.
  \<^item> \<open>Agentcmds\<close>: \<^verbatim>\<open>cmd/rexec-agentd/agentcmds.go\<close>: \<^verbatim>\<open>ca init\<close>, \<^verbatim>\<open>token new\<close>, loading, and the serving
    loop over a sequence of calls, with those it still serves while it stops. \<open>Daemon\<close>: the properties that span all of it.
  \<^item> \<open>Service_Control\<close>: \<^verbatim>\<open>servicecmds.go\<close>, \<^verbatim>\<open>Start\<close> and \<^verbatim>\<open>Stop\<close> against the serving goroutine as a
    step relation, and the subcommands. \<open>Graceful_Stop\<close>: the end of \<^verbatim>\<open>serveAgent\<close> with calls in
    flight, its goroutine, channel and \<^verbatim>\<open>GracefulStop\<close> as a step relation over that of
    \<open>Concurrent_Deploys\<close>. \<open>Platform_Db\<close>: \<^verbatim>\<open>db.go\<close>, \<^verbatim>\<open>platform.go\<close> and the function \<^verbatim>\<open>core\<close> of \<^verbatim>\<open>main.go\<close>, the database handle around serving.
  \<^item> \<open>Command_Tree\<close>: trees of commands and flags as \<^verbatim>\<open>cobra\<close> takes them. \<open>Agentd_Main\<close> and
    \<open>Rexec_Main\<close>: the two \<^verbatim>\<open>main.go\<close> with their \<^verbatim>\<open>app.go\<close> and the trees of \<^verbatim>\<open>agentcmds.go\<close>,
    \<^verbatim>\<open>servicecmds.go\<close> and \<^verbatim>\<open>controllercmds.go\<close>: a program takes a command line and the state of the
    machine to the new state and the exit status. \<open>Command_Lines\<close>: both programs in turn.

  \<^bold>\<open>What is shown.\<close> Safety from the wire on: who can make the machine execute anything, and on whose
  leave (\<open>Daemon\<close>, from \<open>Authz\<close>, \<open>Agent_Rpc\<close>, \<open>Agentserver\<close>, \<open>Transport\<close>). Enrollment from the
  token to the working credential (\<open>join_flow\<close>), and that a token is worth one certificate at most
  (\<open>Token_Store\<close>, \<open>Enroll\<close>), also under concurrency as long as the lock excludes (\<open>Token_Lock\<close>,
  \<open>Concurrent_Enroll\<close>); when it does not, as it need not between enrollments of one daemon, it can
  be worth two (\<open>one_token_two_certificates\<close>). The same from command lines to exit statuses: a machine is set up, a
  controller joins, a remote command reports its outcome (\<open>Agentd_Main\<close>, \<open>Command_Lines\<close>,
  \<open>Rexec_Main\<close>); and from bytes on the wire to the handlers and back to the stubs (\<open>Agent_Wire\<close>). Each
  operation on every branch, errors included. Refinement of the abstract one-time store by the
  token file and by the daemon's approvals, and of the sequential serving loop by the server with its
  overlapping calls, from the first one to the return of \<^verbatim>\<open>serveAgent\<close>.
  Overlapping calls are linearizable, enrollments as far as the token store is; one approval runs
  one of them, and none is blocked for good. Invariants of the running daemon and of the service
  process; that a graceful stop waits for the calls in flight and comes to its end, and that
  \<^verbatim>\<open>Stop\<close> returns. Round trips of the CA, the credential file and the
  controller's requests. Where the code does not do what it means to, the theorem says what it
  does instead (\<open>unreadable_store_is_wiped\<close>, \<open>one_token_two_certificates\<close>, \<open>ca_init_guard\<close>,
  \<open>approval_flow\<close>, \<open>unknown_need_fails_open\<close>, \<open>deploy_takes_remote_yes\<close>, \<open>exec_run_exit_status\<close>).

  \<^bold>\<open>Parameters.\<close> Code outside the repository is an argument: \<open>x509_env\<close> (laws \<open>x509_laws\<close>: parsing
  inverts encoding, a signature by a key verifies under its public half, a CSR proves its key),
  \<open>json_codec\<close> (\<open>json_laws\<close>), \<open>yaml_codec\<close> (\<open>yaml_laws\<close>), protobuf's \<open>proto_codec\<close> (\<open>proto_laws\<close>),
  gRPC's finding of a method (\<open>lookup_laws\<close>) and its connections (\<open>conn_laws\<close>), the parsing of a
  command line (\<open>cobra_laws\<close>), the runtime package that configures the roots (\<open>boot_serves\<close>,
  \<open>configured\<close>), the SQL driver, the service manager, and the commands of the machine (\<open>os_exec\<close>).
  The laws are instantiated by concrete functions (\<open>plain_x509\<close>, \<open>plain_json\<close>, \<open>plain_yaml\<close>,
  \<open>plain_proto\<close>, \<open>plain_lookup\<close>, \<open>plain_conn\<close>, \<open>plain_cobra\<close>), on which every property with such a
  hypothesis has its concrete instance. That signatures cannot be forged is nowhere assumed;
  the theorems say which certificate verified, not who made it. Time and entropy are explicit
  arguments; faults of the file system are plans that any theorem quantifies over unless it says
  \<open>no_faults\<close>.

  \<^bold>\<open>Bounds.\<close> No definition needs fuel: loops are structural in the list they walk (tokens, events,
  messages, pairs). The code's integers are unbounded here, except for the exit code on the wire,
  which is a 32-bit word with its wrap-around; instants and durations are integer nanoseconds,
  without the 64-bit limit of \<^verbatim>\<open>time.Duration\<close> (the program's are minutes to years, the
  limit is 292 years).

  \<^bold>\<open>Not modelled.\<close> The accessors, reflection and descriptor data of \<^verbatim>\<open>agent.pb.go\<close> (generated; a
  message is the record of what its getters return), the unused \<^verbatim>\<open>UnimplementedAgentServer\<close> and
  the marker interfaces of \<^verbatim>\<open>agent_grpc.pb.go\<close>; \<^verbatim>\<open>tools.go\<close>, which has no code; logging
  and the layout of printed text; when a deadline passes (15 seconds for the controller's unary
  calls, 10 for the daemon's shutdown), though that it does is one of the errors the far end or
  the runtime may return, which the statements over an arbitrary far end include; what \<^verbatim>\<open>cobra\<close> does with command lines outside \<open>cobra_laws\<close> (help,
  usage errors); the TLS handshake apart from the verification of client certificates, and in it
  chains through intermediate certificates, which the program's own CAs do not allow; private keys
  in other encodings than the one the program writes. Overlap in time is modelled where calls share
  state, at the lock of the token store, at the mutex of the approvals and at the graceful stop
  (\<open>Token_Lock\<close>, \<open>Concurrent_Enroll\<close>, \<open>Concurrent_Deploys\<close>, \<open>Graceful_Stop\<close>). The serving loop of
  \<open>Daemon\<close> takes the calls one after the other, in the order in which they take effect;
  \<open>graceful_stop_refines_loop\<close> says in how far the server with overlapping calls comes to that: for the
  approvals and for every answer but those to enrollments, which are what \<open>Token_Lock\<close> makes of them.
  Between callers that are in the token store together, what their writes leave in its files is left
  open. The running of a command inside a call is one step.
\<close>

end
